theory Spec2Isabelle
  imports Main
begin

text \<open>
  A model of the compiler service of the code playground: the language registry, the
  heuristic syntax checker, the output simulator, the execution backends with their
  dispatcher \<open>executeCode\<close>, and the HTTP controller \<open>compileCode\<close>. Pure functions
  of the service are HOL functions on strings; what the service does to the file system,
  the clock and child processes is explicit state passing over an environment.
\<close>

section \<open>JavaScript string primitives used by the compiler service\<close>

text \<open>
  A JavaScript string is modelled as a \<open>string\<close> whose characters are the code units
  below 256 (Latin-1). \<open>String.prototype.trim\<close> and the regular expression class
  \<open>\s\<close> remove the same characters: tab, line feed, vertical tab, form feed, carriage
  return, space and the no-break space.
\<close>

definition isWhiteSpace :: "char \<Rightarrow> bool" where
  "isWhiteSpace c =
     (c = CHR 0x09 \<or> c = CHR 0x0A \<or> c = CHR 0x0B \<or> c = CHR 0x0C \<or> c = CHR 0x0D \<or>
      c = CHR '' '' \<or> c = CHR 0xA0)"

definition trimStart :: "string \<Rightarrow> string" where
  "trimStart s = dropWhile isWhiteSpace s"

definition trimEnd :: "string \<Rightarrow> string" where
  "trimEnd s = rev (dropWhile isWhiteSpace (rev s))"

definition trim :: "string \<Rightarrow> string" where
  "trim s = trimEnd (trimStart s)"

text \<open>
  \<open>toLowerCase\<close> on Latin-1: the letters A..Z and the accented capitals
  U+00C0..U+00DE (without the multiplication sign U+00D7) move up by 32.
\<close>

definition toLowerChar :: "char \<Rightarrow> char" where
  "toLowerChar c =
     (let n = (of_char c :: nat) in
      if (65 \<le> n \<and> n \<le> 90) \<or> (192 \<le> n \<and> n \<le> 222 \<and> n \<noteq> 215)
      then char_of (n + 32) else c)"

definition toLowerCase :: "string \<Rightarrow> string" where
  "toLowerCase s = map toLowerChar s"

section \<open>Language registry\<close>

definition SUPPORTED_LANGUAGES :: "string list" where
  "SUPPORTED_LANGUAGES =
     [''c'', ''cpp'', ''python'', ''javascript'',
      ''typescript'', ''java'', ''php'', ''go'',
      ''html'', ''css'']"

definition normalizeLanguageId :: "string \<Rightarrow> string" where
  "normalizeLanguageId language = trim (toLowerCase language)"

definition isSupportedLanguage :: "string \<Rightarrow> bool" where
  "isSupportedLanguage language = (normalizeLanguageId language \<in> set SUPPORTED_LANGUAGES)"

abbreviation DQUOTE :: char where "DQUOTE \<equiv> CHR 0x22"
abbreviation SQUOTE :: char where "SQUOTE \<equiv> CHR 0x27"
abbreviation BACKSLASH :: char where "BACKSLASH \<equiv> CHR 0x5C"
abbreviation BACKTICK :: char where "BACKTICK \<equiv> CHR 0x60"
abbreviation NEWLINE :: char where "NEWLINE \<equiv> CHR 0x0A"

text \<open>The characters the regular expression dot and the multi-line \<open>$\<close> stop at.\<close>

definition isLineTerminator :: "char \<Rightarrow> bool" where
  "isLineTerminator c = (c = CHR 0x0A \<or> c = CHR 0x0D)"

fun startsWith :: "string \<Rightarrow> string \<Rightarrow> bool" where
  "startsWith s [] = True"
| "startsWith [] (p # ps) = False"
| "startsWith (c # cs) (p # ps) = (c = p \<and> startsWith cs ps)"

fun includes_str :: "string \<Rightarrow> string \<Rightarrow> bool" where
  "includes_str [] sub = (sub = [])"
| "includes_str (c # cs) sub = (startsWith (c # cs) sub \<or> includes_str cs sub)"

text \<open>\<open>s.split('\n')\<close>: the pieces between separators; the empty string gives one empty piece.\<close>

fun splitOn :: "char \<Rightarrow> string \<Rightarrow> string list" where
  "splitOn sep [] = [[]]"
| "splitOn sep (c # cs) =
     (if c = sep then [] # splitOn sep cs
      else (case splitOn sep cs of [] \<Rightarrow> [[c]] | l # ls \<Rightarrow> (c # l) # ls))"

text \<open>A number inside a template literal prints in decimal.\<close>

definition digitChar :: "nat \<Rightarrow> char" where
  "digitChar d = char_of (48 + d)"

function showNat :: "nat \<Rightarrow> string" where
  "showNat n = (if n < 10 then [digitChar n] else showNat (n div 10) @ [digitChar (n mod 10)])"
  by pat_completeness auto
termination
  by (relation "measure id") auto

section \<open>Heuristic syntax checker\<close>

record SyntaxResult =
  hasError :: bool
  errorMessage :: "string option"

definition noSyntaxError :: SyntaxResult where
  "noSyntaxError = \<lparr>hasError = False, errorMessage = None\<rparr>"

definition syntaxError :: "string \<Rightarrow> SyntaxResult" where
  "syntaxError msg = \<lparr>hasError = True, errorMessage = Some msg\<rparr>"

subsection \<open>The four text substitutions before the brace count\<close>

text \<open>
  \<open>quotedBody q s\<close> matches the rest of the pattern \<open>q[^q\\]*(?:\\.[^q\\]*)*q\<close> after
  its opening quote \<open>q\<close>: characters other than the quote and the backslash, or a
  backslash followed by any character the dot matches, up to the closing quote. It
  returns what follows the closing quote, or \<open>None\<close> when the pattern does not match
  here. The pattern leaves the matcher no choice, so no backtracking is lost.
\<close>

fun quotedBody :: "char \<Rightarrow> string \<Rightarrow> string option" where
  "quotedBody q [] = None"
| "quotedBody q (c # cs) =
     (if c = q then Some cs
      else if c = BACKSLASH then
        (case cs of [] \<Rightarrow> None
         | d # ds \<Rightarrow> if isLineTerminator d then None else quotedBody q ds)
      else quotedBody q cs)"

lemma quotedBody_length: "quotedBody q s = Some r \<Longrightarrow> length r < length s"
  by (induction q s rule: quotedBody.induct) (auto split: if_splits list.splits)

text \<open>
  \<open>code.replace(/q...q/g, qq)\<close>: every match, found left to right, becomes the two
  quotes; the search goes on after the match.
\<close>

function replaceQuoted :: "char \<Rightarrow> string \<Rightarrow> string" where
  "replaceQuoted q [] = []"
| "replaceQuoted q (c # cs) =
     (if c = q then
        (case quotedBody q cs of
           Some rest \<Rightarrow> q # q # replaceQuoted q rest
         | None \<Rightarrow> c # replaceQuoted q cs)
      else c # replaceQuoted q cs)"
  by pat_completeness auto
termination
  by (relation "measure (\<lambda>(q, s). length s)") (auto dest: quotedBody_length)

text \<open>\<open>.replace(/\/\/.*$/gm, '')\<close>: from two slashes to the end of the line.\<close>

function stripLineComments :: "string \<Rightarrow> string" where
  "stripLineComments [] = []"
| "stripLineComments [c] = [c]"
| "stripLineComments (c # d # ds) =
     (if c = CHR ''/'' \<and> d = CHR ''/''
      then stripLineComments (dropWhile (\<lambda>x. \<not> isLineTerminator x) ds)
      else c # stripLineComments (d # ds))"
  by pat_completeness auto
termination
  by (relation "measure length") (auto simp: less_Suc_eq_le le_SucI length_dropWhile_le)

text \<open>
  \<open>.replace(/\/\*[\s\S]*?\*\//g, '')\<close>: from slash-star to the first star-slash after
  it; a slash-star that is never closed stays.
\<close>

fun afterBlockEnd :: "string \<Rightarrow> string option" where
  "afterBlockEnd [] = None"
| "afterBlockEnd [c] = None"
| "afterBlockEnd (c # d # ds) =
     (if c = CHR ''*'' \<and> d = CHR ''/'' then Some ds else afterBlockEnd (d # ds))"

lemma afterBlockEnd_length: "afterBlockEnd s = Some r \<Longrightarrow> length r < length s"
  by (induction s rule: afterBlockEnd.induct) (auto split: if_splits)

function stripBlockComments :: "string \<Rightarrow> string" where
  "stripBlockComments [] = []"
| "stripBlockComments [c] = [c]"
| "stripBlockComments (c # d # ds) =
     (if c = CHR ''/'' \<and> d = CHR ''*'' then
        (case afterBlockEnd ds of
           Some rest \<Rightarrow> stripBlockComments rest
         | None \<Rightarrow> c # stripBlockComments (d # ds))
      else c # stripBlockComments (d # ds))"
  by pat_completeness auto
termination
  by (relation "measure length") (auto dest: afterBlockEnd_length)

definition codeWithoutStrings :: "string \<Rightarrow> string" where
  "codeWithoutStrings code =
     stripBlockComments (stripLineComments (replaceQuoted SQUOTE (replaceQuoted DQUOTE code)))"

definition countChar :: "char \<Rightarrow> string \<Rightarrow> nat" where
  "countChar c s = length (filter (\<lambda>x. x = c) s)"

subsection \<open>C and C++\<close>

definition checkSyntaxC :: "string \<Rightarrow> SyntaxResult" where
  "checkSyntaxC code =
     (if \<not> includes_str code ''main('' \<and> \<not> includes_str code ''main ('' then
        syntaxError ''Error: missing 'main' function. Every C/C++ program must have a main function.''
      else if includes_str code ''printf('' \<and> \<not> includes_str code '';'' then
        syntaxError (''Syntax Error: missing semicolon ';'' @ [SQUOTE])
      else
        let cCodeWithoutStrings = codeWithoutStrings code;
            cOpenBrackets = countChar CHR ''{'' cCodeWithoutStrings;
            cCloseBrackets = countChar CHR ''}'' cCodeWithoutStrings
        in if cOpenBrackets > cCloseBrackets then
             syntaxError (''Error: missing closing curly brace '}'' @ [SQUOTE])
           else noSyntaxError)"

subsection \<open>Python\<close>

text \<open>
  The loop over the non-blank lines: \<open>previousIndent\<close> is the loop variable, the result
  is the flag \<open>inconsistentIndentation\<close> (the loop breaks as soon as it is set).
\<close>

fun indentLoop :: "nat \<Rightarrow> string list \<Rightarrow> bool" where
  "indentLoop previousIndent [] = False"
| "indentLoop previousIndent (line # rest) =
     (if startsWith (trim line) ''#'' then indentLoop previousIndent rest
      else
        let indent = length line - length (trimStart line) in
        if indent > 0 \<and> previousIndent > 0 \<and> indent mod 4 \<noteq> 0 \<and> indent mod 2 \<noteq> 0 then True
        else if indent > 0 \<and> previousIndent > 0 \<and> indent > previousIndent \<and>
                (indent - previousIndent) mod 2 \<noteq> 0 \<and> (indent - previousIndent) mod 4 \<noteq> 0
        then True
        else indentLoop (if indent > 0 then indent else previousIndent) rest)"

definition nonBlankLines :: "string \<Rightarrow> string list" where
  "nonBlankLines code = filter (\<lambda>line. length (trim line) > 0) (splitOn NEWLINE code)"

definition checkSyntaxPython :: "string \<Rightarrow> SyntaxResult" where
  "checkSyntaxPython code =
     (if indentLoop 0 (nonBlankLines code) then
        syntaxError ''IndentationError: inconsistent indentation detected''
      else noSyntaxError)"

subsection \<open>JavaScript and TypeScript\<close>

record ScanState =
  inSingleQuote :: bool
  inDoubleQuote :: bool
  inTemplateLiteral :: bool
  escapeNext :: bool
  stringStartLine :: nat
  currentLine :: nat
  stringType :: string

definition scanInit :: ScanState where
  "scanInit = \<lparr>inSingleQuote = False, inDoubleQuote = False, inTemplateLiteral = False,
     escapeNext = False, stringStartLine = 0, currentLine = 1, stringType = ''''\<rparr>"

text \<open>One iteration of the loop over the characters of the code.\<close>

definition scanStep :: "ScanState \<Rightarrow> char \<Rightarrow> ScanState" where
  "scanStep s0 char =
     (let s = (if char = NEWLINE then s0\<lparr>currentLine := currentLine s0 + 1\<rparr> else s0) in
      if escapeNext s then s\<lparr>escapeNext := False\<rparr>
      else if char = BACKSLASH then s\<lparr>escapeNext := True\<rparr>
      else if \<not> inSingleQuote s \<and> \<not> inDoubleQuote s \<and> \<not> inTemplateLiteral s then
        (if char = SQUOTE then
           s\<lparr>inSingleQuote := True, stringStartLine := currentLine s,
             stringType := ''single quote''\<rparr>
         else if char = DQUOTE then
           s\<lparr>inDoubleQuote := True, stringStartLine := currentLine s,
             stringType := ''double quote''\<rparr>
         else if char = BACKTICK then
           s\<lparr>inTemplateLiteral := True, stringStartLine := currentLine s,
             stringType := ''template literal''\<rparr>
         else s)
      else if inSingleQuote s \<and> char = SQUOTE then s\<lparr>inSingleQuote := False\<rparr>
      else if inDoubleQuote s \<and> char = DQUOTE then s\<lparr>inDoubleQuote := False\<rparr>
      else if inTemplateLiteral s \<and> char = BACKTICK then s\<lparr>inTemplateLiteral := False\<rparr>
      else s)"

definition scanFrom :: "ScanState \<Rightarrow> string \<Rightarrow> ScanState" where
  "scanFrom s code = foldl scanStep s code"

definition checkSyntaxJs :: "string \<Rightarrow> SyntaxResult" where
  "checkSyntaxJs code =
     (let jsCodeWithoutStrings = codeWithoutStrings code;
          jsOpenBrackets = countChar CHR ''{'' jsCodeWithoutStrings;
          jsCloseBrackets = countChar CHR ''}'' jsCodeWithoutStrings
      in if jsOpenBrackets > jsCloseBrackets then
           syntaxError (''SyntaxError: missing closing curly brace '}'' @ [SQUOTE])
         else
           let s = scanFrom scanInit code in
           if inSingleQuote s \<or> inDoubleQuote s \<or> inTemplateLiteral s then
             syntaxError (''SyntaxError: unterminated '' @ stringType s @
               '' starting at line '' @ showNat (stringStartLine s))
           else noSyntaxError)"

subsection \<open>The checker\<close>

definition checkSyntax :: "string \<Rightarrow> string \<Rightarrow> SyntaxResult" where
  "checkSyntax code languageId =
     (if trim code = [] then syntaxError ''No code to compile. Please enter some code.''
      else if languageId = ''c'' \<or> languageId = ''cpp'' then checkSyntaxC code
      else if languageId = ''python'' then checkSyntaxPython code
      else if languageId = ''javascript'' \<or> languageId = ''typescript'' then checkSyntaxJs code
      else noSyntaxError)"

declare showNat.simps [simp del]

subsection \<open>Notions for stating what the substitutions remove\<close>

text \<open>
  \<open>literalBody q m\<close>: \<open>m\<close> is what may stand between the quotes of a literal that the
  first two substitutions replace: characters other than the quote and the backslash,
  and backslashes followed by any character that is not a line terminator.
\<close>

inductive literalBody :: "char \<Rightarrow> string \<Rightarrow> bool" for q :: char where
  Empty: "literalBody q []"
| Plain: "c \<noteq> q \<Longrightarrow> c \<noteq> BACKSLASH \<Longrightarrow> literalBody q m \<Longrightarrow> literalBody q (c # m)"
| Escaped: "\<not> isLineTerminator d \<Longrightarrow> literalBody q m \<Longrightarrow> literalBody q (BACKSLASH # d # m)"

subsection \<open>Notions for stating what the scanner reports\<close>

definition inString :: "ScanState \<Rightarrow> bool" where
  "inString s = (inSingleQuote s \<or> inDoubleQuote s \<or> inTemplateLiteral s)"

definition scanned :: "string \<Rightarrow> ScanState" where
  "scanned code = scanFrom scanInit code"

text \<open>
  \<open>flagsFor s kind q\<close>: the scanner is inside a string of the given kind, opened by the
  quote character \<open>q\<close>, and inside no other.
\<close>

definition flagsFor :: "ScanState \<Rightarrow> string \<Rightarrow> char \<Rightarrow> bool" where
  "flagsFor s kind q =
     ((kind = ''single quote'' \<and> q = SQUOTE \<and>
         inSingleQuote s \<and> \<not> inDoubleQuote s \<and> \<not> inTemplateLiteral s) \<or>
      (kind = ''double quote'' \<and> q = DQUOTE \<and>
         \<not> inSingleQuote s \<and> inDoubleQuote s \<and> \<not> inTemplateLiteral s) \<or>
      (kind = ''template literal'' \<and> q = BACKTICK \<and>
         \<not> inSingleQuote s \<and> \<not> inDoubleQuote s \<and> inTemplateLiteral s))"

text \<open>
  The shape of a text, stated without the scanner. \<open>scanBody q m\<close>: \<open>m\<close> can stand
  inside a string opened by \<open>q\<close> without ending it, being made of characters other than
  \<open>q\<close> and the backslash and of backslashes followed by any one character.
  \<open>outsideText t\<close>: every string in \<open>t\<close> is closed, \<open>t\<close> being made of characters that are
  neither a quote nor the backslash, of backslashes followed by any one character, and
  of whole strings (a quote, a \<open>scanBody\<close> for it, the same quote again).
  \<open>pendingEscape tail\<close>: the text ends here, or with one backslash that escapes nothing.
\<close>

definition isStringQuote :: "char \<Rightarrow> bool" where
  "isStringQuote c = (c = SQUOTE \<or> c = DQUOTE \<or> c = BACKTICK)"

definition quoteName :: "char \<Rightarrow> string" where
  "quoteName q =
     (if q = SQUOTE then ''single quote''
      else if q = DQUOTE then ''double quote''
      else ''template literal'')"

inductive scanBody :: "char \<Rightarrow> string \<Rightarrow> bool" for q :: char where
  Empty: "scanBody q []"
| Plain: "c \<noteq> q \<Longrightarrow> c \<noteq> BACKSLASH \<Longrightarrow> scanBody q m \<Longrightarrow> scanBody q (c # m)"
| Escaped: "scanBody q m \<Longrightarrow> scanBody q (BACKSLASH # d # m)"

inductive outsideText :: "string \<Rightarrow> bool" where
  Empty: "outsideText []"
| Plain: "\<not> isStringQuote c \<Longrightarrow> c \<noteq> BACKSLASH \<Longrightarrow> outsideText t \<Longrightarrow> outsideText (c # t)"
| Escaped: "outsideText t \<Longrightarrow> outsideText (BACKSLASH # d # t)"
| Literal: "isStringQuote q \<Longrightarrow> scanBody q m \<Longrightarrow> outsideText t \<Longrightarrow> outsideText (q # m @ q # t)"

definition pendingEscape :: "string \<Rightarrow> bool" where
  "pendingEscape tail = (tail = [] \<or> tail = [BACKSLASH])"

text \<open>The scanner is outside every string, or inside one opened by \<open>q\<close> on line \<open>n\<close>.\<close>

definition outsideState :: "ScanState \<Rightarrow> bool" where
  "outsideState s = (\<not> inString s \<and> \<not> escapeNext s)"

definition insideState :: "ScanState \<Rightarrow> char \<Rightarrow> nat \<Rightarrow> bool" where
  "insideState s q n =
     (flagsFor s (quoteName q) q \<and> \<not> escapeNext s \<and> stringType s = quoteName q \<and>
      stringStartLine s = n)"

text \<open>
  \<open>closedShape code\<close>: the text ends outside every string. \<open>openShape code pre q m\<close>:
  the text ends inside the string that the quote \<open>q\<close> opens after \<open>pre\<close>.
\<close>

definition closedShape :: "string \<Rightarrow> bool" where
  "closedShape code = (\<exists>pre tail. code = pre @ tail \<and> outsideText pre \<and> pendingEscape tail)"

definition openShape :: "string \<Rightarrow> string \<Rightarrow> char \<Rightarrow> string \<Rightarrow> bool" where
  "openShape code pre q m =
     (\<exists>tail. code = pre @ q # m @ tail \<and> outsideText pre \<and> isStringQuote q \<and>
        scanBody q m \<and> pendingEscape tail)"

subsection \<open>Notions for stating what the indentation check reports\<close>

definition indentOf :: "string \<Rightarrow> nat" where
  "indentOf line = length line - length (trimStart line)"

definition badIndentStep :: "nat \<Rightarrow> nat \<Rightarrow> bool" where
  "badIndentStep previousIndent indent =
     ((indent mod 4 \<noteq> 0 \<and> indent mod 2 \<noteq> 0) \<or>
      (indent > previousIndent \<and> (indent - previousIndent) mod 2 \<noteq> 0 \<and>
       (indent - previousIndent) mod 4 \<noteq> 0))"

definition positiveIndents :: "string list \<Rightarrow> nat list" where
  "positiveIndents ls =
     filter (\<lambda>n. n > 0) (map indentOf (filter (\<lambda>line. \<not> startsWith (trim line) ''#'') ls))"

definition hasBadPair :: "nat list \<Rightarrow> bool" where
  "hasBadPair xs = (\<exists>k. Suc k < length xs \<and> badIndentStep (xs ! k) (xs ! Suc k))"

section \<open>The environment of an execution\<close>

text \<open>
  What the service cannot decide by itself is read from a \<open>world\<close>: the readings of
  \<open>Date.now()\<close> in the order they are taken, whether \<open>temp.mkdirSync\<close> and
  \<open>fs.writeFile\<close> succeed, and how each spawned command ends. What the service changes
  is the \<open>sysState\<close>: the number of clock readings taken, the workspaces that exist,
  the directories \<open>temp.track()\<close> has registered for removal when the process exits,
  the files written and the commands spawned (latest first).
\<close>

datatype thrown = ErrorObj string | NonError

datatype exec_result =
  Resolved string string
| Rejected "string option" "string option"

record world =
  clock :: "nat \<Rightarrow> int"
  mkdirResult :: "string \<Rightarrow> nat \<Rightarrow> thrown + string"
  writeFileResult :: "string \<Rightarrow> string \<Rightarrow> thrown option"
  execResult :: "string \<Rightarrow> exec_result"

record sysState =
  clockReads :: nat
  workspaces :: "string list"
  tracked :: "string list"
  files :: "(string \<times> string) list"
  spawned :: "string list"

text \<open>The result of an execution; the field \<open>output\<close> is called \<open>outputText\<close> here.\<close>

record CompilerResult =
  outputText :: string
  error :: "string option"
  executionTime :: int

definition now :: "world \<Rightarrow> sysState \<Rightarrow> int \<times> sysState" where
  "now w s = (clock w (clockReads s), s\<lparr>clockReads := Suc (clockReads s)\<rparr>)"

text \<open>
  \<open>temp.mkdirSync(affix)\<close> with tracking switched on (\<open>temp.track()\<close> at module load):
  the new directory exists and is registered for removal at process exit.
\<close>

definition mkdirSync :: "world \<Rightarrow> string \<Rightarrow> sysState \<Rightarrow> (thrown + string) \<times> sysState" where
  "mkdirSync w affix s =
     (case mkdirResult w affix (length (tracked s)) of
        Inl e \<Rightarrow> (Inl e, s)
      | Inr dir \<Rightarrow> (Inr dir, s\<lparr>workspaces := dir # workspaces s, tracked := dir # tracked s\<rparr>))"

definition writeFile :: "world \<Rightarrow> string \<Rightarrow> string \<Rightarrow> sysState \<Rightarrow> thrown option \<times> sysState" where
  "writeFile w path content s =
     (case writeFileResult w path content of
        Some e \<Rightarrow> (Some e, s)
      | None \<Rightarrow> (None, s\<lparr>files := (path, content) # files s\<rparr>))"

definition execAsync :: "world \<Rightarrow> string \<Rightarrow> sysState \<Rightarrow> exec_result \<times> sysState" where
  "execAsync w cmd s = (execResult w cmd, s\<lparr>spawned := cmd # spawned s\<rparr>)"

definition pathJoin :: "string \<Rightarrow> string \<Rightarrow> string" where
  "pathJoin dir name = dir @ ''/'' @ name"

text \<open>\<open>x || d\<close> for a string that may be undefined, and \<open>x || null\<close>.\<close>

definition orElse :: "string option \<Rightarrow> string \<Rightarrow> string" where
  "orElse x d = (case x of None \<Rightarrow> d | Some v \<Rightarrow> if v = [] then d else v)"

definition orNull :: "string \<Rightarrow> string option" where
  "orNull v = (if v = [] then None else Some v)"

section \<open>Output simulator\<close>

definition dropPrefix :: "string \<Rightarrow> string \<Rightarrow> string option" where
  "dropPrefix p s = (if startsWith s p then Some (drop (length p) s) else None)"

definition skipSpaces :: "string \<Rightarrow> string" where
  "skipSpaces s = dropWhile isWhiteSpace s"

definition isQuote :: "char \<Rightarrow> bool" where
  "isQuote c = (c = DQUOTE \<or> c = SQUOTE)"

text \<open>\<open>name\s*sym\s*\<close>: the name, the symbol after optional whitespace, optional whitespace.\<close>

definition afterCall :: "string \<Rightarrow> string \<Rightarrow> string \<Rightarrow> string option" where
  "afterCall name symb s =
     (case dropPrefix name s of
        None \<Rightarrow> None
      | Some s1 \<Rightarrow>
          (case dropPrefix symb (skipSpaces s1) of
             None \<Rightarrow> None
           | Some s2 \<Rightarrow> Some (skipSpaces s2)))"

text \<open>\<open>"([^"]*)"\<close>: the group and what follows the closing quote.\<close>

definition doubleQuoted :: "string \<Rightarrow> (string \<times> string) option" where
  "doubleQuoted s =
     (case s of
        [] \<Rightarrow> None
      | c # cs \<Rightarrow>
          if c = DQUOTE then
            (case dropWhile (\<lambda>x. x \<noteq> DQUOTE) cs of
               [] \<Rightarrow> None
             | q # rest \<Rightarrow> Some (takeWhile (\<lambda>x. x \<noteq> DQUOTE) cs, rest))
          else None)"

text \<open>
  First alternative and the closing parenthesis, \<open>f?["']([^"']*)["']\)\<close> (the \<open>f?\<close>
  only in the Python pattern): the group runs to the next quote of either kind, and the
  parenthesis must follow that quote at once.
\<close>

definition quotedArg :: "bool \<Rightarrow> string \<Rightarrow> (string \<times> string) option" where
  "quotedArg allowF s =
     (let s1 = (case s of
                  c # d # ds \<Rightarrow> if allowF \<and> c = CHR ''f'' \<and> isQuote d then d # ds else s
                | _ \<Rightarrow> s)
      in case s1 of
           [] \<Rightarrow> None
         | c # cs \<Rightarrow>
             if isQuote c then
               (case dropWhile (\<lambda>x. \<not> isQuote x) cs of
                  q # p # rest \<Rightarrow>
                    if p = CHR '')'' then Some (takeWhile (\<lambda>x. \<not> isQuote x) cs, rest)
                    else None
                | _ \<Rightarrow> None)
             else None)"

text \<open>
  Second alternative and the closing parenthesis, \<open>([^)]*)\s*\)\<close>: the group takes
  everything up to the first closing parenthesis, trailing whitespace included.
\<close>

definition rawArg :: "string \<Rightarrow> (string \<times> string) option" where
  "rawArg s =
     (case dropWhile (\<lambda>x. x \<noteq> CHR '')'') s of
        [] \<Rightarrow> None
      | p # rest \<Rightarrow> Some (takeWhile (\<lambda>x. x \<noteq> CHR '')'') s, rest))"

text \<open>
  The alternation: the two groups (undefined when their alternative did not take part)
  and the rest of the input. The result printed is \<open>match[1] || match[2] || ""\<close>.
\<close>

definition printArg :: "bool \<Rightarrow> string \<Rightarrow> ((string option \<times> string option) \<times> string) option" where
  "printArg allowF s =
     (case quotedArg allowF s of
        Some (lit, rest) \<Rightarrow> Some ((Some lit, None), rest)
      | None \<Rightarrow>
          (case rawArg s of
             Some (raw, rest) \<Rightarrow> Some ((None, Some raw), rest)
           | None \<Rightarrow> None))"

datatype printPattern = PrintfRe | CoutRe | PyPrintRe | ConsoleLogRe

text \<open>
  One attempt of a pattern at the start of the input: the text the loop appends (without
  its newline) and the input after the match.
\<close>

fun matchAt :: "printPattern \<Rightarrow> string \<Rightarrow> (string \<times> string) option" where
  "matchAt PrintfRe s =
     (case afterCall ''printf'' ''('' s of None \<Rightarrow> None | Some s1 \<Rightarrow> doubleQuoted s1)"
| "matchAt CoutRe s =
     (case afterCall ''cout'' ''<<'' s of None \<Rightarrow> None | Some s1 \<Rightarrow> doubleQuoted s1)"
| "matchAt PyPrintRe s =
     (case afterCall ''print'' ''('' s of
        None \<Rightarrow> None
      | Some s1 \<Rightarrow>
          (case printArg True s1 of
             None \<Rightarrow> None
           | Some ((g1, g2), rest) \<Rightarrow> Some (orElse g1 (orElse g2 ''''), rest)))"
| "matchAt ConsoleLogRe s =
     (case afterCall ''console.log'' ''('' s of
        None \<Rightarrow> None
      | Some s1 \<Rightarrow>
          (case printArg False s1 of
             None \<Rightarrow> None
           | Some ((g1, g2), rest) \<Rightarrow> Some (orElse g1 (orElse g2 ''''), rest)))"

lemma dropPrefix_length: "dropPrefix p s = Some r \<Longrightarrow> length r \<le> length s"
  by (auto simp: dropPrefix_def split: if_splits)

lemma dropPrefix_length_less: "p \<noteq> [] \<Longrightarrow> dropPrefix p s = Some r \<Longrightarrow> length r < length s"
  by (cases p; cases s) (auto simp: dropPrefix_def split: if_splits)

lemma skipSpaces_length: "length (skipSpaces s) \<le> length s"
  by (simp add: skipSpaces_def length_dropWhile_le)

lemma afterCall_length:
  assumes "name \<noteq> []" "afterCall name symb s = Some r"
  shows "length r < length s"
proof -
  from assms(2) obtain s1 s2 where 1: "dropPrefix name s = Some s1"
    and 2: "dropPrefix symb (skipSpaces s1) = Some s2" and 3: "r = skipSpaces s2"
    by (auto simp: afterCall_def split: option.splits)
  have "length r \<le> length s2"
    using 3 skipSpaces_length by simp
  also have "\<dots> \<le> length (skipSpaces s1)"
    using 2 by (rule dropPrefix_length)
  also have "\<dots> \<le> length s1"
    by (rule skipSpaces_length)
  also have "\<dots> < length s"
    using assms(1) 1 by (rule dropPrefix_length_less)
  finally show ?thesis .
qed

lemma dropWhile_rest_length: "dropWhile P s = x # r \<Longrightarrow> length r < length s"
proof -
  assume "dropWhile P s = x # r"
  then have "length (x # r) \<le> length s"
    using length_dropWhile_le [of P s] by simp
  then show ?thesis by simp
qed

lemma doubleQuoted_length: "doubleQuoted s = Some (g, r) \<Longrightarrow> length r \<le> length s"
  by (auto simp: doubleQuoted_def split: list.splits if_splits dest!: dropWhile_rest_length)

lemma rawArg_length: "rawArg s = Some (g, r) \<Longrightarrow> length r \<le> length s"
  by (auto simp: rawArg_def split: list.splits dest!: dropWhile_rest_length)

lemma quotedArg_length: "quotedArg allowF s = Some (g, r) \<Longrightarrow> length r \<le> length s"
  by (auto simp: quotedArg_def Let_def split: list.splits if_splits dest!: dropWhile_rest_length)

lemma printArg_length: "printArg allowF s = Some (gs, r) \<Longrightarrow> length r \<le> length s"
  by (auto simp: printArg_def split: option.splits dest: quotedArg_length rawArg_length)

lemma matchAt_length: "matchAt p s = Some (g, r) \<Longrightarrow> length r < length s"
proof (cases p)
  case PrintfRe
  assume "matchAt p s = Some (g, r)"
  with PrintfRe obtain s1 where "afterCall ''printf'' ''('' s = Some s1" "doubleQuoted s1 = Some (g, r)"
    by (auto split: option.splits)
  then show ?thesis
    using afterCall_length [of "''printf''" "''(''" s s1] doubleQuoted_length [of s1 g r] by simp
next
  case CoutRe
  assume "matchAt p s = Some (g, r)"
  with CoutRe obtain s1 where "afterCall ''cout'' ''<<'' s = Some s1" "doubleQuoted s1 = Some (g, r)"
    by (auto split: option.splits)
  then show ?thesis
    using afterCall_length [of "''cout''" "''<<''" s s1] doubleQuoted_length [of s1 g r] by simp
next
  case PyPrintRe
  assume "matchAt p s = Some (g, r)"
  with PyPrintRe obtain s1 gs where "afterCall ''print'' ''('' s = Some s1" "printArg True s1 = Some (gs, r)"
    by (auto split: option.splits)
  then show ?thesis
    using afterCall_length [of "''print''" "''(''" s s1] printArg_length [of True s1 gs r] by simp
next
  case ConsoleLogRe
  assume "matchAt p s = Some (g, r)"
  with ConsoleLogRe obtain s1 gs where "afterCall ''console.log'' ''('' s = Some s1"
    "printArg False s1 = Some (gs, r)"
    by (auto split: option.splits)
  then show ?thesis
    using afterCall_length [of "''console.log''" "''(''" s s1] printArg_length [of False s1 gs r]
    by simp
qed

text \<open>
  The loop \<open>while ((match = re.exec(code)) !== null)\<close> of a global pattern: the next
  match is the leftmost one at or after the end of the previous match.
\<close>

function execAll :: "printPattern \<Rightarrow> string \<Rightarrow> string list" where
  "execAll p [] = []"
| "execAll p (c # cs) =
     (case matchAt p (c # cs) of
        Some (g, rest) \<Rightarrow> g # execAll p rest
      | None \<Rightarrow> execAll p cs)"
  by pat_completeness auto
termination
  by (relation "measure (\<lambda>(p, s). length s)") (auto dest: matchAt_length)

definition printedLines :: "printPattern \<Rightarrow> string \<Rightarrow> string" where
  "printedLines p code = concat (map (\<lambda>g. g @ [NEWLINE]) (execAll p code))"

definition simulatedOutput :: "string \<Rightarrow> string \<Rightarrow> string" where
  "simulatedOutput code languageId =
     (let out0 =
        (if languageId = ''c'' \<or> languageId = ''cpp'' then
           printedLines (if languageId = ''c'' then PrintfRe else CoutRe) code
         else if languageId = ''python'' then printedLines PyPrintRe code
         else if languageId = ''javascript'' \<or> languageId = ''typescript'' then
           printedLines ConsoleLogRe code
         else if languageId = ''html'' \<or> languageId = ''css'' then
           ''Frontend code doesn't produce console output directly.'' @ [NEWLINE] @
           ''Rendering in the preview panel.''
         else
           ''Language execution simulation not implemented yet.'' @ [NEWLINE] @
           ''Program executed successfully.'')
      in if out0 = [] \<and> languageId \<noteq> ''html'' \<and> languageId \<noteq> ''css''
         then ''Program executed successfully with no output.''
         else out0)"

definition simulateExecution ::
  "world \<Rightarrow> string \<Rightarrow> string \<Rightarrow> sysState \<Rightarrow> CompilerResult \<times> sysState" where
  "simulateExecution w code languageId s =
     (let (startTime, s1) = now w s;
          out = simulatedOutput code languageId;
          (endTime, s2) = now w s1
      in (\<lparr>outputText = out, error = None, executionTime = endTime - startTime\<rparr>, s2))"

subsection \<open>Notions for stating what the print patterns match\<close>

text \<open>
  \<open>callPrefix name symb s t\<close>: \<open>s\<close> is the name, whitespace, the symbol, whitespace and
  then \<open>t\<close>, which does not begin with whitespace. \<open>quotedForm allowF t g rest\<close>: \<open>t\<close> is
  a quote of either kind (after an \<open>f\<close>, where the pattern allows one), the text \<open>g\<close>
  without any quote character, a quote of either kind, the closing parenthesis and
  \<open>rest\<close>. \<open>rawForm t g rest\<close>: \<open>t\<close> is the text \<open>g\<close> without a closing parenthesis,
  the closing parenthesis and \<open>rest\<close>. \<open>literalForm s g rest\<close>: \<open>s\<close> is a double quote,
  the text \<open>g\<close> without a double quote, a double quote and \<open>rest\<close>.
\<close>

definition callPrefix :: "string \<Rightarrow> string \<Rightarrow> string \<Rightarrow> string \<Rightarrow> bool" where
  "callPrefix name symb s t =
     (\<exists>ws1 ws2. s = name @ ws1 @ symb @ ws2 @ t \<and>
        list_all isWhiteSpace ws1 \<and> list_all isWhiteSpace ws2 \<and>
        (t = [] \<or> \<not> isWhiteSpace (hd t)))"

definition quotedForm :: "bool \<Rightarrow> string \<Rightarrow> string \<Rightarrow> string \<Rightarrow> bool" where
  "quotedForm allowF t g rest =
     (\<exists>pre q q'. (pre = [] \<or> (allowF \<and> pre = ''f'')) \<and> isQuote q \<and> isQuote q' \<and>
        list_all (\<lambda>c. \<not> isQuote c) g \<and> t = pre @ q # g @ q' # CHR '')'' # rest)"

definition rawForm :: "string \<Rightarrow> string \<Rightarrow> string \<Rightarrow> bool" where
  "rawForm t g rest = (list_all (\<lambda>c. c \<noteq> CHR '')'') g \<and> t = g @ CHR '')'' # rest)"

definition literalForm :: "string \<Rightarrow> string \<Rightarrow> string \<Rightarrow> bool" where
  "literalForm s g rest = (list_all (\<lambda>c. c \<noteq> DQUOTE) g \<and> s = DQUOTE # g @ DQUOTE # rest)"

section \<open>Execution backends\<close>

text \<open>
  Every backend repeats the same steps, named once here. \<open>prepareWorkspace\<close> is
  \<open>temp.mkdirSync\<close> followed by \<open>fs.writeFile\<close> of the code; either may throw, and the
  backends have no \<open>catch\<close> around them. \<open>compilePhase\<close> is the first \<open>try\<close> of the
  compiled backends: a rejected compiler call returns the compile error result at once.
  \<open>runPhase\<close> is the last \<open>try\<close> of every backend. The \<open>finally\<close> block of every
  backend is empty (cleanup is left to \<open>temp.track()\<close>), so it changes nothing.
\<close>

definition prepareWorkspace ::
  "world \<Rightarrow> string \<Rightarrow> string \<Rightarrow> string \<Rightarrow> sysState \<Rightarrow> (thrown + string) \<times> sysState" where
  "prepareWorkspace w affix fileName code s =
     (case mkdirSync w affix s of
        (Inl e, s1) \<Rightarrow> (Inl e, s1)
      | (Inr tmpDir, s1) \<Rightarrow>
          (case writeFile w (pathJoin tmpDir fileName) code s1 of
             (Some e, s2) \<Rightarrow> (Inl e, s2)
           | (None, s2) \<Rightarrow> (Inr tmpDir, s2)))"

definition compilePhase ::
  "world \<Rightarrow> string \<Rightarrow> int \<Rightarrow> sysState \<Rightarrow> CompilerResult option \<times> sysState" where
  "compilePhase w cmd startTime s =
     (case execAsync w cmd s of
        (Resolved stdout stderr, s1) \<Rightarrow> (None, s1)
      | (Rejected stdout stderr, s1) \<Rightarrow>
          (let (t, s2) = now w s1
           in (Some \<lparr>outputText = '''', error = Some (orElse stderr ''Compilation error''),
                     executionTime = t - startTime\<rparr>, s2)))"

definition runPhase ::
  "world \<Rightarrow> string \<Rightarrow> string \<Rightarrow> int \<Rightarrow> sysState \<Rightarrow> CompilerResult \<times> sysState" where
  "runPhase w cmd fallback startTime s =
     (case execAsync w cmd s of
        (Resolved stdout stderr, s1) \<Rightarrow>
          (let (t, s2) = now w s1
           in (\<lparr>outputText = stdout, error = orNull stderr, executionTime = t - startTime\<rparr>, s2))
      | (Rejected stdout stderr, s1) \<Rightarrow>
          (let (t, s2) = now w s1
           in (\<lparr>outputText = orElse stdout '''', error = Some (orElse stderr fallback),
                executionTime = t - startTime\<rparr>, s2)))"

text \<open>A backend that compiles to \<open>main.out\<close> and runs it (C and C++).\<close>

definition compileAndRun ::
  "world \<Rightarrow> string \<Rightarrow> string \<Rightarrow> (string \<Rightarrow> string \<Rightarrow> string) \<Rightarrow> string \<Rightarrow> sysState
     \<Rightarrow> (thrown + CompilerResult) \<times> sysState" where
  "compileAndRun w affix fileName compileCmd code s =
     (let (startTime, s0) = now w s in
      case prepareWorkspace w affix fileName code s0 of
        (Inl e, s1) \<Rightarrow> (Inl e, s1)
      | (Inr tmpDir, s1) \<Rightarrow>
          (let sourcePath = pathJoin tmpDir fileName;
               outputPath = pathJoin tmpDir ''main.out''
           in case compilePhase w (compileCmd sourcePath outputPath) startTime s1 of
                (Some r, s2) \<Rightarrow> (Inr r, s2)
              | (None, s2) \<Rightarrow>
                  (case runPhase w outputPath ''Runtime error'' startTime s2 of
                     (r, s3) \<Rightarrow> (Inr r, s3))))"

definition compileAndRunC :: "world \<Rightarrow> string \<Rightarrow> sysState \<Rightarrow> (thrown + CompilerResult) \<times> sysState" where
  "compileAndRunC w code s =
     compileAndRun w ''c-compiler'' ''main.c''
       (\<lambda>sourcePath outputPath. ''gcc '' @ sourcePath @ '' -o '' @ outputPath @ '' -lm'') code s"

definition compileAndRunCpp :: "world \<Rightarrow> string \<Rightarrow> sysState \<Rightarrow> (thrown + CompilerResult) \<times> sysState" where
  "compileAndRunCpp w code s =
     compileAndRun w ''cpp-compiler'' ''main.cpp''
       (\<lambda>sourcePath outputPath. ''g++ '' @ sourcePath @ '' -o '' @ outputPath @ '' -std=c++17'')
       code s"

text \<open>A backend that runs the source file with one command (the interpreters and \<open>go run\<close>).\<close>

definition runWith ::
  "world \<Rightarrow> string \<Rightarrow> string \<Rightarrow> string \<Rightarrow> string \<Rightarrow> string \<Rightarrow> sysState
     \<Rightarrow> (thrown + CompilerResult) \<times> sysState" where
  "runWith w affix fileName tool fallback code s =
     (let (startTime, s0) = now w s in
      case prepareWorkspace w affix fileName code s0 of
        (Inl e, s1) \<Rightarrow> (Inl e, s1)
      | (Inr tmpDir, s1) \<Rightarrow>
          (case runPhase w (tool @ '' '' @ pathJoin tmpDir fileName) fallback startTime s1 of
             (r, s2) \<Rightarrow> (Inr r, s2)))"

definition runPython :: "world \<Rightarrow> string \<Rightarrow> sysState \<Rightarrow> (thrown + CompilerResult) \<times> sysState" where
  "runPython w code s = runWith w ''python-runner'' ''main.py'' ''python3'' ''Runtime error'' code s"

definition runJavaScript :: "world \<Rightarrow> string \<Rightarrow> sysState \<Rightarrow> (thrown + CompilerResult) \<times> sysState" where
  "runJavaScript w code s =
     runWith w ''javascript-runner'' ''main.js'' ''node'' ''Runtime error'' code s"

definition runTypeScript :: "world \<Rightarrow> string \<Rightarrow> sysState \<Rightarrow> (thrown + CompilerResult) \<times> sysState" where
  "runTypeScript w code s =
     runWith w ''typescript-runner'' ''main.ts'' ''npx ts-node'' ''Runtime error'' code s"

definition runPhp :: "world \<Rightarrow> string \<Rightarrow> sysState \<Rightarrow> (thrown + CompilerResult) \<times> sysState" where
  "runPhp w code s = runWith w ''php-runner'' ''main.php'' ''php'' ''Runtime error'' code s"

definition compileAndRunGo :: "world \<Rightarrow> string \<Rightarrow> sysState \<Rightarrow> (thrown + CompilerResult) \<times> sysState" where
  "compileAndRunGo w code s =
     runWith w ''go-compiler'' ''main.go'' ''go run'' ''Compilation or runtime error'' code s"

subsection \<open>Java\<close>

definition isWordChar :: "char \<Rightarrow> bool" where
  "isWordChar c =
     (let n = (of_char c :: nat) in
      (48 \<le> n \<and> n \<le> 57) \<or> (65 \<le> n \<and> n \<le> 90) \<or> (97 \<le> n \<and> n \<le> 122) \<or> n = 95)"

text \<open>\<open>public\s+class\s+(\w+)\<close> at the start of the input: the class name.\<close>

definition matchPublicClass :: "string \<Rightarrow> string option" where
  "matchPublicClass s =
     (case dropPrefix ''public'' s of
        None \<Rightarrow> None
      | Some s1 \<Rightarrow>
          if skipSpaces s1 = s1 then None
          else
            (case dropPrefix ''class'' (skipSpaces s1) of
               None \<Rightarrow> None
             | Some s2 \<Rightarrow>
                 if skipSpaces s2 = s2 then None
                 else
                   (let name = takeWhile isWordChar (skipSpaces s2)
                    in if name = [] then None else Some name)))"

text \<open>\<open>code.match(...)\<close> without the global flag: the leftmost match.\<close>

fun findPublicClass :: "string \<Rightarrow> string option" where
  "findPublicClass [] = None"
| "findPublicClass (c # cs) =
     (case matchPublicClass (c # cs) of
        Some name \<Rightarrow> Some name
      | None \<Rightarrow> findPublicClass cs)"

definition compileAndRunJava :: "world \<Rightarrow> string \<Rightarrow> sysState \<Rightarrow> (thrown + CompilerResult) \<times> sysState" where
  "compileAndRunJava w code s =
     (let (startTime, s0) = now w s in
      case findPublicClass code of
        None \<Rightarrow>
          (let (t, s1) = now w s0
           in (Inr \<lparr>outputText = '''', error = Some ''No public class found in the code'',
                    executionTime = t - startTime\<rparr>, s1))
      | Some mainClassName \<Rightarrow>
          (case prepareWorkspace w ''java-compiler'' (mainClassName @ ''.java'') code s0 of
             (Inl e, s1) \<Rightarrow> (Inl e, s1)
           | (Inr tmpDir, s1) \<Rightarrow>
               (let sourcePath = pathJoin tmpDir (mainClassName @ ''.java'')
                in case compilePhase w (''javac '' @ sourcePath) startTime s1 of
                     (Some r, s2) \<Rightarrow> (Inr r, s2)
                   | (None, s2) \<Rightarrow>
                       (case runPhase w (''java -cp '' @ tmpDir @ '' '' @ mainClassName)
                               ''Runtime error'' startTime s2 of
                          (r, s3) \<Rightarrow> (Inr r, s3)))))"

section \<open>Dispatcher\<close>

text \<open>
  The \<open>try\<close> block of \<open>executeCode\<close>: the \<open>switch\<close> compares the language string as it
  was passed, with \<open>===\<close>.
\<close>

definition executeCodeTry ::
  "world \<Rightarrow> string \<Rightarrow> string \<Rightarrow> sysState \<Rightarrow> (thrown + CompilerResult) \<times> sysState" where
  "executeCodeTry w code language s =
     (if language = ''c'' then compileAndRunC w code s
      else if language = ''cpp'' then compileAndRunCpp w code s
      else if language = ''python'' then runPython w code s
      else if language = ''javascript'' then runJavaScript w code s
      else if language = ''typescript'' then runTypeScript w code s
      else if language = ''java'' then compileAndRunJava w code s
      else if language = ''php'' then runPhp w code s
      else if language = ''go'' then compileAndRunGo w code s
      else (case simulateExecution w code language s of (r, s1) \<Rightarrow> (Inr r, s1)))"

text \<open>The \<open>catch\<close> block: \<open>error instanceof Error ? error.message : 'Unknown execution error'\<close>.\<close>

definition thrownMessage :: "thrown \<Rightarrow> string" where
  "thrownMessage e = (case e of ErrorObj m \<Rightarrow> m | NonError \<Rightarrow> ''Unknown execution error'')"

definition executeCode ::
  "world \<Rightarrow> string \<Rightarrow> string \<Rightarrow> sysState \<Rightarrow> CompilerResult \<times> sysState" where
  "executeCode w code language s =
     (let (startTime, s0) = now w s in
      case executeCodeTry w code language s0 of
        (Inr r, s1) \<Rightarrow> (r, s1)
      | (Inl e, s1) \<Rightarrow>
          (let (t, s2) = now w s1
           in (\<lparr>outputText = '''', error = Some (thrownMessage e),
                executionTime = t - startTime\<rparr>, s2)))"

section \<open>HTTP controller\<close>

text \<open>
  The request body as the controller reads it: each of the fields \<open>code\<close> and
  \<open>language\<close> (here \<open>codeField\<close> and \<open>languageField\<close>) is a string or absent. The
  response is the status and the JSON body, a failure with its error text or a success
  with the three fields of the result.
\<close>

record CompileRequest =
  codeField :: "string option"
  languageField :: "string option"

datatype responseBody =
  Failure "string option"
| Success string "string option" int

record httpResponse =
  status :: nat
  body :: responseBody

text \<open>\<open>!x\<close> for a field that is a string or absent: absent and the empty string are falsy.\<close>

definition falsy :: "string option \<Rightarrow> bool" where
  "falsy x = (case x of None \<Rightarrow> True | Some v \<Rightarrow> v = [])"

text \<open>
  The controller calls the registry, the syntax checker and \<open>executeCode\<close> with the
  language string as it arrived. None of them throws, so the controller's own
  \<open>catch\<close> (status 500) has no branch here. Both fields are
  present when \<open>the\<close> reads them: the first test has returned otherwise.
\<close>

definition compileCode :: "world \<Rightarrow> CompileRequest \<Rightarrow> sysState \<Rightarrow> httpResponse \<times> sysState" where
  "compileCode w req s =
     (if falsy (codeField req) \<or> falsy (languageField req) then
        (\<lparr>status = 400, body = Failure (Some ''Code and language are required'')\<rparr>, s)
      else
        let c = the (codeField req); l = the (languageField req) in
        if \<not> isSupportedLanguage l then
          (\<lparr>status = 400,
            body = Failure (Some (''Language '' @ [SQUOTE] @ l @ [SQUOTE] @ '' is not supported''))\<rparr>, s)
        else
          let syntaxCheck = checkSyntax c l in
          if hasError syntaxCheck then
            (\<lparr>status = 400, body = Failure (errorMessage syntaxCheck)\<rparr>, s)
          else
            (case executeCode w c l s of
               (result, s1) \<Rightarrow>
                 (\<lparr>status = 200,
                   body = Success (outputText result) (error result) (executionTime result)\<rparr>,
                  s1)))"

section \<open>Notions for stating what an execution does to the system\<close>

text \<open>
  \<open>madeWorkspace w affix s s'\<close>: from \<open>s\<close> to \<open>s'\<close> exactly the directory that
  \<open>temp.mkdirSync(affix)\<close> returns in \<open>s\<close> was added, as a workspace and as a tracked
  directory (nothing, when the call throws). \<open>timedFrom w n x\<close>: the outcome \<open>x\<close> of a
  backend entered at clock reading \<open>n\<close> took that reading and, when it returned a result,
  one more, and stamped the result with their difference.
\<close>

definition madeWorkspace :: "world \<Rightarrow> string \<Rightarrow> sysState \<Rightarrow> sysState \<Rightarrow> bool" where
  "madeWorkspace w affix s s' =
     (case mkdirResult w affix (length (tracked s)) of
        Inl e \<Rightarrow> workspaces s' = workspaces s \<and> tracked s' = tracked s
      | Inr dir \<Rightarrow> workspaces s' = dir # workspaces s \<and> tracked s' = dir # tracked s)"

definition timedFrom :: "world \<Rightarrow> nat \<Rightarrow> (thrown + CompilerResult) \<times> sysState \<Rightarrow> bool" where
  "timedFrom w n x =
     (case x of
        (Inr r, s') \<Rightarrow> executionTime r = clock w (Suc n) - clock w n \<and> clockReads s' = n + 2
      | (Inl e, s') \<Rightarrow> clockReads s' = Suc n)"

text \<open>
  \<open>backendWorkspace language code\<close>: the argument of \<open>temp.mkdirSync\<close> and the name of
  the source file in the backend that \<open>executeCode\<close> selects for \<open>language\<close>, when it
  selects one that makes a workspace. \<open>thrownOf x\<close>: what an outcome threw, if it threw.
\<close>

definition backendWorkspace :: "string \<Rightarrow> string \<Rightarrow> (string \<times> string) option" where
  "backendWorkspace language code =
     (if language = ''c'' then Some (''c-compiler'', ''main.c'')
      else if language = ''cpp'' then Some (''cpp-compiler'', ''main.cpp'')
      else if language = ''python'' then Some (''python-runner'', ''main.py'')
      else if language = ''javascript'' then Some (''javascript-runner'', ''main.js'')
      else if language = ''typescript'' then Some (''typescript-runner'', ''main.ts'')
      else if language = ''java'' then
        (case findPublicClass code of
           None \<Rightarrow> None
         | Some mainClassName \<Rightarrow> Some (''java-compiler'', mainClassName @ ''.java''))
      else if language = ''php'' then Some (''php-runner'', ''main.php'')
      else if language = ''go'' then Some (''go-compiler'', ''main.go'')
      else None)"

definition thrownOf :: "thrown + 'a \<Rightarrow> thrown option" where
  "thrownOf x = (case x of Inl e \<Rightarrow> Some e | Inr r \<Rightarrow> None)"

section \<open>Example inputs\<close>

definition unterminatedExample :: string where
  "unterminatedExample = ''const s = '' @ [DQUOTE] @ ''unterminated'' @ [NEWLINE] @ ''string''"

definition indent3 :: string where
  "indent3 = ''if x:'' @ [NEWLINE] @ ''   y''"

definition indent37 :: string where
  "indent37 = ''if x:'' @ [NEWLINE] @ ''   y'' @ [NEWLINE] @ ''       z''"

definition indent44 :: string where
  "indent44 = ''if x:'' @ [NEWLINE] @ ''    y'' @ [NEWLINE] @ ''    z''"

definition helloExample :: string where
  "helloExample = ''print('' @ [DQUOTE] @ ''hello'' @ [DQUOTE] @ '')'' @ [NEWLINE] @ ''print(x)''"

text \<open>
  A world in which the clock ticks once per reading, every directory and file can be
  made, and every command fails with the diagnostic \<open>boom\<close>; and one in which
  \<open>temp.mkdirSync\<close> throws.
\<close>

definition failWorld :: world where
  "failWorld =
     \<lparr>clock = (\<lambda>n. int n), mkdirResult = (\<lambda>affix n. Inr (''/tmp/'' @ affix)),
      writeFileResult = (\<lambda>p c. None), execResult = (\<lambda>cmd. Rejected None (Some ''boom''))\<rparr>"

definition fullDiskWorld :: world where
  "fullDiskWorld =
     \<lparr>clock = (\<lambda>n. int n), mkdirResult = (\<lambda>affix n. Inl (ErrorObj ''ENOSPC'')),
      writeFileResult = (\<lambda>p c. None), execResult = (\<lambda>cmd. Resolved '''' '''')\<rparr>"

definition initState :: sysState where
  "initState = \<lparr>clockReads = 0, workspaces = [], tracked = [], files = [], spawned = []\<rparr>"

text \<open>A world whose clock is set back by one millisecond between any two readings.\<close>

definition backClockWorld :: world where
  "backClockWorld =
     \<lparr>clock = (\<lambda>n. 1000 - int n), mkdirResult = (\<lambda>affix n. Inr (''/tmp/'' @ affix)),
      writeFileResult = (\<lambda>p c. None), execResult = (\<lambda>cmd. Resolved ''hi'' '''')\<rparr>"

definition printItsExample :: string where
  "printItsExample = ''print('' @ [DQUOTE] @ ''it's'' @ [DQUOTE] @ '')''"

definition printCallExample :: string where
  "printCallExample = ''print(str(x))''"

text \<open>
  C programs whose braces balance only once a string literal, a character literal, a
  line comment or a block comment has been taken out; one where the order of the
  substitutions matters; one with an escaped quote inside a literal; and one that is
  unbalanced although a closing brace stands in a comment.
\<close>

definition braceInString :: string where
  "braceInString = ''int main(){ puts('' @ [DQUOTE] @ ''{'' @ [DQUOTE] @ ''); }''"

definition braceInChar :: string where
  "braceInChar = ''int main(){ char c = '{'; }''"

definition braceInLineComment :: string where
  "braceInLineComment = ''int main(){ // {'' @ [NEWLINE] @ ''}''"

definition braceInBlockComment :: string where
  "braceInBlockComment = ''int main(){ /* { '' @ [NEWLINE] @ '' { */ }''"

definition slashesInString :: string where
  "slashesInString = ''int main(){ puts('' @ [DQUOTE] @ ''//'' @ [DQUOTE] @ ''); }''"

definition escapedQuoteInString :: string where
  "escapedQuoteInString =
     ''int main(){ puts('' @ [DQUOTE, BACKSLASH, DQUOTE] @ ''{'' @ [DQUOTE] @ ''); }''"

definition closingInComment :: string where
  "closingInComment = ''int main(){ if (x) { // }'' @ [NEWLINE] @ ''}''"

text \<open>
  JavaScript texts: a closed string holding a brace, a string with an escaped quote, and
  a template literal opened on the second line and never closed.
\<close>

definition closedStringExample :: string where
  "closedStringExample = ''const s = '' @ [DQUOTE] @ ''a{b'' @ [DQUOTE] @ '';''"

definition escapedQuoteExample :: string where
  "escapedQuoteExample = ''const s = 'it'' @ [BACKSLASH] @ '''s' + x;''"

definition openTemplateExample :: string where
  "openTemplateExample = ''let t = 1;'' @ [NEWLINE] @ ''let u = '' @ [BACKTICK] @ ''abc''"

section \<open>Facts about the string primitives\<close>

lemma isWhiteSpace_code:
  "isWhiteSpace c = (of_char c \<in> {9, 10, 11, 12, 13, 32, 160 :: nat})"
proof -
  have h: "\<And>d. (c = d) = ((of_char c :: nat) = of_char d)"
    by simp
  show ?thesis
    unfolding isWhiteSpace_def by (simp only: h) (simp del: of_char_eq_iff)
qed

lemma toLowerChar_white [simp]: "isWhiteSpace (toLowerChar c) = isWhiteSpace c"
proof (cases "(65 \<le> (of_char c :: nat) \<and> (of_char c :: nat) \<le> 90) \<or>
    (192 \<le> (of_char c :: nat) \<and> (of_char c :: nat) \<le> 222 \<and> (of_char c :: nat) \<noteq> 215)")
  case True
  define n where "n = (of_char c :: nat)"
  from True have r: "(65 \<le> n \<and> n \<le> 90) \<or> (192 \<le> n \<and> n \<le> 222 \<and> n \<noteq> 215)"
    by (simp add: n_def)
  then have m: "(n + 32) mod 256 = n + 32"
    by auto
  have "toLowerChar c = char_of (n + 32)"
    using True by (simp add: toLowerChar_def n_def)
  then have "isWhiteSpace (toLowerChar c) = (n + 32 \<in> {9, 10, 11, 12, 13, 32, 160 :: nat})"
    by (simp only: isWhiteSpace_code of_char_of m)
  also have "\<dots> = False"
    using r by auto
  also have "False = isWhiteSpace c"
    using r unfolding isWhiteSpace_code n_def [symmetric] by auto
  finally show ?thesis .
next
  case False
  show ?thesis
    unfolding toLowerChar_def Let_def by (simp only: False if_False)
qed

lemma trim_append_white:
  assumes "list_all isWhiteSpace pre" "list_all isWhiteSpace post"
    and "v \<noteq> []" "\<not> isWhiteSpace (hd v)" "\<not> isWhiteSpace (last v)"
  shows "trim (pre @ v @ post) = v"
proof -
  have a: "dropWhile isWhiteSpace (pre @ v @ post) = v @ post"
    using assms(1,3,4) by (cases v) (auto simp: dropWhile_append list_all_iff)
  have b: "dropWhile isWhiteSpace (rev post @ rev v) = rev v"
    using assms(2,3,5)
    by (cases v rule: rev_cases) (auto simp: dropWhile_append list_all_iff)
  show ?thesis
    by (simp add: trim_def trimStart_def trimEnd_def a b)
qed

lemma trim_decompose:
  "\<exists>a b. s = a @ trim s @ b \<and> list_all isWhiteSpace a \<and> list_all isWhiteSpace b"
proof -
  define a where "a = takeWhile isWhiteSpace s"
  define t where "t = dropWhile isWhiteSpace s"
  define b where "b = rev (takeWhile isWhiteSpace (rev t))"
  have s: "s = a @ t"
    by (simp add: a_def t_def)
  have "rev (rev t) = rev (takeWhile isWhiteSpace (rev t) @ dropWhile isWhiteSpace (rev t))"
    by (simp only: takeWhile_dropWhile_id)
  then have "t = rev (dropWhile isWhiteSpace (rev t)) @ rev (takeWhile isWhiteSpace (rev t))"
    by (simp only: rev_rev_ident rev_append)
  then have t: "t = trim s @ b"
    by (simp only: trim_def trimStart_def trimEnd_def b_def t_def)
  have wa: "list_all isWhiteSpace a"
    unfolding a_def list_all_iff by (auto dest: set_takeWhileD)
  have wb: "list_all isWhiteSpace b"
    unfolding b_def list_all_iff by (auto dest: set_takeWhileD)
  from s t wa wb show ?thesis
    by auto
qed

lemma map_eq_append3:
  assumes "map f xs = a @ m @ b"
  shows "\<exists>pre v post. xs = pre @ v @ post \<and> map f pre = a \<and> map f v = m \<and> map f post = b"
proof -
  from assms have "\<exists>us vs. xs = us @ vs \<and> a = map f us \<and> m @ b = map f vs"
    by (simp only: map_eq_append_conv)
  then obtain pre r where 1: "xs = pre @ r" "a = map f pre" "m @ b = map f r"
    by blast
  from 1(3) have "\<exists>us vs. r = us @ vs \<and> m = map f us \<and> b = map f vs"
    by (simp only: append_eq_map_conv)
  then obtain v post where 2: "r = v @ post" "m = map f v" "b = map f post"
    by blast
  have "xs = pre @ v @ post \<and> map f pre = a \<and> map f v = m \<and> map f post = b"
    by (simp only: 1(1,2) 2)
  then show ?thesis
    by blast
qed

lemma list_all_white_lower:
  "list_all isWhiteSpace (map toLowerChar xs) = list_all isWhiteSpace xs"
  by (induction xs) auto

lemma supported_ends:
  "m \<in> set SUPPORTED_LANGUAGES \<Longrightarrow> m \<noteq> [] \<and> \<not> isWhiteSpace (hd m) \<and> \<not> isWhiteSpace (last m)"
  by (auto simp: SUPPORTED_LANGUAGES_def isWhiteSpace_def)

section \<open>Claims about the language registry\<close>

text \<open>
  C5. \<open>isSupportedLanguage raw\<close> is true exactly when lowercasing and trimming \<open>raw\<close>
  yields one of the ten identifiers: it is true for every case and whitespace variant
  of an identifier (whitespace before, any spelling whose lowercase form is the
  identifier, whitespace after), false for every other string, false for the empty
  string. The function is total, so it never throws.
\<close>

theorem isSupportedLanguage_exact:
  "isSupportedLanguage raw =
     (trim (toLowerCase raw) \<in>
        {''c'', ''cpp'', ''python'', ''javascript'', ''typescript'', ''java'', ''php'', ''go'',
         ''html'', ''css''})
   \<and> isSupportedLanguage raw =
     (\<exists>pre v post. raw = pre @ v @ post \<and> list_all isWhiteSpace pre \<and>
        list_all isWhiteSpace post \<and> toLowerCase v \<in> set SUPPORTED_LANGUAGES)
   \<and> isSupportedLanguage '''' = False"
proof (intro conjI)
  show "isSupportedLanguage raw =
     (trim (toLowerCase raw) \<in>
        {''c'', ''cpp'', ''python'', ''javascript'', ''typescript'', ''java'', ''php'', ''go'',
         ''html'', ''css''})"
    by (simp add: isSupportedLanguage_def normalizeLanguageId_def SUPPORTED_LANGUAGES_def)
next
  show "isSupportedLanguage raw =
     (\<exists>pre v post. raw = pre @ v @ post \<and> list_all isWhiteSpace pre \<and>
        list_all isWhiteSpace post \<and> toLowerCase v \<in> set SUPPORTED_LANGUAGES)"
  proof
    assume "isSupportedLanguage raw"
    define t where "t = trim (toLowerCase raw)"
    have m: "t \<in> set SUPPORTED_LANGUAGES"
      using \<open>isSupportedLanguage raw\<close>
      by (simp add: isSupportedLanguage_def normalizeLanguageId_def t_def)
    obtain a b where ab: "toLowerCase raw = a @ t @ b"
      "list_all isWhiteSpace a" "list_all isWhiteSpace b"
      unfolding t_def using trim_decompose [of "toLowerCase raw"] by blast
    have "map toLowerChar raw = a @ t @ b"
      using ab(1) by (simp only: toLowerCase_def)
    from map_eq_append3 [OF this]
    obtain pre v post where p: "raw = pre @ v @ post" "map toLowerChar pre = a"
      "map toLowerChar v = t" "map toLowerChar post = b"
      by blast
    have w: "list_all isWhiteSpace pre" "list_all isWhiteSpace post"
      using ab(2,3) p(2,4) list_all_white_lower by auto
    have "toLowerCase v \<in> set SUPPORTED_LANGUAGES"
      using m p(3) by (simp only: toLowerCase_def)
    with p(1) w show "\<exists>pre v post. raw = pre @ v @ post \<and> list_all isWhiteSpace pre \<and>
        list_all isWhiteSpace post \<and> toLowerCase v \<in> set SUPPORTED_LANGUAGES"
      by blast
  next
    assume "\<exists>pre v post. raw = pre @ v @ post \<and> list_all isWhiteSpace pre \<and>
        list_all isWhiteSpace post \<and> toLowerCase v \<in> set SUPPORTED_LANGUAGES"
    then obtain pre v post where p: "raw = pre @ v @ post" "list_all isWhiteSpace pre"
      "list_all isWhiteSpace post" "toLowerCase v \<in> set SUPPORTED_LANGUAGES"
      by blast
    have "trim (toLowerCase pre @ toLowerCase v @ toLowerCase post) = toLowerCase v"
      using p(2,3) supported_ends [OF p(4)]
      by (intro trim_append_white) (simp_all add: toLowerCase_def list_all_white_lower)
    then have "trim (toLowerCase raw) = toLowerCase v"
      by (simp add: p(1) toLowerCase_def)
    with p(4) show "isSupportedLanguage raw"
      by (simp add: isSupportedLanguage_def normalizeLanguageId_def)
  qed
next
  show "isSupportedLanguage '''' = False"
    by (simp add: isSupportedLanguage_def normalizeLanguageId_def SUPPORTED_LANGUAGES_def
        trim_def trimStart_def trimEnd_def toLowerCase_def)
qed

section \<open>Facts about the syntax checker\<close>

lemma startsWith_iff: "startsWith s p = (\<exists>b. s = p @ b)"
  by (induction s p rule: startsWith.induct) auto

lemma includes_str_iff: "includes_str s sub = (\<exists>a b. s = a @ sub @ b)"
proof (induction s)
  case Nil
  then show ?case by auto
next
  case (Cons c cs)
  have "(\<exists>a b. c # cs = a @ sub @ b) = ((\<exists>b. c # cs = sub @ b) \<or> (\<exists>a b. cs = a @ sub @ b))"
  proof
    assume "\<exists>a b. c # cs = a @ sub @ b"
    then obtain a b where ab: "c # cs = a @ sub @ b" by blast
    show "(\<exists>b. c # cs = sub @ b) \<or> (\<exists>a b. cs = a @ sub @ b)"
    proof (cases a)
      case Nil
      with ab show ?thesis by auto
    next
      case (Cons x a')
      with ab have "cs = a' @ sub @ b" by simp
      then show ?thesis by blast
    qed
  next
    assume "(\<exists>b. c # cs = sub @ b) \<or> (\<exists>a b. cs = a @ sub @ b)"
    then show "\<exists>a b. c # cs = a @ sub @ b"
    proof
      assume "\<exists>b. c # cs = sub @ b"
      then obtain b where "c # cs = [] @ sub @ b" by auto
      then show ?thesis by blast
    next
      assume "\<exists>a b. cs = a @ sub @ b"
      then obtain a b where "c # cs = (c # a) @ sub @ b" by auto
      then show ?thesis by blast
    qed
  qed
  with Cons show ?case
    by (simp add: startsWith_iff)
qed

lemma scanned_snoc: "scanned (code @ [c]) = scanStep (scanned code) c"
  by (simp add: scanned_def scanFrom_def)

lemma currentLine_scanStep:
  "currentLine (scanStep s c) = currentLine s + (if c = NEWLINE then 1 else 0)"
  by (simp add: scanStep_def Let_def)

lemma currentLine_scanned: "currentLine (scanned code) = 1 + countChar NEWLINE code"
proof (induction code rule: rev_induct)
  case Nil
  then show ?case by (simp add: scanned_def scanFrom_def scanInit_def countChar_def)
next
  case (snoc c code)
  then show ?case
    by (simp add: scanned_snoc currentLine_scanStep countChar_def)
qed

lemma escape_step:
  "escapeNext (scanStep s c) = (\<not> escapeNext s \<and> c = BACKSLASH)"
  by (simp add: scanStep_def Let_def)

lemma escaped_char_skipped:
  "escapeNext s \<Longrightarrow>
   scanStep s c = s\<lparr>escapeNext := False,
     currentLine := currentLine s + (if c = NEWLINE then 1 else 0)\<rparr>"
  by (simp add: scanStep_def Let_def)

lemma scanFrom_Nil [simp]: "scanFrom s [] = s"
  by (simp add: scanFrom_def)

lemma scanFrom_Cons [simp]: "scanFrom s (c # cs) = scanFrom (scanStep s c) cs"
  by (simp add: scanFrom_def)

lemma scanFrom_append: "scanFrom s (a @ b) = scanFrom (scanFrom s a) b"
  by (simp add: scanFrom_def)

lemma bump: "(if c = NEWLINE then 1 else 0) = countChar NEWLINE [c]"
  by (simp add: countChar_def)

lemma countChar_Cons: "countChar x (c # cs) = (if c = x then 1 else 0) + countChar x cs"
  by (simp add: countChar_def)

lemma countChar_append: "countChar x (a @ b) = countChar x a + countChar x b"
  by (simp add: countChar_def)

lemma step_escape:
  "\<not> escapeNext s \<Longrightarrow>
   scanStep (scanStep s BACKSLASH) d =
     s\<lparr>currentLine := currentLine s + (if d = NEWLINE then 1 else 0)\<rparr>"
  by (simp add: scanStep_def Let_def)

lemma step_plain_outside:
  "outsideState s \<Longrightarrow> \<not> isStringQuote c \<Longrightarrow> c \<noteq> BACKSLASH \<Longrightarrow>
   scanStep s c = s\<lparr>currentLine := currentLine s + (if c = NEWLINE then 1 else 0)\<rparr>"
  by (auto simp: scanStep_def Let_def outsideState_def inString_def isStringQuote_def)

lemma step_open:
  "outsideState s \<Longrightarrow> isStringQuote q \<Longrightarrow>
   insideState (scanStep s q) q (currentLine s) \<and> currentLine (scanStep s q) = currentLine s"
  by (auto simp: scanStep_def Let_def outsideState_def inString_def isStringQuote_def
      insideState_def flagsFor_def quoteName_def)

lemma step_close:
  "insideState s q n \<Longrightarrow> isStringQuote q \<Longrightarrow>
   outsideState (scanStep s q) \<and> currentLine (scanStep s q) = currentLine s"
  by (auto simp: scanStep_def Let_def outsideState_def inString_def isStringQuote_def
      insideState_def flagsFor_def quoteName_def)

lemma step_plain_inside:
  "insideState s q n \<Longrightarrow> c \<noteq> q \<Longrightarrow> c \<noteq> BACKSLASH \<Longrightarrow>
   insideState (scanStep s c) q n \<and>
   currentLine (scanStep s c) = currentLine s + (if c = NEWLINE then 1 else 0)"
  by (auto simp: scanStep_def Let_def inString_def insideState_def flagsFor_def quoteName_def)

lemma outsideState_line [simp]: "outsideState (s\<lparr>currentLine := n\<rparr>) = outsideState s"
  by (simp add: outsideState_def inString_def)

lemma insideState_line [simp]: "insideState (s\<lparr>currentLine := k\<rparr>) q n = insideState s q n"
  by (simp add: insideState_def flagsFor_def)

lemma scan_body:
  "scanBody q m \<Longrightarrow> insideState s q n \<Longrightarrow>
   insideState (scanFrom s m) q n \<and>
   currentLine (scanFrom s m) = currentLine s + countChar NEWLINE m"
proof (induction arbitrary: s rule: scanBody.induct)
  case Empty
  then show ?case by (simp add: countChar_def)
next
  case (Plain c m)
  from step_plain_inside [OF Plain.prems Plain.hyps(1,2)]
  have i: "insideState (scanStep s c) q n"
    and l: "currentLine (scanStep s c) = currentLine s + (if c = NEWLINE then 1 else 0)"
    by simp_all
  from Plain.IH [OF i] l show ?case
    by (simp add: countChar_Cons)
next
  case (Escaped m d)
  from Escaped.prems have e: "\<not> escapeNext s"
    by (simp add: insideState_def)
  have i: "insideState (scanStep (scanStep s BACKSLASH) d) q n"
    using Escaped.prems by (simp add: step_escape [OF e])
  have l: "currentLine (scanStep (scanStep s BACKSLASH) d) =
      currentLine s + (if d = NEWLINE then 1 else 0)"
    by (simp add: step_escape [OF e])
  from Escaped.IH [OF i] l show ?case
    by (simp add: countChar_Cons)
qed

lemma scan_outside:
  "outsideText t \<Longrightarrow> outsideState s \<Longrightarrow>
   outsideState (scanFrom s t) \<and>
   currentLine (scanFrom s t) = currentLine s + countChar NEWLINE t"
proof (induction arbitrary: s rule: outsideText.induct)
  case Empty
  then show ?case by (simp add: countChar_def)
next
  case (Plain c t)
  have st: "scanStep s c = s\<lparr>currentLine := currentLine s + (if c = NEWLINE then 1 else 0)\<rparr>"
    using Plain.prems Plain.hyps(1,2) by (rule step_plain_outside)
  have o: "outsideState (scanStep s c)"
    using Plain.prems by (simp add: st)
  from Plain.IH [OF o] show ?case
    by (simp add: st countChar_Cons)
next
  case (Escaped t d)
  from Escaped.prems have e: "\<not> escapeNext s"
    by (simp add: outsideState_def)
  have o: "outsideState (scanStep (scanStep s BACKSLASH) d)"
    using Escaped.prems by (simp add: step_escape [OF e])
  from Escaped.IH [OF o] show ?case
    by (simp add: step_escape [OF e] countChar_Cons)
next
  case (Literal q m t)
  from step_open [OF Literal.prems Literal.hyps(1)]
  have i: "insideState (scanStep s q) q (currentLine s)"
    and l1: "currentLine (scanStep s q) = currentLine s"
    by simp_all
  from scan_body [OF Literal.hyps(2) i]
  have i2: "insideState (scanFrom (scanStep s q) m) q (currentLine s)"
    and l2: "currentLine (scanFrom (scanStep s q) m) = currentLine s + countChar NEWLINE m"
    using l1 by simp_all
  from step_close [OF i2 Literal.hyps(1)]
  have o: "outsideState (scanStep (scanFrom (scanStep s q) m) q)"
    and l3: "currentLine (scanStep (scanFrom (scanStep s q) m) q) =
        currentLine s + countChar NEWLINE m"
    using l2 by simp_all
  have qn: "q \<noteq> NEWLINE"
    using Literal.hyps(1) by (auto simp: isStringQuote_def)
  from Literal.IH [OF o] l3 qn show ?case
    by (simp add: scanFrom_append countChar_Cons countChar_append)
qed

lemma outsideState_init: "outsideState scanInit" "currentLine scanInit = 1"
  by (simp_all add: outsideState_def inString_def scanInit_def)

lemma scan_tail_outside:
  "outsideState s \<Longrightarrow> pendingEscape tail \<Longrightarrow> \<not> inString (scanFrom s tail)"
  by (auto simp: pendingEscape_def outsideState_def inString_def scanStep_def Let_def)

lemma scan_tail_inside:
  "insideState s q n \<Longrightarrow> pendingEscape tail \<Longrightarrow>
   inString (scanFrom s tail) \<and> stringType (scanFrom s tail) = quoteName q \<and>
   stringStartLine (scanFrom s tail) = n"
  by (auto simp: pendingEscape_def insideState_def inString_def flagsFor_def scanStep_def Let_def)

lemma scanned_closed:
  assumes "outsideText pre" "pendingEscape tail"
  shows "\<not> inString (scanned (pre @ tail))"
proof -
  from scan_outside [OF assms(1) outsideState_init(1)]
  have "outsideState (scanFrom scanInit pre)"
    by simp
  from scan_tail_outside [OF this assms(2)] show ?thesis
    by (simp add: scanned_def scanFrom_append)
qed

lemma scanned_open:
  assumes "outsideText pre" "isStringQuote q" "scanBody q m" "pendingEscape tail"
  shows "inString (scanned (pre @ q # m @ tail)) \<and>
    stringType (scanned (pre @ q # m @ tail)) = quoteName q \<and>
    stringStartLine (scanned (pre @ q # m @ tail)) = 1 + countChar NEWLINE pre"
proof -
  define s1 where "s1 = scanFrom scanInit pre"
  from scan_outside [OF assms(1) outsideState_init(1)]
  have o: "outsideState s1" and l: "currentLine s1 = 1 + countChar NEWLINE pre"
    by (simp_all add: s1_def outsideState_init(2))
  from step_open [OF o assms(2)] l
  have i: "insideState (scanStep s1 q) q (1 + countChar NEWLINE pre)"
    by simp
  from scan_body [OF assms(3) i]
  have "insideState (scanFrom (scanStep s1 q) m) q (1 + countChar NEWLINE pre)"
    by simp
  from scan_tail_inside [OF this assms(4)] show ?thesis
    by (simp add: scanned_def scanFrom_append s1_def)
qed

lemma scanBody_append: "scanBody q a \<Longrightarrow> scanBody q b \<Longrightarrow> scanBody q (a @ b)"
  by (induction rule: scanBody.induct) (auto intro: scanBody.intros)

lemma outsideText_append: "outsideText a \<Longrightarrow> outsideText b \<Longrightarrow> outsideText (a @ b)"
proof (induction rule: outsideText.induct)
  case Empty
  then show ?case by simp
next
  case (Plain c t)
  then show ?case by (auto intro: outsideText.Plain)
next
  case (Escaped t d)
  then show ?case by (auto intro: outsideText.Escaped)
next
  case (Literal q m t)
  then have "outsideText (q # m @ q # (t @ b))"
    by (intro outsideText.Literal) simp_all
  then show ?case by simp
qed

lemma closedShapeI:
  "code = pre @ tail \<Longrightarrow> outsideText pre \<Longrightarrow> pendingEscape tail \<Longrightarrow> closedShape code"
  unfolding closedShape_def by (rule exI [of _ pre], rule exI [of _ tail]) simp

lemma openShapeI:
  "code = pre @ q # m @ tail \<Longrightarrow> outsideText pre \<Longrightarrow> isStringQuote q \<Longrightarrow> scanBody q m \<Longrightarrow>
   pendingEscape tail \<Longrightarrow> openShape code pre q m"
  unfolding openShape_def by (rule exI [of _ tail]) simp

lemma pendingEscape_simps: "pendingEscape []" "pendingEscape [BACKSLASH]"
  by (simp_all add: pendingEscape_def)

lemma text_shape: "closedShape code \<or> (\<exists>pre q m. openShape code pre q m)"
proof (induction code rule: rev_induct)
  case Nil
  have "closedShape []"
    by (rule closedShapeI [of _ "[]" "[]"]) (simp_all add: outsideText.Empty pendingEscape_simps)
  then show ?case ..
next
  case (snoc c code)
  from snoc show ?case
  proof
    assume "closedShape code"
    then obtain pre tail where p: "code = pre @ tail" "outsideText pre" "pendingEscape tail"
      unfolding closedShape_def by (elim exE conjE)
    show ?thesis
    proof (cases "tail = []")
      case True
      show ?thesis
      proof (cases "c = BACKSLASH")
        case b: True
        have "closedShape (code @ [c])"
          using p True b
          by (intro closedShapeI [of _ pre "[BACKSLASH]"]) (simp_all add: pendingEscape_simps)
        then show ?thesis ..
      next
        case nb: False
        show ?thesis
        proof (cases "isStringQuote c")
          case q: True
          have "openShape (code @ [c]) pre c []"
            using p True q
            by (intro openShapeI [of _ pre c "[]" "[]"])
              (simp_all add: pendingEscape_simps scanBody.Empty)
          then show ?thesis by (intro disjI2 exI)
        next
          case False
          have "outsideText [c]"
            using False nb by (intro outsideText.Plain outsideText.Empty)
          with p(2) have "outsideText (pre @ [c])"
            by (rule outsideText_append)
          then have "closedShape (code @ [c])"
            using p True
            by (intro closedShapeI [of _ "pre @ [c]" "[]"]) (simp_all add: pendingEscape_simps)
          then show ?thesis ..
        qed
      qed
    next
      case False
      with p(3) have t: "tail = [BACKSLASH]"
        by (simp add: pendingEscape_def)
      have "outsideText [BACKSLASH, c]"
        by (intro outsideText.Escaped outsideText.Empty)
      with p(2) have "outsideText (pre @ [BACKSLASH, c])"
        by (rule outsideText_append)
      then have "closedShape (code @ [c])"
        using p t
        by (intro closedShapeI [of _ "pre @ [BACKSLASH, c]" "[]"])
          (simp_all add: pendingEscape_simps)
      then show ?thesis ..
    qed
  next
    assume "\<exists>pre q m. openShape code pre q m"
    then obtain pre q m tail where p: "code = pre @ q # m @ tail" "outsideText pre"
      "isStringQuote q" "scanBody q m" "pendingEscape tail"
      unfolding openShape_def by (elim exE conjE)
    show ?thesis
    proof (cases "tail = []")
      case True
      show ?thesis
      proof (cases "c = BACKSLASH")
        case b: True
        have "openShape (code @ [c]) pre q m"
          using p True b
          by (intro openShapeI [of _ pre q m "[BACKSLASH]"]) (simp_all add: pendingEscape_simps)
        then show ?thesis by (intro disjI2 exI)
      next
        case nb: False
        show ?thesis
        proof (cases "c = q")
          case q: True
          have "outsideText (q # m @ q # [])"
            using p(3,4) by (intro outsideText.Literal outsideText.Empty)
          with p(2) have "outsideText (pre @ q # m @ [q])"
            by (rule outsideText_append)
          then have "closedShape (code @ [c])"
            using p True q
            by (intro closedShapeI [of _ "pre @ q # m @ [q]" "[]"])
              (simp_all add: pendingEscape_simps)
          then show ?thesis ..
        next
          case False
          have "scanBody q [c]"
            using False nb by (intro scanBody.Plain scanBody.Empty)
          with p(4) have "scanBody q (m @ [c])"
            by (rule scanBody_append)
          then have "openShape (code @ [c]) pre q (m @ [c])"
            using p True
            by (intro openShapeI [of _ pre q "m @ [c]" "[]"]) (simp_all add: pendingEscape_simps)
          then show ?thesis by (intro disjI2 exI)
        qed
      qed
    next
      case False
      with p(5) have t: "tail = [BACKSLASH]"
        by (simp add: pendingEscape_def)
      have "scanBody q [BACKSLASH, c]"
        by (intro scanBody.Escaped scanBody.Empty)
      with p(4) have "scanBody q (m @ [BACKSLASH, c])"
        by (rule scanBody_append)
      then have "openShape (code @ [c]) pre q (m @ [BACKSLASH, c])"
        using p t
        by (intro openShapeI [of _ pre q "m @ [BACKSLASH, c]" "[]"])
          (simp_all add: pendingEscape_simps)
      then show ?thesis by (intro disjI2 exI)
    qed
  qed
qed

lemma js_examples:
  "checkSyntax closedStringExample ''javascript'' = \<lparr>hasError = False, errorMessage = None\<rparr>"
  "checkSyntax escapedQuoteExample ''typescript'' = \<lparr>hasError = False, errorMessage = None\<rparr>"
  "checkSyntax openTemplateExample ''javascript'' =
     \<lparr>hasError = True,
      errorMessage = Some ''SyntaxError: unterminated template literal starting at line 2''\<rparr>"
  "checkSyntax unterminatedExample ''javascript'' =
     \<lparr>hasError = True,
      errorMessage = Some ''SyntaxError: unterminated double quote starting at line 1''\<rparr>"
  by code_simp+

lemma outsideText_plain: "\<forall>c \<in> set t. \<not> isStringQuote c \<and> c \<noteq> BACKSLASH \<Longrightarrow> outsideText t"
  by (induction t) (auto intro: outsideText.intros)

lemma scanBody_plain: "\<forall>c \<in> set m. c \<noteq> q \<and> c \<noteq> BACKSLASH \<Longrightarrow> scanBody q m"
  by (induction m) (auto intro: scanBody.intros)

lemma unterminatedExample_shape:
  "openShape unterminatedExample ''const s = '' DQUOTE (''unterminated'' @ [NEWLINE] @ ''string'')"
proof (rule openShapeI [where tail = "[]"])
  show "unterminatedExample =
      ''const s = '' @ DQUOTE # (''unterminated'' @ [NEWLINE] @ ''string'') @ []"
    by (simp add: unterminatedExample_def)
  show "outsideText ''const s = ''"
    by (rule outsideText_plain) (simp add: isStringQuote_def)
  show "isStringQuote DQUOTE"
    by (simp add: isStringQuote_def)
  show "scanBody DQUOTE (''unterminated'' @ [NEWLINE] @ ''string'')"
    by (rule scanBody_plain) simp
  show "pendingEscape []"
    by (rule pendingEscape_simps)
qed

lemma escapedQuoteExample_shape: "closedShape escapedQuoteExample"
proof (rule closedShapeI [where tail = "[]"])
  have b: "scanBody SQUOTE (''it'' @ [BACKSLASH, SQUOTE] @ ''s'')"
    by (intro scanBody_append scanBody.Escaped scanBody.Empty scanBody_plain) simp_all
  have l: "outsideText (SQUOTE # (''it'' @ [BACKSLASH, SQUOTE] @ ''s'') @ SQUOTE # '' + x;'')"
    by (rule outsideText.Literal [OF _ b outsideText_plain]) (simp_all add: isStringQuote_def)
  show "outsideText (''const s = '' @ SQUOTE # (''it'' @ [BACKSLASH, SQUOTE] @ ''s'') @
      SQUOTE # '' + x;'')"
    by (rule outsideText_append [OF outsideText_plain l]) (simp add: isStringQuote_def)
  show "escapedQuoteExample =
      (''const s = '' @ SQUOTE # (''it'' @ [BACKSLASH, SQUOTE] @ ''s'') @ SQUOTE # '' + x;'') @ []"
    by (simp add: escapedQuoteExample_def)
  show "pendingEscape []"
    by (rule pendingEscape_simps)
qed

lemma js_examples_pre:
  "trim unterminatedExample \<noteq> []"
  "countChar CHR ''{'' (codeWithoutStrings unterminatedExample)
     \<le> countChar CHR ''}'' (codeWithoutStrings unterminatedExample)"
  "trim escapedQuoteExample \<noteq> []"
  "countChar CHR ''{'' (codeWithoutStrings escapedQuoteExample)
     \<le> countChar CHR ''}'' (codeWithoutStrings escapedQuoteExample)"
  "''SyntaxError: unterminated '' @ quoteName DQUOTE @ '' starting at line '' @
     showNat (1 + countChar NEWLINE ''const s = '') =
   ''SyntaxError: unterminated double quote starting at line 1''"
  by code_simp+

lemma hasBadPair_simps:
  "hasBadPair [] = False" "hasBadPair [a] = False"
  "hasBadPair (a # b # xs) = (badIndentStep a b \<or> hasBadPair (b # xs))"
proof -
  show "hasBadPair [] = False" "hasBadPair [a] = False"
    by (simp_all add: hasBadPair_def)
  show "hasBadPair (a # b # xs) = (badIndentStep a b \<or> hasBadPair (b # xs))"
  proof
    assume "hasBadPair (a # b # xs)"
    then obtain k where k: "Suc k < length (a # b # xs)"
      "badIndentStep ((a # b # xs) ! k) ((a # b # xs) ! Suc k)"
      unfolding hasBadPair_def by blast
    show "badIndentStep a b \<or> hasBadPair (b # xs)"
    proof (cases k)
      case 0
      with k show ?thesis by simp
    next
      case (Suc j)
      with k have "Suc j < length (b # xs) \<and> badIndentStep ((b # xs) ! j) ((b # xs) ! Suc j)"
        by simp
      then show ?thesis unfolding hasBadPair_def by blast
    qed
  next
    assume "badIndentStep a b \<or> hasBadPair (b # xs)"
    then show "hasBadPair (a # b # xs)"
    proof
      assume "badIndentStep a b"
      then have "Suc 0 < length (a # b # xs) \<and>
          badIndentStep ((a # b # xs) ! 0) ((a # b # xs) ! Suc 0)"
        by simp
      then show ?thesis unfolding hasBadPair_def by blast
    next
      assume "hasBadPair (b # xs)"
      then obtain j where "Suc j < length (b # xs)"
        "badIndentStep ((b # xs) ! j) ((b # xs) ! Suc j)"
        unfolding hasBadPair_def by blast
      then have "Suc (Suc j) < length (a # b # xs) \<and>
          badIndentStep ((a # b # xs) ! Suc j) ((a # b # xs) ! Suc (Suc j))"
        by simp
      then show ?thesis unfolding hasBadPair_def by blast
    qed
  qed
qed

lemma indentLoop_pairs:
  "indentLoop p ls = hasBadPair ((if p > 0 then [p] else []) @ positiveIndents ls)"
proof (induction ls arbitrary: p)
  case Nil
  then show ?case
    by (simp add: positiveIndents_def hasBadPair_simps)
next
  case (Cons line rest)
  show ?case
  proof (cases "startsWith (trim line) ''#''")
    case True
    then have "positiveIndents (line # rest) = positiveIndents rest"
      by (simp add: positiveIndents_def)
    with True Cons show ?thesis by simp
  next
    case False
    define n where "n = indentOf line"
    have pi: "positiveIndents (line # rest) =
        (if n > 0 then n # positiveIndents rest else positiveIndents rest)"
      using False by (simp add: positiveIndents_def n_def)
    have n: "length line - length (trimStart line) = n"
      by (simp add: n_def indentOf_def)
    show ?thesis
    proof (cases "n > 0")
      case n0: False
      then show ?thesis
        using False pi n Cons [of p] by (simp add: Let_def)
    next
      case n1: True
      show ?thesis
      proof (cases "p > 0")
        case False
        then show ?thesis
          using \<open>\<not> startsWith (trim line) ''#''\<close> pi n n1 Cons [of n]
          by (simp add: Let_def)
      next
        case True
        then show ?thesis
          using \<open>\<not> startsWith (trim line) ''#''\<close> pi n n1 Cons [of n]
          by (auto simp: Let_def hasBadPair_simps badIndentStep_def)
      qed
    qed
  qed
qed

lemma showNat_digit: "n < 10 \<Longrightarrow> showNat n = [digitChar n]"
  by (simp add: showNat.simps)

lemma showNat_1: "showNat (Suc 0) = ''1''"
  by (simp add: showNat_digit digitChar_def char_of_eq_iff)

lemma unterminatedExample_eval:
  "trim unterminatedExample \<noteq> []"
  "codeWithoutStrings unterminatedExample = unterminatedExample"
  "scanned unterminatedExample =
     \<lparr>inSingleQuote = False, inDoubleQuote = True, inTemplateLiteral = False,
      escapeNext = False, stringStartLine = 1, currentLine = 2, stringType = ''double quote''\<rparr>"
    by (simp_all add: unterminatedExample_def trim_def trimStart_def trimEnd_def isWhiteSpace_def
        codeWithoutStrings_def isLineTerminator_def scanned_def scanFrom_def scanInit_def
        scanStep_def)

lemma nonBlankLines_examples:
  "nonBlankLines indent3 = [''if x:'', ''   y'']"
  "nonBlankLines indent37 = [''if x:'', ''   y'', ''       z'']"
  "nonBlankLines indent44 = [''if x:'', ''    y'', ''    z'']"
  by code_simp+

lemma trim_examples:
  "trim indent3 \<noteq> []" "trim indent37 \<noteq> []" "trim indent44 \<noteq> []"
  by code_simp+

lemma checkSyntax_python_examples:
  "checkSyntax indent3 ''python'' = \<lparr>hasError = False, errorMessage = None\<rparr>"
  "checkSyntax indent37 ''python'' =
     \<lparr>hasError = True,
      errorMessage = Some ''IndentationError: inconsistent indentation detected''\<rparr>"
  "checkSyntax indent44 ''python'' = \<lparr>hasError = False, errorMessage = None\<rparr>"
  by code_simp+

lemma positiveIndents_examples:
  "indentOf ''   y'' = 3"
  "\<not> startsWith (trim ''   y'') ''#''"
  "positiveIndents (nonBlankLines indent37) = [3, 7]"
  by code_simp+

section \<open>Facts about the output simulator\<close>

lemma startsWith_append [simp]: "startsWith (p @ s) p"
  by (simp add: startsWith_iff)

lemma dropPrefix_append [simp]: "dropPrefix p (p @ s) = Some s"
  by (simp add: dropPrefix_def)

lemma afterCall_print:
  "\<not> (\<exists>c cs. s = c # cs \<and> isWhiteSpace c) \<Longrightarrow> afterCall ''print'' ''('' (''print('' @ s) = Some s"
proof -
  assume a: "\<not> (\<exists>c cs. s = c # cs \<and> isWhiteSpace c)"
  have 1: "dropPrefix ''print'' (''print'' @ (''('' @ s)) = Some (''('' @ s)"
    by (rule dropPrefix_append)
  have 2: "skipSpaces (''('' @ s) = ''('' @ s"
    by (simp add: skipSpaces_def isWhiteSpace_def)
  have 3: "dropPrefix ''('' (''('' @ s) = Some s"
    by (rule dropPrefix_append)
  have 4: "skipSpaces s = s"
    using a by (cases s) (auto simp: skipSpaces_def)
  have "afterCall ''print'' ''('' (''print'' @ (''('' @ s)) = Some s"
    unfolding afterCall_def 1 option.case 2 3 4 ..
  then show ?thesis by simp
qed

lemma quotedArg_literal:
  assumes "isQuote q" "isQuote q'" "list_all (\<lambda>c. \<not> isQuote c) lit"
  shows "quotedArg allowF (q # lit @ q' # CHR '')'' # rest) = Some (lit, rest)"
proof -
  have d: "dropWhile (\<lambda>x. \<not> isQuote x) (lit @ q' # CHR '')'' # rest) = q' # CHR '')'' # rest"
    using assms(2,3) by (simp add: dropWhile_append3 list_all_iff)
  have t: "takeWhile (\<lambda>x. \<not> isQuote x) (lit @ q' # CHR '')'' # rest) = lit"
    using assms(2,3) by (simp add: takeWhile_append2 list_all_iff)
  have q: "q \<noteq> CHR ''f''"
    using assms(1) by (auto simp: isQuote_def)
  have s1: "(case q # lit @ q' # CHR '')'' # rest of
               c # d # ds \<Rightarrow>
                 if allowF \<and> c = CHR ''f'' \<and> isQuote d then d # ds
                 else q # lit @ q' # CHR '')'' # rest
             | _ \<Rightarrow> q # lit @ q' # CHR '')'' # rest) = q # lit @ q' # CHR '')'' # rest"
    using q by (simp split: list.split)
  show ?thesis
    unfolding quotedArg_def Let_def s1 using assms(1) by (simp add: d t)
qed

lemma quotedArg_none:
  assumes "\<not> (\<exists>c cs. arg = c # cs \<and> (isQuote c \<or> c = CHR ''f''))"
  shows "quotedArg allowF (arg @ CHR '')'' # rest) = None"
proof (cases arg)
  case Nil
  then show ?thesis
    by (cases rest) (simp_all add: quotedArg_def isQuote_def)
next
  case (Cons c cs)
  with assms have c: "\<not> isQuote c" "c \<noteq> CHR ''f''"
    by auto
  have s1: "(case c # cs @ CHR '')'' # rest of
               c' # d # ds \<Rightarrow>
                 if allowF \<and> c' = CHR ''f'' \<and> isQuote d then d # ds
                 else c # cs @ CHR '')'' # rest
             | _ \<Rightarrow> c # cs @ CHR '')'' # rest) = c # cs @ CHR '')'' # rest"
    using c(2) by (simp split: list.split)
  show ?thesis
    unfolding quotedArg_def Let_def \<open>arg = c # cs\<close> append_Cons s1 using c(1) by simp
qed

lemma rawArg_plain:
  assumes "list_all (\<lambda>c. c \<noteq> CHR '')'') arg"
  shows "rawArg (arg @ CHR '')'' # rest) = Some (arg, rest)"
proof -
  have d: "dropWhile (\<lambda>x. x \<noteq> CHR '')'') (arg @ CHR '')'' # rest) = CHR '')'' # rest"
    using assms by (simp add: dropWhile_append3 list_all_iff)
  have t: "takeWhile (\<lambda>x. x \<noteq> CHR '')'') (arg @ CHR '')'' # rest) = arg"
    using assms by (simp add: takeWhile_append2 list_all_iff)
  show ?thesis
    unfolding rawArg_def d t by simp
qed

lemma orElse_Some [simp]: "orElse (Some v) [] = v"
  by (simp add: orElse_def)

lemma matchAt_print_literal:
  assumes "isQuote q" "isQuote q'" "list_all (\<lambda>c. \<not> isQuote c) lit"
  shows "matchAt PyPrintRe (''print('' @ q # lit @ q' # CHR '')'' # rest) = Some (lit, rest)"
proof -
  have w: "\<not> (\<exists>c cs. q # lit @ q' # CHR '')'' # rest = c # cs \<and> isWhiteSpace c)"
    using assms(1) by (auto simp: isQuote_def isWhiteSpace_def)
  show ?thesis
    unfolding matchAt.simps afterCall_print [OF w] option.case printArg_def
      quotedArg_literal [OF assms]
    by (simp add: orElse_def)
qed

lemma matchAt_print_raw:
  assumes "list_all (\<lambda>c. c \<noteq> CHR '')'') arg"
    and "\<not> (\<exists>c cs. arg = c # cs \<and> (isWhiteSpace c \<or> isQuote c \<or> c = CHR ''f''))"
  shows "matchAt PyPrintRe (''print('' @ arg @ CHR '')'' # rest) = Some (arg, rest)"
proof -
  have w: "\<not> (\<exists>c cs. arg @ CHR '')'' # rest = c # cs \<and> isWhiteSpace c)"
    using assms(2) by (cases arg) (auto simp: isWhiteSpace_def)
  have n: "\<not> (\<exists>c cs. arg = c # cs \<and> (isQuote c \<or> c = CHR ''f''))"
    using assms(2) by blast
  show ?thesis
    unfolding matchAt.simps afterCall_print [OF w] option.case printArg_def
      quotedArg_none [OF n] rawArg_plain [OF assms(1)]
    by (simp add: orElse_def)
qed

lemma printedLines_nonempty: "execAll p code \<noteq> [] \<Longrightarrow> printedLines p code \<noteq> []"
  by (cases "execAll p code") (simp_all add: printedLines_def)

lemma printedLines_empty: "execAll p code = [] \<Longrightarrow> printedLines p code = []"
  by (simp add: printedLines_def)

lemma simulatedOutput_nonempty: "simulatedOutput code languageId \<noteq> []"
  unfolding simulatedOutput_def Let_def by (simp split: if_splits)

lemma simulatedOutput_extract:
  "simulatedOutput code languageId =
     (if languageId = ''html'' \<or> languageId = ''css'' then
        ''Frontend code doesn't produce console output directly.'' @ [NEWLINE] @
        ''Rendering in the preview panel.''
      else if languageId \<notin> {''c'', ''cpp'', ''python'', ''javascript'', ''typescript''} then
        ''Language execution simulation not implemented yet.'' @ [NEWLINE] @
        ''Program executed successfully.''
      else if execAll (if languageId = ''c'' then PrintfRe else if languageId = ''cpp'' then CoutRe
                 else if languageId = ''python'' then PyPrintRe else ConsoleLogRe) code = []
      then ''Program executed successfully with no output.''
      else concat (map (\<lambda>g. g @ [NEWLINE])
             (execAll (if languageId = ''c'' then PrintfRe else if languageId = ''cpp'' then CoutRe
                 else if languageId = ''python'' then PyPrintRe else ConsoleLogRe) code)))"
proof -
  have e: "\<And>p. (printedLines p code = []) = (execAll p code = [])"
    using printedLines_nonempty printedLines_empty by blast
  show ?thesis
    unfolding simulatedOutput_def Let_def
    by (simp add: e) (simp add: printedLines_def)
qed

lemma helloExample_eval:
  "simulatedOutput helloExample ''python'' = ''hello'' @ [NEWLINE] @ ''x'' @ [NEWLINE]"
  by code_simp

lemma simulateExecution_fst:
  "fst (simulateExecution w code languageId s) =
     \<lparr>outputText = simulatedOutput code languageId, error = None,
      executionTime = clock w (Suc (clockReads s)) - clock w (clockReads s)\<rparr>"
  by (simp add: simulateExecution_def now_def Let_def)

lemma dropWhile_split:
  "(dropWhile P s = t) = (\<exists>ws. s = ws @ t \<and> list_all P ws \<and> (t = [] \<or> \<not> P (hd t)))"
proof
  assume d: "dropWhile P s = t"
  have "s = takeWhile P s @ t"
    using d by (metis takeWhile_dropWhile_id)
  moreover have "list_all P (takeWhile P s)"
    unfolding list_all_iff by (auto dest: set_takeWhileD)
  moreover have "t = [] \<or> \<not> P (hd t)"
    using d hd_dropWhile [of P s] by auto
  ultimately show "\<exists>ws. s = ws @ t \<and> list_all P ws \<and> (t = [] \<or> \<not> P (hd t))"
    by blast
next
  assume "\<exists>ws. s = ws @ t \<and> list_all P ws \<and> (t = [] \<or> \<not> P (hd t))"
  then obtain ws where w: "s = ws @ t" "list_all P ws" "t = [] \<or> \<not> P (hd t)"
    by blast
  have "dropWhile P (ws @ t) = dropWhile P t"
    using w(2) by (simp add: list_all_iff)
  also have "\<dots> = t"
    using w(3) by (cases t) auto
  finally show "dropWhile P s = t"
    by (simp add: w(1))
qed

lemma takeWhile_split:
  "list_all P ws \<Longrightarrow> t = [] \<or> \<not> P (hd t) \<Longrightarrow> takeWhile P (ws @ t) = ws"
  by (cases t) (auto simp: list_all_iff takeWhile_append2 takeWhile_append)

lemma dropPrefix_iff: "(dropPrefix p s = Some r) = (s = p @ r)"
  by (auto simp: dropPrefix_def startsWith_iff)

lemma afterCall_iff:
  assumes "symb \<noteq> []" "\<not> isWhiteSpace (hd symb)"
  shows "(afterCall name symb s = Some t) = callPrefix name symb s t"
proof
  assume "afterCall name symb s = Some t"
  then obtain s1 s2 where 1: "dropPrefix name s = Some s1"
    and 2: "dropPrefix symb (skipSpaces s1) = Some s2" and 3: "t = skipSpaces s2"
    by (auto simp: afterCall_def split: option.splits)
  from 1 have a: "s = name @ s1"
    by (simp add: dropPrefix_iff)
  from 2 have "dropWhile isWhiteSpace s1 = symb @ s2"
    by (simp add: dropPrefix_iff skipSpaces_def)
  then obtain ws1 where b: "s1 = ws1 @ symb @ s2" "list_all isWhiteSpace ws1"
    unfolding dropWhile_split by blast
  from 3 have "dropWhile isWhiteSpace s2 = t"
    by (simp add: skipSpaces_def)
  then obtain ws2 where c: "s2 = ws2 @ t" "list_all isWhiteSpace ws2"
    "t = [] \<or> \<not> isWhiteSpace (hd t)"
    unfolding dropWhile_split by blast
  from a b c show "callPrefix name symb s t"
    unfolding callPrefix_def by (intro exI [of _ ws1] exI [of _ ws2]) simp
next
  assume "callPrefix name symb s t"
  then obtain ws1 ws2 where c: "s = name @ ws1 @ symb @ ws2 @ t"
    "list_all isWhiteSpace ws1" "list_all isWhiteSpace ws2" "t = [] \<or> \<not> isWhiteSpace (hd t)"
    unfolding callPrefix_def by blast
  have 1: "dropPrefix name s = Some (ws1 @ symb @ ws2 @ t)"
    by (simp add: dropPrefix_iff c(1))
  have "symb @ ws2 @ t = [] \<or> \<not> isWhiteSpace (hd (symb @ ws2 @ t))"
    using assms by simp
  with c(2) have 2: "skipSpaces (ws1 @ symb @ ws2 @ t) = symb @ ws2 @ t"
    unfolding skipSpaces_def dropWhile_split by blast
  have 3: "dropPrefix symb (symb @ ws2 @ t) = Some (ws2 @ t)"
    by (simp add: dropPrefix_iff)
  have 4: "skipSpaces (ws2 @ t) = t"
    using c(3,4) unfolding skipSpaces_def dropWhile_split by blast
  show "afterCall name symb s = Some t"
    by (simp add: afterCall_def 1 2 3 4)
qed

lemma rawArg_iff: "(rawArg t = Some (g, rest)) = rawForm t g rest"
proof
  assume "rawArg t = Some (g, rest)"
  then obtain p where d: "dropWhile (\<lambda>x. x \<noteq> CHR '')'') t = p # rest"
    and g: "g = takeWhile (\<lambda>x. x \<noteq> CHR '')'') t"
    by (auto simp: rawArg_def split: list.splits)
  from d have "p = CHR '')''"
    using hd_dropWhile [of "\<lambda>x. x \<noteq> CHR '')''" t] by auto
  moreover have "t = g @ p # rest"
    using d g by (metis takeWhile_dropWhile_id)
  moreover have "list_all (\<lambda>c. c \<noteq> CHR '')'') g"
    unfolding g list_all_iff by (auto dest: set_takeWhileD)
  ultimately show "rawForm t g rest"
    by (simp add: rawForm_def)
next
  assume "rawForm t g rest"
  then show "rawArg t = Some (g, rest)"
    by (simp add: rawForm_def rawArg_plain)
qed

lemma doubleQuoted_iff: "(doubleQuoted s = Some (g, rest)) = literalForm s g rest"
proof
  assume a: "doubleQuoted s = Some (g, rest)"
  then obtain cs where s: "s = DQUOTE # cs"
    by (auto simp: doubleQuoted_def split: list.splits if_splits)
  with a obtain q where d: "dropWhile (\<lambda>x. x \<noteq> DQUOTE) cs = q # rest"
    and g: "g = takeWhile (\<lambda>x. x \<noteq> DQUOTE) cs"
    by (auto simp: doubleQuoted_def split: list.splits)
  from d have "q = DQUOTE"
    using hd_dropWhile [of "\<lambda>x. x \<noteq> DQUOTE" cs] by auto
  moreover have "cs = g @ q # rest"
    using d g by (metis takeWhile_dropWhile_id)
  moreover have "list_all (\<lambda>c. c \<noteq> DQUOTE) g"
    unfolding g list_all_iff by (auto dest: set_takeWhileD)
  ultimately show "literalForm s g rest"
    by (simp add: literalForm_def s)
next
  assume "literalForm s g rest"
  then have g: "list_all (\<lambda>c. c \<noteq> DQUOTE) g" and s: "s = DQUOTE # g @ DQUOTE # rest"
    by (simp_all add: literalForm_def)
  have d: "dropWhile (\<lambda>x. x \<noteq> DQUOTE) (g @ DQUOTE # rest) = DQUOTE # rest"
    using g by (simp add: dropWhile_append3 list_all_iff)
  have t: "takeWhile (\<lambda>x. x \<noteq> DQUOTE) (g @ DQUOTE # rest) = g"
    using g by (simp add: takeWhile_append2 list_all_iff)
  show "doubleQuoted s = Some (g, rest)"
    by (simp add: doubleQuoted_def s d t)
qed

lemma quotedBody_append:
  "literalBody q m \<Longrightarrow> q \<noteq> BACKSLASH \<Longrightarrow> quotedBody q (m @ q # r) = Some r"
  by (induction rule: literalBody.induct) simp_all

lemma quotedBody_iff:
  assumes "q \<noteq> BACKSLASH"
  shows "(quotedBody q s = Some r) = (\<exists>m. literalBody q m \<and> s = m @ q # r)"
proof
  show "quotedBody q s = Some r \<Longrightarrow> \<exists>m. literalBody q m \<and> s = m @ q # r"
  proof (induction q s rule: quotedBody.induct)
    case (1 q)
    then show ?case by simp
  next
    case (2 q c cs)
    show ?case
    proof (cases "c = q")
      case True
      with 2 have "literalBody q [] \<and> c # cs = [] @ q # r"
        by (simp add: literalBody.Empty)
      then show ?thesis by blast
    next
      case nq: False
      show ?thesis
      proof (cases "c = BACKSLASH")
        case True
        with nq 2(3) obtain d ds where cs: "cs = d # ds" and d: "\<not> isLineTerminator d"
          and b: "quotedBody q ds = Some r"
          by (auto split: list.splits if_splits)
        from 2(1) [OF nq True cs d b] obtain m where "literalBody q m" "ds = m @ q # r"
          by blast
        then have "literalBody q (BACKSLASH # d # m) \<and> c # cs = (BACKSLASH # d # m) @ q # r"
          using True cs d by (simp add: literalBody.Escaped)
        then show ?thesis by blast
      next
        case False
        with nq 2(3) have "quotedBody q cs = Some r"
          by simp
        from 2(2) [OF nq False this] obtain m where "literalBody q m" "cs = m @ q # r"
          by blast
        then have "literalBody q (c # m) \<and> c # cs = (c # m) @ q # r"
          using nq False by (simp add: literalBody.Plain)
        then show ?thesis by blast
      qed
    qed
  qed
next
  assume "\<exists>m. literalBody q m \<and> s = m @ q # r"
  then show "quotedBody q s = Some r"
    using quotedBody_append [OF _ assms] by blast
qed

lemma replaceQuoted_literal:
  "q \<noteq> BACKSLASH \<Longrightarrow> literalBody q m \<Longrightarrow>
   replaceQuoted q (q # m @ q # r) = q # q # replaceQuoted q r"
  by (simp add: quotedBody_append)

lemma replaceQuoted_open:
  assumes "q \<noteq> BACKSLASH" "\<not> (\<exists>m r. literalBody q m \<and> cs = m @ q # r)"
  shows "replaceQuoted q (q # cs) = q # replaceQuoted q cs"
proof -
  have "quotedBody q cs = None"
  proof (cases "quotedBody q cs")
    case None
    then show ?thesis .
  next
    case (Some r)
    then have "\<exists>m. literalBody q m \<and> cs = m @ q # r"
      using assms(1) by (simp add: quotedBody_iff)
    with assms(2) show ?thesis
      by blast
  qed
  then show ?thesis by simp
qed

lemma dropWhile_line:
  "list_all (\<lambda>x. \<not> isLineTerminator x) cmt \<Longrightarrow> rest = [] \<or> isLineTerminator (hd rest) \<Longrightarrow>
   dropWhile (\<lambda>x. \<not> isLineTerminator x) (cmt @ rest) = rest"
  unfolding dropWhile_split by blast

lemma stripLineComments_comment:
  "list_all (\<lambda>x. \<not> isLineTerminator x) cmt \<Longrightarrow> rest = [] \<or> isLineTerminator (hd rest) \<Longrightarrow>
   stripLineComments (''//'' @ cmt @ rest) = stripLineComments rest"
  by (simp add: dropWhile_line)

lemma stripLineComments_other:
  "\<not> (\<exists>r. c # cs = ''//'' @ r) \<Longrightarrow> stripLineComments (c # cs) = c # stripLineComments cs"
  by (cases cs) auto

lemma afterBlockEnd_None: "(afterBlockEnd s = None) = (\<not> includes_str s ''*/'')"
  by (induction s rule: afterBlockEnd.induct) auto

lemma afterBlockEnd_append:
  "\<not> includes_str cmt ''*/'' \<Longrightarrow> afterBlockEnd (cmt @ ''*/'' @ r) = Some r"
  by (induction cmt rule: afterBlockEnd.induct) auto

lemma stripBlockComments_comment:
  "\<not> (\<exists>a b. cmt = a @ ''*/'' @ b) \<Longrightarrow>
   stripBlockComments (''/*'' @ cmt @ ''*/'' @ rest) = stripBlockComments rest"
  using afterBlockEnd_append [of cmt rest] by (simp add: includes_str_iff)

lemma stripBlockComments_open:
  "\<not> (\<exists>a b. cs = a @ ''*/'' @ b) \<Longrightarrow>
   stripBlockComments (''/*'' @ cs) = CHR ''/'' # stripBlockComments (CHR ''*'' # cs)"
  using afterBlockEnd_None [of cs] by (simp add: includes_str_iff)

lemma stripBlockComments_other:
  "\<not> (\<exists>r. c # cs = ''/*'' @ r) \<Longrightarrow> stripBlockComments (c # cs) = c # stripBlockComments cs"
  by (cases cs) auto

lemma c_examples:
  "checkSyntax braceInString ''c'' = \<lparr>hasError = False, errorMessage = None\<rparr>"
  "checkSyntax braceInChar ''c'' = \<lparr>hasError = False, errorMessage = None\<rparr>"
  "checkSyntax braceInLineComment ''cpp'' = \<lparr>hasError = False, errorMessage = None\<rparr>"
  "checkSyntax braceInBlockComment ''cpp'' = \<lparr>hasError = False, errorMessage = None\<rparr>"
  "checkSyntax slashesInString ''c'' = \<lparr>hasError = False, errorMessage = None\<rparr>"
  "checkSyntax escapedQuoteInString ''c'' = \<lparr>hasError = False, errorMessage = None\<rparr>"
  "checkSyntax closingInComment ''c'' =
     \<lparr>hasError = True, errorMessage = Some (''Error: missing closing curly brace '}'' @ [SQUOTE])\<rparr>"
  "codeWithoutStrings braceInString = ''int main(){ puts('' @ [DQUOTE, DQUOTE] @ ''); }''"
  "codeWithoutStrings braceInChar = ''int main(){ char c = '' @ [SQUOTE, SQUOTE] @ ''; }''"
  "codeWithoutStrings braceInLineComment = ''int main(){ '' @ [NEWLINE] @ ''}''"
  "codeWithoutStrings braceInBlockComment = ''int main(){  }''"
  by code_simp+

lemma c_examples_pre:
  "trim braceInString \<noteq> []"
  "includes_str braceInString ''main(''"
  "\<not> includes_str braceInString ''printf(''"
  "stripBlockComments (stripLineComments (replaceQuoted SQUOTE (replaceQuoted DQUOTE braceInString)))
     = ''int main(){ puts('' @ [DQUOTE, DQUOTE] @ ''); }''"
  "countChar CHR ''}'' (''int main(){ puts('' @ [DQUOTE, DQUOTE] @ ''); }'') = 1"
  "countChar CHR ''{'' (''int main(){ puts('' @ [DQUOTE, DQUOTE] @ ''); }'') = 1"
  "trim closingInComment \<noteq> []"
  "includes_str closingInComment ''main(''"
  "\<not> includes_str closingInComment ''printf(''"
  "stripBlockComments (stripLineComments (replaceQuoted SQUOTE (replaceQuoted DQUOTE closingInComment)))
     = ''int main(){ if (x) { '' @ [NEWLINE] @ ''}''"
  "countChar CHR ''}'' (''int main(){ if (x) { '' @ [NEWLINE] @ ''}'') = 1"
  "countChar CHR ''{'' (''int main(){ if (x) { '' @ [NEWLINE] @ ''}'') = 2"
  by code_simp+

lemma quotedArg_False:
  "quotedArg False s =
     (case s of
        [] \<Rightarrow> None
      | c # cs \<Rightarrow>
          if isQuote c then
            (case dropWhile (\<lambda>x. \<not> isQuote x) cs of
               q' # p # rest \<Rightarrow>
                 if p = CHR '')'' then Some (takeWhile (\<lambda>x. \<not> isQuote x) cs, rest) else None
             | _ \<Rightarrow> None)
          else None)"
proof -
  have "(case s of c # d # ds \<Rightarrow> if False \<and> c = CHR ''f'' \<and> isQuote d then d # ds else s
         | _ \<Rightarrow> s) = s"
    by (simp split: list.split)
  then show ?thesis
    unfolding quotedArg_def Let_def by (simp only:)
qed

lemma quotedArg_start:
  "quotedArg allowF (q # cs) =
     (if allowF \<and> q = CHR ''f'' \<and> cs \<noteq> [] \<and> isQuote (hd cs) then quotedArg False cs
      else quotedArg False (q # cs))"
proof (cases "allowF \<and> q = CHR ''f'' \<and> cs \<noteq> [] \<and> isQuote (hd cs)")
  case True
  then obtain d ds where cs: "cs = d # ds" and d: "isQuote d"
    by (cases cs) auto
  have "(case q # d # ds of c # d' # ds' \<Rightarrow>
            if allowF \<and> c = CHR ''f'' \<and> isQuote d' then d' # ds' else q # d # ds
         | _ \<Rightarrow> q # d # ds) = d # ds"
    using True d by simp
  then have "quotedArg allowF (q # d # ds) = quotedArg False (d # ds)"
    unfolding quotedArg_False unfolding quotedArg_def Let_def by (simp only:)
  with True cs show ?thesis
    by simp
next
  case False
  have "(case q # cs of c # d' # ds' \<Rightarrow>
            if allowF \<and> c = CHR ''f'' \<and> isQuote d' then d' # ds' else q # cs
         | _ \<Rightarrow> q # cs) = q # cs"
    using False by (cases cs) auto
  then have "quotedArg allowF (q # cs) = quotedArg False (q # cs)"
    unfolding quotedArg_False unfolding quotedArg_def Let_def by (simp only:)
  then show ?thesis
    by (simp only: False if_False)
qed

lemma quotedArg_plain_iff:
  assumes "isQuote q"
  shows "(quotedArg False (q # cs) = Some (g, rest)) =
     (\<exists>q'. isQuote q' \<and> list_all (\<lambda>c. \<not> isQuote c) g \<and> cs = g @ q' # CHR '')'' # rest)"
proof
  assume "quotedArg False (q # cs) = Some (g, rest)"
  then obtain q' where d: "dropWhile (\<lambda>x. \<not> isQuote x) cs = q' # CHR '')'' # rest"
    and g: "g = takeWhile (\<lambda>x. \<not> isQuote x) cs"
    using assms by (auto simp: quotedArg_False split: list.splits if_splits)
  from d have "isQuote q'"
    using hd_dropWhile [of "\<lambda>x. \<not> isQuote x" cs] by auto
  moreover have "cs = g @ q' # CHR '')'' # rest"
    using d g by (metis takeWhile_dropWhile_id)
  moreover have "list_all (\<lambda>c. \<not> isQuote c) g"
    unfolding g list_all_iff by (auto dest: set_takeWhileD)
  ultimately show "\<exists>q'. isQuote q' \<and> list_all (\<lambda>c. \<not> isQuote c) g \<and> cs = g @ q' # CHR '')'' # rest"
    by blast
next
  assume "\<exists>q'. isQuote q' \<and> list_all (\<lambda>c. \<not> isQuote c) g \<and> cs = g @ q' # CHR '')'' # rest"
  then obtain q' where "isQuote q'" "list_all (\<lambda>c. \<not> isQuote c) g" "cs = g @ q' # CHR '')'' # rest"
    by blast
  then show "quotedArg False (q # cs) = Some (g, rest)"
    using quotedArg_literal [OF assms, of q' g False rest] by simp
qed

lemma quotedArg_iff: "(quotedArg allowF t = Some (g, rest)) = quotedForm allowF t g rest"
proof (cases t)
  case Nil
  then show ?thesis
    by (simp add: quotedArg_def quotedForm_def)
next
  case (Cons c cs)
  have nq: "\<not> isQuote CHR ''f''"
    by (simp add: isQuote_def)
  show ?thesis
  proof (cases "allowF \<and> c = CHR ''f'' \<and> cs \<noteq> [] \<and> isQuote (hd cs)")
    case True
    then obtain d ds where cs: "cs = d # ds" and d: "isQuote d"
      by (cases cs) auto
    have "(quotedArg allowF t = Some (g, rest)) = (quotedArg False (d # ds) = Some (g, rest))"
      unfolding Cons by (subst quotedArg_start) (use True cs in simp)
    also have "\<dots> = (\<exists>q'. isQuote q' \<and> list_all (\<lambda>c. \<not> isQuote c) g \<and>
        ds = g @ q' # CHR '')'' # rest)"
      by (rule quotedArg_plain_iff [OF d])
    also have "\<dots> = quotedForm allowF t g rest"
    proof
      assume "\<exists>q'. isQuote q' \<and> list_all (\<lambda>c. \<not> isQuote c) g \<and> ds = g @ q' # CHR '')'' # rest"
      then obtain q' where "isQuote q'" "list_all (\<lambda>c. \<not> isQuote c) g"
        "ds = g @ q' # CHR '')'' # rest"
        by blast
      then have "(''f'' = [] \<or> (allowF \<and> ''f'' = ''f'')) \<and> isQuote d \<and> isQuote q' \<and>
          list_all (\<lambda>c. \<not> isQuote c) g \<and> t = ''f'' @ d # g @ q' # CHR '')'' # rest"
        using True Cons cs d by simp
      then show "quotedForm allowF t g rest"
        unfolding quotedForm_def by blast
    next
      assume "quotedForm allowF t g rest"
      then obtain pre q q' where p: "pre = [] \<or> (allowF \<and> pre = ''f'')" "isQuote q" "isQuote q'"
        "list_all (\<lambda>c. \<not> isQuote c) g" "t = pre @ q # g @ q' # CHR '')'' # rest"
        unfolding quotedForm_def by blast
      from p(1,2,5) True Cons nq have "pre = ''f''"
        by auto
      with p(5) Cons cs have "ds = g @ q' # CHR '')'' # rest"
        by simp
      with p(3,4) show "\<exists>q'. isQuote q' \<and> list_all (\<lambda>c. \<not> isQuote c) g \<and>
          ds = g @ q' # CHR '')'' # rest"
        by blast
    qed
    finally show ?thesis .
  next
    case False
    show ?thesis
    proof (cases "isQuote c")
      case q: True
      have "(quotedArg allowF t = Some (g, rest)) = (quotedArg False (c # cs) = Some (g, rest))"
        unfolding Cons by (subst quotedArg_start) (simp only: False if_False)
      also have "\<dots> = (\<exists>q'. isQuote q' \<and> list_all (\<lambda>c. \<not> isQuote c) g \<and>
          cs = g @ q' # CHR '')'' # rest)"
        by (rule quotedArg_plain_iff [OF q])
      also have "\<dots> = quotedForm allowF t g rest"
      proof
        assume "\<exists>q'. isQuote q' \<and> list_all (\<lambda>c. \<not> isQuote c) g \<and> cs = g @ q' # CHR '')'' # rest"
        then obtain q' where "isQuote q'" "list_all (\<lambda>c. \<not> isQuote c) g"
          "cs = g @ q' # CHR '')'' # rest"
          by blast
        then have "([] = [] \<or> (allowF \<and> [] = ''f'')) \<and> isQuote c \<and> isQuote q' \<and>
            list_all (\<lambda>c. \<not> isQuote c) g \<and> t = [] @ c # g @ q' # CHR '')'' # rest"
          using Cons q by simp
        then show "quotedForm allowF t g rest"
          unfolding quotedForm_def by blast
      next
        assume "quotedForm allowF t g rest"
        then obtain pre q' q'' where p: "pre = [] \<or> (allowF \<and> pre = ''f'')" "isQuote q'"
          "isQuote q''" "list_all (\<lambda>c. \<not> isQuote c) g"
          "t = pre @ q' # g @ q'' # CHR '')'' # rest"
          unfolding quotedForm_def by blast
        from p(1,5) Cons q nq have "pre = []"
          by auto
        with p(5) Cons have "cs = g @ q'' # CHR '')'' # rest"
          by simp
        with p(3,4) show "\<exists>q'. isQuote q' \<and> list_all (\<lambda>c. \<not> isQuote c) g \<and>
            cs = g @ q' # CHR '')'' # rest"
          by blast
      qed
      finally show ?thesis .
    next
      case nqc: False
      have l: "quotedArg allowF t = None"
        unfolding Cons
        by (subst quotedArg_start, simp only: False if_False) (use nqc in \<open>simp add: quotedArg_False\<close>)
      have "\<not> quotedForm allowF t g rest"
      proof
        assume "quotedForm allowF t g rest"
        then obtain pre q' q'' where p: "pre = [] \<or> (allowF \<and> pre = ''f'')" "isQuote q'"
          "t = pre @ q' # g @ q'' # CHR '')'' # rest"
          unfolding quotedForm_def by blast
        from p(1) show False
        proof
          assume "pre = []"
          with p(2,3) Cons nqc show False by simp
        next
          assume "allowF \<and> pre = ''f''"
          with p(2,3) Cons False show False by auto
        qed
      qed
      with l show ?thesis by simp
    qed
  qed
qed

lemma orElse_groups:
  "orElse (Some v) (orElse None '''') = v" "orElse None (orElse (Some v) '''') = v"
  by (simp_all add: orElse_def)

lemma printArg_iff:
  "(\<exists>g1 g2. printArg allowF t = Some ((g1, g2), rest) \<and> orElse g1 (orElse g2 '''') = x) =
     (quotedForm allowF t x rest \<or>
      (\<not> (\<exists>g' r'. quotedForm allowF t g' r') \<and> rawForm t x rest))"
proof (cases "quotedArg allowF t")
  case None
  then have n: "\<not> (\<exists>g' r'. quotedForm allowF t g' r')"
    by (simp add: quotedArg_iff [symmetric])
  have "(\<exists>g1 g2. printArg allowF t = Some ((g1, g2), rest) \<and> orElse g1 (orElse g2 '''') = x) =
      (rawArg t = Some (x, rest))"
    using None by (auto simp: printArg_def orElse_def split: option.splits)
  with n show ?thesis
    by (simp add: rawArg_iff)
next
  case (Some a)
  obtain lit r where a: "a = (lit, r)"
    by (cases a)
  have q: "quotedForm allowF t g' r' = (g' = lit \<and> r' = r)" for g' r'
    using Some a by (simp add: quotedArg_iff [symmetric]) blast
  have "(\<exists>g1 g2. printArg allowF t = Some ((g1, g2), rest) \<and> orElse g1 (orElse g2 '''') = x) =
      (lit = x \<and> r = rest)"
    using Some a by (auto simp: printArg_def orElse_def)
  then show ?thesis
    by (auto simp: q)
qed

lemma symbols_start:
  "''('' \<noteq> [] \<and> \<not> isWhiteSpace (hd ''('')" "''<<'' \<noteq> [] \<and> \<not> isWhiteSpace (hd ''<<'')"
  by (simp_all add: isWhiteSpace_def)

lemma matchAt_print_iff:
  "(matchAt PyPrintRe s = Some (x, rest)) =
     (\<exists>t. callPrefix ''print'' ''('' s t \<and>
        (quotedForm True t x rest \<or>
         (\<not> (\<exists>g' r'. quotedForm True t g' r') \<and> rawForm t x rest)))"
proof -
  have "(matchAt PyPrintRe s = Some (x, rest)) =
      (\<exists>t. afterCall ''print'' ''('' s = Some t \<and>
         (\<exists>g1 g2. printArg True t = Some ((g1, g2), rest) \<and> orElse g1 (orElse g2 '''') = x))"
    by (auto split: option.splits)
  then show ?thesis
    unfolding printArg_iff
    by (simp only: afterCall_iff [OF symbols_start(1) [THEN conjunct1]
          symbols_start(1) [THEN conjunct2]])
qed

lemma matchAt_consoleLog_iff:
  "(matchAt ConsoleLogRe s = Some (x, rest)) =
     (\<exists>t. callPrefix ''console.log'' ''('' s t \<and>
        (quotedForm False t x rest \<or>
         (\<not> (\<exists>g' r'. quotedForm False t g' r') \<and> rawForm t x rest)))"
proof -
  have "(matchAt ConsoleLogRe s = Some (x, rest)) =
      (\<exists>t. afterCall ''console.log'' ''('' s = Some t \<and>
         (\<exists>g1 g2. printArg False t = Some ((g1, g2), rest) \<and> orElse g1 (orElse g2 '''') = x))"
    by (auto split: option.splits)
  then show ?thesis
    unfolding printArg_iff
    by (simp only: afterCall_iff [OF symbols_start(1) [THEN conjunct1]
          symbols_start(1) [THEN conjunct2]])
qed

lemma matchAt_printf_iff:
  "(matchAt PrintfRe s = Some (x, rest)) =
     (\<exists>t. callPrefix ''printf'' ''('' s t \<and> literalForm t x rest)"
proof -
  have "(matchAt PrintfRe s = Some (x, rest)) =
      (\<exists>t. afterCall ''printf'' ''('' s = Some t \<and> doubleQuoted t = Some (x, rest))"
    by (auto split: option.splits)
  then show ?thesis
    by (simp only: doubleQuoted_iff afterCall_iff [OF symbols_start(1) [THEN conjunct1]
          symbols_start(1) [THEN conjunct2]])
qed

lemma matchAt_cout_iff:
  "(matchAt CoutRe s = Some (x, rest)) =
     (\<exists>t. callPrefix ''cout'' ''<<'' s t \<and> literalForm t x rest)"
proof -
  have "(matchAt CoutRe s = Some (x, rest)) =
      (\<exists>t. afterCall ''cout'' ''<<'' s = Some t \<and> doubleQuoted t = Some (x, rest))"
    by (auto split: option.splits)
  then show ?thesis
    by (simp only: doubleQuoted_iff afterCall_iff [OF symbols_start(2) [THEN conjunct1]
          symbols_start(2) [THEN conjunct2]])
qed

lemma simulator_examples:
  "simulatedOutput printItsExample ''python'' = [DQUOTE] @ ''it's'' @ [DQUOTE, NEWLINE]"
  "simulatedOutput printCallExample ''python'' = ''str(x'' @ [NEWLINE]"
  "simulatedOutput ''print(foo)'' ''python'' = ''foo'' @ [NEWLINE]"
  "simulatedOutput ''print  (  x + 1 )'' ''python'' = ''x + 1 '' @ [NEWLINE]"
  "simulatedOutput ''print(f'a') print('b' + c)'' ''python'' =
     ''a'' @ [NEWLINE] @ [SQUOTE] @ ''b'' @ [SQUOTE] @ '' + c'' @ [NEWLINE]"
  "simulatedOutput ''x = 1'' ''python'' = ''Program executed successfully with no output.''"
  by code_simp+

lemma print_shapes:
  "callPrefix ''print'' ''('' ''print  (  x + 1 ) # done'' ''x + 1 ) # done''"
  "rawForm ''x + 1 ) # done'' ''x + 1 '' '' # done''"
  "\<not> (\<exists>g' r'. quotedForm True ''x + 1 ) # done'' g' r')"
  "callPrefix ''print'' ''('' (''print(f'' @ [DQUOTE] @ ''hi'' @ [DQUOTE] @ '')'')
     (''f'' @ [DQUOTE] @ ''hi'' @ [DQUOTE] @ '')'')"
  "quotedForm True (''f'' @ [DQUOTE] @ ''hi'' @ [DQUOTE] @ '')'') ''hi'' []"
proof -
  show "callPrefix ''print'' ''('' ''print  (  x + 1 ) # done'' ''x + 1 ) # done''"
    unfolding callPrefix_def
    by (rule exI [of _ "''  ''"], rule exI [of _ "''  ''"]) (simp add: isWhiteSpace_def)
  show "rawForm ''x + 1 ) # done'' ''x + 1 '' '' # done''"
    by (simp add: rawForm_def)
  show "\<not> (\<exists>g' r'. quotedForm True ''x + 1 ) # done'' g' r')"
    by (auto simp: quotedForm_def isQuote_def Cons_eq_append_conv)
  show "callPrefix ''print'' ''('' (''print(f'' @ [DQUOTE] @ ''hi'' @ [DQUOTE] @ '')'')
     (''f'' @ [DQUOTE] @ ''hi'' @ [DQUOTE] @ '')'')"
    unfolding callPrefix_def
    by (rule exI [of _ "[]"], rule exI [of _ "[]"]) (simp add: isWhiteSpace_def)
  show "quotedForm True (''f'' @ [DQUOTE] @ ''hi'' @ [DQUOTE] @ '')'') ''hi'' []"
    unfolding quotedForm_def
    by (rule exI [of _ "''f''"], rule exI [of _ DQUOTE], rule exI [of _ DQUOTE])
      (simp add: isQuote_def)
qed

section \<open>Facts about the backends\<close>

lemma prepareWorkspace_effect:
  "prepareWorkspace w affix fileName code s = (res, s') \<Longrightarrow>
   clockReads s' = clockReads s \<and> spawned s' = spawned s \<and> madeWorkspace w affix s s' \<and>
   (case res of Inl e \<Rightarrow> True | Inr dir \<Rightarrow> mkdirResult w affix (length (tracked s)) = Inr dir)"
  by (auto simp: prepareWorkspace_def mkdirSync_def writeFile_def madeWorkspace_def
      split: sum.splits option.splits)

lemma compilePhase_effect:
  "compilePhase w cmd t0 s = (res, s') \<Longrightarrow>
   workspaces s' = workspaces s \<and> tracked s' = tracked s \<and> spawned s' = cmd # spawned s \<and>
   (case res of
      None \<Rightarrow> clockReads s' = clockReads s
    | Some r \<Rightarrow> clockReads s' = Suc (clockReads s) \<and>
        executionTime r = clock w (clockReads s) - t0 \<and> outputText r = [] \<and>
        (\<exists>out err. execResult w cmd = Rejected out err \<and>
           error r = Some (orElse err ''Compilation error'')))"
  by (auto simp: compilePhase_def execAsync_def now_def split: exec_result.splits)

lemma runPhase_effect:
  "runPhase w cmd fb t0 s = (r, s') \<Longrightarrow>
   workspaces s' = workspaces s \<and> tracked s' = tracked s \<and> spawned s' = cmd # spawned s \<and>
   clockReads s' = Suc (clockReads s) \<and> executionTime r = clock w (clockReads s) - t0"
  by (auto simp: runPhase_def execAsync_def now_def split: exec_result.splits)

lemma runWith_effect:
  assumes "runWith w affix fileName tool fb code s = x"
  shows "timedFrom w (clockReads s) x \<and> madeWorkspace w affix s (snd x)"
proof -
  define s0 where "s0 = s\<lparr>clockReads := Suc (clockReads s)\<rparr>"
  obtain res s1 where p: "prepareWorkspace w affix fileName code s0 = (res, s1)"
    by (cases "prepareWorkspace w affix fileName code s0")
  note pe = prepareWorkspace_effect [OF p]
  have m0: "madeWorkspace w affix s s' = madeWorkspace w affix s0 s'" for s'
    by (simp add: madeWorkspace_def s0_def split: sum.splits)
  show ?thesis
  proof (cases res)
    case (Inl e)
    with p assms have "x = (Inl e, s1)"
      by (simp add: runWith_def now_def Let_def s0_def)
    with pe show ?thesis
      by (simp add: timedFrom_def m0 s0_def)
  next
    case (Inr dir)
    obtain r s2 where r: "runPhase w (tool @ '' '' @ pathJoin dir fileName) fb
        (clock w (clockReads s)) s1 = (r, s2)"
      by (cases "runPhase w (tool @ '' '' @ pathJoin dir fileName) fb (clock w (clockReads s)) s1")
    note re = runPhase_effect [OF r]
    from Inr p r assms have "x = (Inr r, s2)"
      by (simp add: runWith_def now_def Let_def s0_def)
    with pe re show ?thesis
      by (simp add: timedFrom_def m0 madeWorkspace_def s0_def split: sum.splits)
  qed
qed

lemma compileAndRun_effect:
  assumes "compileAndRun w affix fileName cmd code s = x"
  shows "timedFrom w (clockReads s) x \<and> madeWorkspace w affix s (snd x)"
proof -
  define s0 where "s0 = s\<lparr>clockReads := Suc (clockReads s)\<rparr>"
  obtain res s1 where p: "prepareWorkspace w affix fileName code s0 = (res, s1)"
    by (cases "prepareWorkspace w affix fileName code s0")
  note pe = prepareWorkspace_effect [OF p]
  have m0: "madeWorkspace w affix s s' = madeWorkspace w affix s0 s'" for s'
    by (simp add: madeWorkspace_def s0_def split: sum.splits)
  show ?thesis
  proof (cases res)
    case (Inl e)
    with p assms have "x = (Inl e, s1)"
      by (simp add: compileAndRun_def now_def Let_def s0_def)
    with pe show ?thesis
      by (simp add: timedFrom_def m0 s0_def)
  next
    case (Inr dir)
    define c where "c = cmd (pathJoin dir fileName) (pathJoin dir ''main.out'')"
    obtain cr s2 where c: "compilePhase w c (clock w (clockReads s)) s1 = (cr, s2)"
      by (cases "compilePhase w c (clock w (clockReads s)) s1")
    note ce = compilePhase_effect [OF c]
    show ?thesis
    proof (cases cr)
      case (Some r)
      from Inr p c Some assms have "x = (Inr r, s2)"
        by (simp add: compileAndRun_def now_def Let_def s0_def c_def)
      with pe ce Some show ?thesis
        by (auto simp: timedFrom_def m0 madeWorkspace_def s0_def split: sum.splits)
    next
      case None
      obtain r s3 where r: "runPhase w (pathJoin dir ''main.out'') ''Runtime error''
          (clock w (clockReads s)) s2 = (r, s3)"
        by (cases "runPhase w (pathJoin dir ''main.out'') ''Runtime error''
          (clock w (clockReads s)) s2")
      note re = runPhase_effect [OF r]
      from Inr p c None r assms have "x = (Inr r, s3)"
        by (simp add: compileAndRun_def now_def Let_def s0_def c_def)
      with pe ce re None show ?thesis
        by (auto simp: timedFrom_def m0 madeWorkspace_def s0_def split: sum.splits)
    qed
  qed
qed

lemma compileAndRunJava_effect:
  assumes "compileAndRunJava w code s = x"
  shows "timedFrom w (clockReads s) x \<and>
    (case findPublicClass code of
       None \<Rightarrow> workspaces (snd x) = workspaces s \<and> tracked (snd x) = tracked s
     | Some name \<Rightarrow> madeWorkspace w ''java-compiler'' s (snd x))"
proof (cases "findPublicClass code")
  case None
  with assms show ?thesis
    by (auto simp: compileAndRunJava_def now_def Let_def timedFrom_def)
next
  case (Some name)
  define s0 where "s0 = s\<lparr>clockReads := Suc (clockReads s)\<rparr>"
  obtain res s1 where p: "prepareWorkspace w ''java-compiler'' (name @ ''.java'') code s0 = (res, s1)"
    by (cases "prepareWorkspace w ''java-compiler'' (name @ ''.java'') code s0")
  note pe = prepareWorkspace_effect [OF p]
  have m0: "madeWorkspace w affix s s' = madeWorkspace w affix s0 s'" for s' affix
    by (simp add: madeWorkspace_def s0_def split: sum.splits)
  show ?thesis
  proof (cases res)
    case (Inl e)
    with Some p assms have "x = (Inl e, s1)"
      by (simp add: compileAndRunJava_def now_def Let_def s0_def)
    with pe Some show ?thesis
      by (simp add: timedFrom_def m0 s0_def)
  next
    case (Inr dir)
    define c where "c = ''javac '' @ pathJoin dir (name @ ''.java'')"
    obtain cr s2 where c: "compilePhase w c (clock w (clockReads s)) s1 = (cr, s2)"
      by (cases "compilePhase w c (clock w (clockReads s)) s1")
    note ce = compilePhase_effect [OF c]
    show ?thesis
    proof (cases cr)
      case cs: (Some r)
      from Inr p c cs Some assms have "x = (Inr r, s2)"
        by (simp add: compileAndRunJava_def now_def Let_def s0_def c_def)
      with pe ce cs Some show ?thesis
        by (auto simp: timedFrom_def m0 madeWorkspace_def s0_def split: sum.splits)
    next
      case None
      obtain r s3 where r: "runPhase w (''java -cp '' @ dir @ '' '' @ name) ''Runtime error''
          (clock w (clockReads s)) s2 = (r, s3)"
        by (cases "runPhase w (''java -cp '' @ dir @ '' '' @ name) ''Runtime error''
          (clock w (clockReads s)) s2")
      note re = runPhase_effect [OF r]
      from Inr p c None r Some assms have "x = (Inr r, s3)"
        by (simp add: compileAndRunJava_def now_def Let_def s0_def c_def)
      with pe ce re None Some show ?thesis
        by (auto simp: timedFrom_def m0 madeWorkspace_def s0_def split: sum.splits)
    qed
  qed
qed

lemma simulateExecution_effect:
  "simulateExecution w code languageId s =
     (\<lparr>outputText = simulatedOutput code languageId, error = None,
       executionTime = clock w (Suc (clockReads s)) - clock w (clockReads s)\<rparr>,
      s\<lparr>clockReads := clockReads s + 2\<rparr>)"
  by (simp add: simulateExecution_def now_def Let_def)

lemma backend_effects:
  "timedFrom w (clockReads s) (compileAndRunC w code s) \<and>
     madeWorkspace w ''c-compiler'' s (snd (compileAndRunC w code s))"
  "timedFrom w (clockReads s) (compileAndRunCpp w code s) \<and>
     madeWorkspace w ''cpp-compiler'' s (snd (compileAndRunCpp w code s))"
  "timedFrom w (clockReads s) (runPython w code s) \<and>
     madeWorkspace w ''python-runner'' s (snd (runPython w code s))"
  "timedFrom w (clockReads s) (runJavaScript w code s) \<and>
     madeWorkspace w ''javascript-runner'' s (snd (runJavaScript w code s))"
  "timedFrom w (clockReads s) (runTypeScript w code s) \<and>
     madeWorkspace w ''typescript-runner'' s (snd (runTypeScript w code s))"
  "timedFrom w (clockReads s) (runPhp w code s) \<and>
     madeWorkspace w ''php-runner'' s (snd (runPhp w code s))"
  "timedFrom w (clockReads s) (compileAndRunGo w code s) \<and>
     madeWorkspace w ''go-compiler'' s (snd (compileAndRunGo w code s))"
  unfolding compileAndRunC_def compileAndRunCpp_def runPython_def
    runJavaScript_def runTypeScript_def runPhp_def compileAndRunGo_def
  by (rule runWith_effect [OF refl] compileAndRun_effect [OF refl])+

lemma simulate_timed:
  "timedFrom w (clockReads s)
     (case simulateExecution w code language s of (r, s1) \<Rightarrow> (Inr r, s1))"
  by (simp add: simulateExecution_effect timedFrom_def)

lemma executeCodeTry_routes:
  "executeCodeTry w code ''c'' s = compileAndRunC w code s"
  "executeCodeTry w code ''cpp'' s = compileAndRunCpp w code s"
  "executeCodeTry w code ''python'' s = runPython w code s"
  "executeCodeTry w code ''javascript'' s = runJavaScript w code s"
  "executeCodeTry w code ''typescript'' s = runTypeScript w code s"
  "executeCodeTry w code ''java'' s = compileAndRunJava w code s"
  "executeCodeTry w code ''php'' s = runPhp w code s"
  "executeCodeTry w code ''go'' s = compileAndRunGo w code s"
  by (simp_all add: executeCodeTry_def)

lemma executeCodeTry_default:
  "language \<notin> {''c'', ''cpp'', ''python'', ''javascript'', ''typescript'', ''java'', ''php'', ''go''}
   \<Longrightarrow> executeCodeTry w code language s =
       (case simulateExecution w code language s of (r, s1) \<Rightarrow> (Inr r, s1))"
  by (simp add: executeCodeTry_def)

lemma if_intro: "P a \<Longrightarrow> P b \<Longrightarrow> P (if c then a else b)"
  by simp

lemma executeCodeTry_timed: "timedFrom w (clockReads s) (executeCodeTry w code language s)"
  unfolding executeCodeTry_def
  by (intro if_intro [where P = "timedFrom w (clockReads s)"] backend_effects [THEN conjunct1]
      compileAndRunJava_effect [OF refl, THEN conjunct1] simulate_timed)

lemma executeCodeTry_workspaces:
  "madeWorkspace w ''c-compiler'' s (snd (executeCodeTry w code ''c'' s))"
  "madeWorkspace w ''cpp-compiler'' s (snd (executeCodeTry w code ''cpp'' s))"
  "madeWorkspace w ''python-runner'' s (snd (executeCodeTry w code ''python'' s))"
  "madeWorkspace w ''javascript-runner'' s (snd (executeCodeTry w code ''javascript'' s))"
  "madeWorkspace w ''typescript-runner'' s (snd (executeCodeTry w code ''typescript'' s))"
  "madeWorkspace w ''php-runner'' s (snd (executeCodeTry w code ''php'' s))"
  "madeWorkspace w ''go-compiler'' s (snd (executeCodeTry w code ''go'' s))"
  "findPublicClass code \<noteq> None \<Longrightarrow>
     madeWorkspace w ''java-compiler'' s (snd (executeCodeTry w code ''java'' s))"
proof -
  show "madeWorkspace w ''c-compiler'' s (snd (executeCodeTry w code ''c'' s))"
    "madeWorkspace w ''cpp-compiler'' s (snd (executeCodeTry w code ''cpp'' s))"
    "madeWorkspace w ''python-runner'' s (snd (executeCodeTry w code ''python'' s))"
    "madeWorkspace w ''javascript-runner'' s (snd (executeCodeTry w code ''javascript'' s))"
    "madeWorkspace w ''typescript-runner'' s (snd (executeCodeTry w code ''typescript'' s))"
    "madeWorkspace w ''php-runner'' s (snd (executeCodeTry w code ''php'' s))"
    "madeWorkspace w ''go-compiler'' s (snd (executeCodeTry w code ''go'' s))"
    by (simp_all only: executeCodeTry_routes backend_effects)
  assume "findPublicClass code \<noteq> None"
  then obtain name where n: "findPublicClass code = Some name"
    by auto
  from compileAndRunJava_effect [OF refl, where code = code and w = w and s = s]
  have "madeWorkspace w ''java-compiler'' s (snd (compileAndRunJava w code s))"
    by (simp add: n)
  then show "madeWorkspace w ''java-compiler'' s (snd (executeCodeTry w code ''java'' s))"
    by (simp only: executeCodeTry_routes)
qed

lemma madeWorkspace_clock [simp]:
  "madeWorkspace w affix (s\<lparr>clockReads := n\<rparr>) s' = madeWorkspace w affix s s'"
  "madeWorkspace w affix s (s'\<lparr>clockReads := n\<rparr>) = madeWorkspace w affix s s'"
  by (simp_all add: madeWorkspace_def split: sum.splits)

lemma executeCode_snd:
  "snd (executeCode w code language s) =
     (case executeCodeTry w code language (s\<lparr>clockReads := Suc (clockReads s)\<rparr>) of
        (Inr r, s1) \<Rightarrow> s1
      | (Inl e, s1) \<Rightarrow> s1\<lparr>clockReads := Suc (clockReads s1)\<rparr>)"
  by (simp add: executeCode_def now_def Let_def split: prod.splits sum.splits)

lemma executeCode_keeps:
  assumes "madeWorkspace w affix (s\<lparr>clockReads := Suc (clockReads s)\<rparr>)
     (snd (executeCodeTry w code language (s\<lparr>clockReads := Suc (clockReads s)\<rparr>)))"
  shows "madeWorkspace w affix s (snd (executeCode w code language s))"
proof -
  define s0 where "s0 = s\<lparr>clockReads := Suc (clockReads s)\<rparr>"
  obtain res s1 where t: "executeCodeTry w code language s0 = (res, s1)"
    by (cases "executeCodeTry w code language s0")
  from assms t have "madeWorkspace w affix s s1"
    by (simp add: s0_def)
  with t show ?thesis
    unfolding executeCode_snd s0_def [symmetric] by (cases res) simp_all
qed

lemma compile_failure:
  assumes "mkdirResult w affix (length (tracked s)) = Inr tmpDir"
    and "writeFileResult w (pathJoin tmpDir fileName) code = None"
    and "execResult w cmd = Rejected out err"
  shows "prepareWorkspace w affix fileName code (s\<lparr>clockReads := Suc (clockReads s)\<rparr>) =
      (Inr tmpDir, s\<lparr>clockReads := Suc (clockReads s), workspaces := tmpDir # workspaces s,
         tracked := tmpDir # tracked s, files := (pathJoin tmpDir fileName, code) # files s\<rparr>)"
    and "compilePhase w cmd (clock w (clockReads s))
      (s\<lparr>clockReads := Suc (clockReads s), workspaces := tmpDir # workspaces s,
         tracked := tmpDir # tracked s, files := (pathJoin tmpDir fileName, code) # files s\<rparr>) =
      (Some \<lparr>outputText = '''',
         error = Some (case err of None \<Rightarrow> ''Compilation error''
                       | Some d \<Rightarrow> if d = [] then ''Compilation error'' else d),
         executionTime = clock w (Suc (clockReads s)) - clock w (clockReads s)\<rparr>,
       s\<lparr>clockReads := clockReads s + 2, workspaces := tmpDir # workspaces s,
         tracked := tmpDir # tracked s, files := (pathJoin tmpDir fileName, code) # files s,
         spawned := cmd # spawned s\<rparr>)"
  using assms
  by (simp_all add: prepareWorkspace_def mkdirSync_def writeFile_def compilePhase_def
      execAsync_def now_def orElse_def)

lemma prepareWorkspace_thrown:
  "thrownOf (fst (prepareWorkspace w affix fileName code s)) =
     (case mkdirResult w affix (length (tracked s)) of
        Inl e \<Rightarrow> Some e
      | Inr dir \<Rightarrow> writeFileResult w (pathJoin dir fileName) code)"
  by (simp add: prepareWorkspace_def mkdirSync_def writeFile_def thrownOf_def
      split: sum.splits option.splits)

lemma runWith_thrown:
  "thrownOf (fst (runWith w affix fileName tool fb code s)) =
     thrownOf (fst (prepareWorkspace w affix fileName code (s\<lparr>clockReads := Suc (clockReads s)\<rparr>)))"
  by (simp add: runWith_def now_def Let_def thrownOf_def split: prod.splits sum.splits)

lemma compileAndRun_thrown:
  "thrownOf (fst (compileAndRun w affix fileName cmd code s)) =
     thrownOf (fst (prepareWorkspace w affix fileName code (s\<lparr>clockReads := Suc (clockReads s)\<rparr>)))"
  by (simp add: compileAndRun_def now_def Let_def thrownOf_def
      split: prod.splits sum.splits option.splits)

lemma compileAndRunJava_thrown:
  "thrownOf (fst (compileAndRunJava w code s)) =
     (case findPublicClass code of
        None \<Rightarrow> None
      | Some name \<Rightarrow>
          thrownOf (fst (prepareWorkspace w ''java-compiler'' (name @ ''.java'') code
            (s\<lparr>clockReads := Suc (clockReads s)\<rparr>))))"
  by (simp add: compileAndRunJava_def now_def Let_def thrownOf_def
      split: prod.splits sum.splits option.splits)

lemma simulate_thrown:
  "thrownOf (fst (case simulateExecution w code language s of (r, s1) \<Rightarrow> (Inr r, s1))) = None"
  by (simp add: thrownOf_def split: prod.splits)

lemma executeCodeTry_thrown:
  "thrownOf (fst (executeCodeTry w code language s)) =
     (case backendWorkspace language code of
        None \<Rightarrow> None
      | Some (affix, fileName) \<Rightarrow>
          (case mkdirResult w affix (length (tracked s)) of
             Inl e \<Rightarrow> Some e
           | Inr dir \<Rightarrow> writeFileResult w (pathJoin dir fileName) code))"
  unfolding executeCodeTry_def backendWorkspace_def compileAndRunC_def compileAndRunCpp_def
    runPython_def runJavaScript_def runTypeScript_def runPhp_def compileAndRunGo_def
  by (simp add: runWith_thrown compileAndRun_thrown compileAndRunJava_thrown simulate_thrown
      prepareWorkspace_thrown split: option.splits)

section \<open>Claims about the syntax checker\<close>

text \<open>
  C6. For \<open>languageId\<close> exactly \<open>c\<close> or \<open>cpp\<close> and code that is not blank,
  \<open>checkSyntax\<close> tests in this order: (1) the code contains neither \<open>main(\<close> nor
  \<open>main (\<close>; (2) the code contains \<open>printf(\<close> but no semicolon; (3) after replacing
  string literals, then character literals, then removing line comments, then block
  comments, there are more opening than closing braces. The first test that holds
  gives its error; when none holds the result is \<open>hasError = False\<close>. The four
  substitutions work from left to right: a literal, from its quote over characters
  other than the quote and the backslash or backslash-escaped characters to the next
  such quote, becomes two quotes, and a quote that opens no literal stays; a line
  comment runs from two slashes to the end of its line; a block comment runs from
  slash-star to the first star-slash after it, and one that is never closed stays.
\<close>

theorem checkSyntax_c_cpp:
  "((languageId = ''c'' \<or> languageId = ''cpp'') \<and> trim code \<noteq> [] \<longrightarrow>
   checkSyntax code languageId =
     (if \<not> (\<exists>a b. code = a @ ''main('' @ b) \<and> \<not> (\<exists>a b. code = a @ ''main ('' @ b) then
        \<lparr>hasError = True, errorMessage = Some
          ''Error: missing 'main' function. Every C/C++ program must have a main function.''\<rparr>
      else if (\<exists>a b. code = a @ ''printf('' @ b) \<and> \<not> (\<exists>a b. code = a @ '';'' @ b) then
        \<lparr>hasError = True, errorMessage = Some (''Syntax Error: missing semicolon ';'' @ [SQUOTE])\<rparr>
      else if countChar CHR ''}''
                (stripBlockComments (stripLineComments
                   (replaceQuoted SQUOTE (replaceQuoted DQUOTE code))))
              < countChar CHR ''{''
                (stripBlockComments (stripLineComments
                   (replaceQuoted SQUOTE (replaceQuoted DQUOTE code)))) then
        \<lparr>hasError = True, errorMessage = Some (''Error: missing closing curly brace '}'' @ [SQUOTE])\<rparr>
      else \<lparr>hasError = False, errorMessage = None\<rparr>))
   \<and> (q = DQUOTE \<or> q = SQUOTE \<longrightarrow>
        replaceQuoted q [] = [] \<and>
        (c \<noteq> q \<longrightarrow> replaceQuoted q (c # cs) = c # replaceQuoted q cs) \<and>
        (literalBody q m \<longrightarrow> replaceQuoted q (q # m @ q # r) = q # q # replaceQuoted q r) \<and>
        (\<not> (\<exists>m r. literalBody q m \<and> cs = m @ q # r) \<longrightarrow>
           replaceQuoted q (q # cs) = q # replaceQuoted q cs))
   \<and> stripLineComments [] = []
   \<and> (list_all (\<lambda>x. \<not> isLineTerminator x) cmt \<and> (r = [] \<or> isLineTerminator (hd r)) \<longrightarrow>
        stripLineComments (''//'' @ cmt @ r) = stripLineComments r)
   \<and> (\<not> (\<exists>r. c # cs = ''//'' @ r) \<longrightarrow> stripLineComments (c # cs) = c # stripLineComments cs)
   \<and> stripBlockComments [] = []
   \<and> (\<not> (\<exists>a b. cmt = a @ ''*/'' @ b) \<longrightarrow>
        stripBlockComments (''/*'' @ cmt @ ''*/'' @ r) = stripBlockComments r)
   \<and> (\<not> (\<exists>a b. cs = a @ ''*/'' @ b) \<longrightarrow>
        stripBlockComments (''/*'' @ cs) = CHR ''/'' # stripBlockComments (CHR ''*'' # cs))
   \<and> (\<not> (\<exists>r. c # cs = ''/*'' @ r) \<longrightarrow> stripBlockComments (c # cs) = c # stripBlockComments cs)
   \<and> countChar x s = length (filter (\<lambda>y. y = x) s)
   \<and> checkSyntax braceInString ''c'' = \<lparr>hasError = False, errorMessage = None\<rparr>
   \<and> checkSyntax braceInChar ''c'' = \<lparr>hasError = False, errorMessage = None\<rparr>
   \<and> checkSyntax braceInLineComment ''cpp'' = \<lparr>hasError = False, errorMessage = None\<rparr>
   \<and> checkSyntax braceInBlockComment ''cpp'' = \<lparr>hasError = False, errorMessage = None\<rparr>
   \<and> checkSyntax slashesInString ''c'' = \<lparr>hasError = False, errorMessage = None\<rparr>
   \<and> checkSyntax escapedQuoteInString ''c'' = \<lparr>hasError = False, errorMessage = None\<rparr>
   \<and> checkSyntax closingInComment ''c'' =
       \<lparr>hasError = True, errorMessage = Some (''Error: missing closing curly brace '}'' @ [SQUOTE])\<rparr>"
proof (intro conjI)
  show "(languageId = ''c'' \<or> languageId = ''cpp'') \<and> trim code \<noteq> [] \<longrightarrow>
   checkSyntax code languageId =
     (if \<not> (\<exists>a b. code = a @ ''main('' @ b) \<and> \<not> (\<exists>a b. code = a @ ''main ('' @ b) then
        \<lparr>hasError = True, errorMessage = Some
          ''Error: missing 'main' function. Every C/C++ program must have a main function.''\<rparr>
      else if (\<exists>a b. code = a @ ''printf('' @ b) \<and> \<not> (\<exists>a b. code = a @ '';'' @ b) then
        \<lparr>hasError = True, errorMessage = Some (''Syntax Error: missing semicolon ';'' @ [SQUOTE])\<rparr>
      else if countChar CHR ''}''
                (stripBlockComments (stripLineComments
                   (replaceQuoted SQUOTE (replaceQuoted DQUOTE code))))
              < countChar CHR ''{''
                (stripBlockComments (stripLineComments
                   (replaceQuoted SQUOTE (replaceQuoted DQUOTE code)))) then
        \<lparr>hasError = True, errorMessage = Some (''Error: missing closing curly brace '}'' @ [SQUOTE])\<rparr>
      else \<lparr>hasError = False, errorMessage = None\<rparr>)"
    by (simp add: checkSyntax_def checkSyntaxC_def includes_str_iff codeWithoutStrings_def
        syntaxError_def noSyntaxError_def Let_def del: append_eq_append_conv2)
  show "q = DQUOTE \<or> q = SQUOTE \<longrightarrow>
        replaceQuoted q [] = [] \<and>
        (c \<noteq> q \<longrightarrow> replaceQuoted q (c # cs) = c # replaceQuoted q cs) \<and>
        (literalBody q m \<longrightarrow> replaceQuoted q (q # m @ q # r) = q # q # replaceQuoted q r) \<and>
        (\<not> (\<exists>m r. literalBody q m \<and> cs = m @ q # r) \<longrightarrow>
           replaceQuoted q (q # cs) = q # replaceQuoted q cs)"
  proof (intro impI conjI)
    assume "q = DQUOTE \<or> q = SQUOTE"
    then have b: "q \<noteq> BACKSLASH"
      by auto
    show "replaceQuoted q [] = []"
      by simp
    show "replaceQuoted q (c # cs) = c # replaceQuoted q cs" if "c \<noteq> q"
      using that by simp
    show "replaceQuoted q (q # m @ q # r) = q # q # replaceQuoted q r" if "literalBody q m"
      using b that by (rule replaceQuoted_literal)
    show "replaceQuoted q (q # cs) = q # replaceQuoted q cs"
      if "\<not> (\<exists>m r. literalBody q m \<and> cs = m @ q # r)"
      using b that by (rule replaceQuoted_open)
  qed
  show "stripLineComments [] = []" "stripBlockComments [] = []"
    by simp_all
  show "list_all (\<lambda>x. \<not> isLineTerminator x) cmt \<and> (r = [] \<or> isLineTerminator (hd r)) \<longrightarrow>
        stripLineComments (''//'' @ cmt @ r) = stripLineComments r"
    using stripLineComments_comment by blast
  show "\<not> (\<exists>r. c # cs = ''//'' @ r) \<longrightarrow> stripLineComments (c # cs) = c # stripLineComments cs"
    using stripLineComments_other by blast
  show "\<not> (\<exists>a b. cmt = a @ ''*/'' @ b) \<longrightarrow>
        stripBlockComments (''/*'' @ cmt @ ''*/'' @ r) = stripBlockComments r"
    using stripBlockComments_comment by blast
  show "\<not> (\<exists>a b. cs = a @ ''*/'' @ b) \<longrightarrow>
        stripBlockComments (''/*'' @ cs) = CHR ''/'' # stripBlockComments (CHR ''*'' # cs)"
    using stripBlockComments_open by blast
  show "\<not> (\<exists>r. c # cs = ''/*'' @ r) \<longrightarrow> stripBlockComments (c # cs) = c # stripBlockComments cs"
    using stripBlockComments_other by blast
  show "countChar x s = length (filter (\<lambda>y. y = x) s)"
    by (rule countChar_def)
  show "checkSyntax braceInString ''c'' = \<lparr>hasError = False, errorMessage = None\<rparr>"
    "checkSyntax braceInChar ''c'' = \<lparr>hasError = False, errorMessage = None\<rparr>"
    "checkSyntax braceInLineComment ''cpp'' = \<lparr>hasError = False, errorMessage = None\<rparr>"
    "checkSyntax braceInBlockComment ''cpp'' = \<lparr>hasError = False, errorMessage = None\<rparr>"
    "checkSyntax slashesInString ''c'' = \<lparr>hasError = False, errorMessage = None\<rparr>"
    "checkSyntax escapedQuoteInString ''c'' = \<lparr>hasError = False, errorMessage = None\<rparr>"
    "checkSyntax closingInComment ''c'' =
       \<lparr>hasError = True, errorMessage = Some (''Error: missing closing curly brace '}'' @ [SQUOTE])\<rparr>"
    by (rule c_examples)+
qed

theorem checkSyntax_c_cpp_witness:
  "trim ''int main(){return 0;}'' \<noteq> [] \<and>
   checkSyntax ''int main(){return 0;}'' ''c'' = \<lparr>hasError = False, errorMessage = None\<rparr> \<and>
   trim ''int f(){return 0;}'' \<noteq> [] \<and>
   checkSyntax ''int f(){return 0;}'' ''cpp'' =
     \<lparr>hasError = True, errorMessage = Some
        ''Error: missing 'main' function. Every C/C++ program must have a main function.''\<rparr> \<and>
   trim ''int main(){{return 0;}'' \<noteq> [] \<and>
   checkSyntax ''int main(){{return 0;}'' ''c'' =
     \<lparr>hasError = True,
      errorMessage = Some (''Error: missing closing curly brace '}'' @ [SQUOTE])\<rparr> \<and>
   literalBody DQUOTE ''{'' \<and>
   replaceQuoted DQUOTE (DQUOTE # ''{'' @ DQUOTE # ''); }'') =
     DQUOTE # DQUOTE # replaceQuoted DQUOTE ''); }'' \<and>
   list_all (\<lambda>x. \<not> isLineTerminator x) '' {'' \<and>
   stripLineComments (''//'' @ '' {'' @ [NEWLINE, CHR ''}'']) =
     stripLineComments [NEWLINE, CHR ''}''] \<and>
   stripBlockComments (''/*'' @ '' { '' @ ''*/'' @ '' }'') = stripBlockComments '' }'' \<and>
   trim braceInString \<noteq> [] \<and>
   stripBlockComments (stripLineComments (replaceQuoted SQUOTE (replaceQuoted DQUOTE braceInString)))
     = ''int main(){ puts('' @ [DQUOTE, DQUOTE] @ ''); }'' \<and>
   checkSyntax braceInString ''c'' = \<lparr>hasError = False, errorMessage = None\<rparr> \<and>
   trim closingInComment \<noteq> [] \<and>
   stripBlockComments (stripLineComments (replaceQuoted SQUOTE (replaceQuoted DQUOTE closingInComment)))
     = ''int main(){ if (x) { '' @ [NEWLINE] @ ''}'' \<and>
   checkSyntax closingInComment ''cpp'' =
     \<lparr>hasError = True, errorMessage = Some (''Error: missing closing curly brace '}'' @ [SQUOTE])\<rparr>"
proof -
  have t: "trim ''int main(){return 0;}'' \<noteq> []" "trim ''int f(){return 0;}'' \<noteq> []"
    "trim ''int main(){{return 0;}'' \<noteq> []"
    by code_simp+
  have e: "checkSyntax ''int main(){return 0;}'' ''c'' = \<lparr>hasError = False, errorMessage = None\<rparr>"
    "checkSyntax ''int f(){return 0;}'' ''cpp'' =
     \<lparr>hasError = True, errorMessage = Some
        ''Error: missing 'main' function. Every C/C++ program must have a main function.''\<rparr>"
    "checkSyntax ''int main(){{return 0;}'' ''c'' =
     \<lparr>hasError = True,
      errorMessage = Some (''Error: missing closing curly brace '}'' @ [SQUOTE])\<rparr>"
    by code_simp+
  have l: "literalBody DQUOTE ''{''"
    by (intro literalBody.intros) simp_all
  have n: "list_all (\<lambda>x. \<not> isLineTerminator x) '' {''"
    by (simp add: isLineTerminator_def)
  note th = checkSyntax_c_cpp [where q = DQUOTE and m = "''{''" and r = "''); }''"]
  have a: "replaceQuoted DQUOTE (DQUOTE # ''{'' @ DQUOTE # ''); }'') =
     DQUOTE # DQUOTE # replaceQuoted DQUOTE ''); }''"
    using th [THEN conjunct2, THEN conjunct1] l by blast
  have b: "stripLineComments (''//'' @ '' {'' @ [NEWLINE, CHR ''}'']) =
     stripLineComments [NEWLINE, CHR ''}'']"
    by (simp add: isLineTerminator_def)
  have c: "stripBlockComments (''/*'' @ '' { '' @ ''*/'' @ '' }'') = stripBlockComments '' }''"
    by simp
  have "checkSyntax braceInString ''c'' =
     (if \<not> (\<exists>a b. braceInString = a @ ''main('' @ b) \<and>
         \<not> (\<exists>a b. braceInString = a @ ''main ('' @ b) then
        \<lparr>hasError = True, errorMessage = Some
          ''Error: missing 'main' function. Every C/C++ program must have a main function.''\<rparr>
      else if (\<exists>a b. braceInString = a @ ''printf('' @ b) \<and>
         \<not> (\<exists>a b. braceInString = a @ '';'' @ b) then
        \<lparr>hasError = True, errorMessage = Some (''Syntax Error: missing semicolon ';'' @ [SQUOTE])\<rparr>
      else if countChar CHR ''}''
                (stripBlockComments (stripLineComments
                   (replaceQuoted SQUOTE (replaceQuoted DQUOTE braceInString))))
              < countChar CHR ''{''
                (stripBlockComments (stripLineComments
                   (replaceQuoted SQUOTE (replaceQuoted DQUOTE braceInString)))) then
        \<lparr>hasError = True, errorMessage = Some (''Error: missing closing curly brace '}'' @ [SQUOTE])\<rparr>
      else \<lparr>hasError = False, errorMessage = None\<rparr>)"
    by (rule checkSyntax_c_cpp [where code = braceInString and languageId = "''c''",
          THEN conjunct1, THEN mp]) (simp add: c_examples_pre)
  then have s1: "checkSyntax braceInString ''c'' = \<lparr>hasError = False, errorMessage = None\<rparr>"
    unfolding includes_str_iff [symmetric] c_examples_pre(4)
    by (simp only: c_examples_pre(2,3,5,6) simp_thms if_True if_False less_irrefl)
  have "checkSyntax closingInComment ''cpp'' =
     (if \<not> (\<exists>a b. closingInComment = a @ ''main('' @ b) \<and>
         \<not> (\<exists>a b. closingInComment = a @ ''main ('' @ b) then
        \<lparr>hasError = True, errorMessage = Some
          ''Error: missing 'main' function. Every C/C++ program must have a main function.''\<rparr>
      else if (\<exists>a b. closingInComment = a @ ''printf('' @ b) \<and>
         \<not> (\<exists>a b. closingInComment = a @ '';'' @ b) then
        \<lparr>hasError = True, errorMessage = Some (''Syntax Error: missing semicolon ';'' @ [SQUOTE])\<rparr>
      else if countChar CHR ''}''
                (stripBlockComments (stripLineComments
                   (replaceQuoted SQUOTE (replaceQuoted DQUOTE closingInComment))))
              < countChar CHR ''{''
                (stripBlockComments (stripLineComments
                   (replaceQuoted SQUOTE (replaceQuoted DQUOTE closingInComment)))) then
        \<lparr>hasError = True, errorMessage = Some (''Error: missing closing curly brace '}'' @ [SQUOTE])\<rparr>
      else \<lparr>hasError = False, errorMessage = None\<rparr>)"
    by (rule checkSyntax_c_cpp [where code = closingInComment and languageId = "''cpp''",
          THEN conjunct1, THEN mp]) (simp add: c_examples_pre)
  then have s2: "checkSyntax closingInComment ''cpp'' =
     \<lparr>hasError = True, errorMessage = Some (''Error: missing closing curly brace '}'' @ [SQUOTE])\<rparr>"
    unfolding includes_str_iff [symmetric] c_examples_pre(10)
    by (simp only: c_examples_pre(8,9,11,12) simp_thms if_True if_False; simp)
  from t e l a n b c c_examples_pre(1,4,7,10) s1 s2 show ?thesis
    by (intro conjI)
qed

text \<open>
  C7. For \<open>languageId\<close> \<open>javascript\<close> or \<open>typescript\<close>, code that is not blank and
  stripped braces that balance, the checker scans the code once. Every newline
  increments the line counter, escaped or not and inside a string or not; a backslash
  that is not itself escaped escapes exactly the next character, which then changes
  nothing but the line counter. What the scan reports is stated on the text alone.
  Every text has one of two shapes. Either it is a sequence of characters that are
  neither quotes nor backslashes, of backslashes each followed by one character, and of
  whole strings (a quote, then characters other than that quote and the backslash or
  backslashes each followed by one character, then the same quote), with at most a
  trailing backslash: then there is no error. Or such a sequence \<open>pre\<close> is followed by a
  quote \<open>q\<close> and by text in which no unescaped \<open>q\<close> occurs: then the result is
  \<open>SyntaxError: unterminated <kind> starting at line <N>\<close>, the kind being that of \<open>q\<close>
  and \<open>N\<close> one more than the number of newlines in \<open>pre\<close>. A closed string holding a
  brace and a string holding an escaped quote give no error; a template literal opened on
  the second line and never closed is reported at line 2, and \<open>const s = "unterminated\<close>,
  a newline and \<open>string\<close> is reported as an unterminated double quote at line 1.
\<close>

theorem checkSyntax_js_unterminated:
  "currentLine (scanned code) = 1 + countChar NEWLINE code
   \<and> escapeNext (scanStep s c) = (\<not> escapeNext s \<and> c = BACKSLASH)
   \<and> (escapeNext s \<longrightarrow>
        scanStep s c = s\<lparr>escapeNext := False,
          currentLine := currentLine s + (if c = NEWLINE then 1 else 0)\<rparr>)
   \<and> (closedShape code \<or> (\<exists>pre q m. openShape code pre q m))
   \<and> ((languageId = ''javascript'' \<or> languageId = ''typescript'') \<and> trim code \<noteq> [] \<and>
       countChar CHR ''{'' (codeWithoutStrings code) \<le> countChar CHR ''}'' (codeWithoutStrings code)
       \<longrightarrow>
       (closedShape code \<longrightarrow>
          checkSyntax code languageId = \<lparr>hasError = False, errorMessage = None\<rparr>) \<and>
       (openShape code pre q m \<longrightarrow>
          checkSyntax code languageId =
            \<lparr>hasError = True, errorMessage = Some (''SyntaxError: unterminated '' @ quoteName q @
               '' starting at line '' @ showNat (1 + countChar NEWLINE pre))\<rparr>))
   \<and> checkSyntax closedStringExample ''javascript'' = \<lparr>hasError = False, errorMessage = None\<rparr>
   \<and> checkSyntax escapedQuoteExample ''typescript'' = \<lparr>hasError = False, errorMessage = None\<rparr>
   \<and> checkSyntax openTemplateExample ''javascript'' =
       \<lparr>hasError = True,
        errorMessage = Some ''SyntaxError: unterminated template literal starting at line 2''\<rparr>
   \<and> checkSyntax unterminatedExample ''javascript'' =
       \<lparr>hasError = True,
        errorMessage = Some ''SyntaxError: unterminated double quote starting at line 1''\<rparr>"
proof -
  have steps: "currentLine (scanned code) = 1 + countChar NEWLINE code"
    "escapeNext (scanStep s c) = (\<not> escapeNext s \<and> c = BACKSLASH)"
    "escapeNext s \<longrightarrow>
        scanStep s c = s\<lparr>escapeNext := False,
          currentLine := currentLine s + (if c = NEWLINE then 1 else 0)\<rparr>"
    by (rule currentLine_scanned, rule escape_step, rule impI, rule escaped_char_skipped)
  have report: "(languageId = ''javascript'' \<or> languageId = ''typescript'') \<and> trim code \<noteq> [] \<and>
       countChar CHR ''{'' (codeWithoutStrings code) \<le> countChar CHR ''}'' (codeWithoutStrings code)
       \<longrightarrow>
       (closedShape code \<longrightarrow>
          checkSyntax code languageId = \<lparr>hasError = False, errorMessage = None\<rparr>) \<and>
       (openShape code pre q m \<longrightarrow>
          checkSyntax code languageId =
            \<lparr>hasError = True, errorMessage = Some (''SyntaxError: unterminated '' @ quoteName q @
               '' starting at line '' @ showNat (1 + countChar NEWLINE pre))\<rparr>)"
  proof (rule impI)
    assume a: "(languageId = ''javascript'' \<or> languageId = ''typescript'') \<and> trim code \<noteq> [] \<and>
       countChar CHR ''{'' (codeWithoutStrings code) \<le> countChar CHR ''}'' (codeWithoutStrings code)"
    from a have cs: "checkSyntax code languageId =
        (if inString (scanned code) then
           syntaxError (''SyntaxError: unterminated '' @ stringType (scanned code) @
             '' starting at line '' @ showNat (stringStartLine (scanned code)))
         else noSyntaxError)"
      by (auto simp: checkSyntax_def checkSyntaxJs_def Let_def scanned_def inString_def)
    have c: "checkSyntax code languageId = \<lparr>hasError = False, errorMessage = None\<rparr>"
      if "closedShape code"
    proof -
      from that obtain p t where "code = p @ t" "outsideText p" "pendingEscape t"
        unfolding closedShape_def by (elim exE conjE)
      then have "\<not> inString (scanned code)"
        using scanned_closed [of p t] by simp
      with cs show ?thesis
        by (simp add: noSyntaxError_def)
    qed
    have "checkSyntax code languageId =
            \<lparr>hasError = True, errorMessage = Some (''SyntaxError: unterminated '' @ quoteName q @
               '' starting at line '' @ showNat (1 + countChar NEWLINE pre))\<rparr>"
      if "openShape code pre q m"
    proof -
      from that obtain t where "code = pre @ q # m @ t" "outsideText pre" "isStringQuote q"
        "scanBody q m" "pendingEscape t"
        unfolding openShape_def by (elim exE conjE)
      then have "inString (scanned code) \<and> stringType (scanned code) = quoteName q \<and>
          stringStartLine (scanned code) = 1 + countChar NEWLINE pre"
        using scanned_open [of pre q m t] by simp
      with cs show ?thesis
        by (simp add: syntaxError_def)
    qed
    with c show "(closedShape code \<longrightarrow>
          checkSyntax code languageId = \<lparr>hasError = False, errorMessage = None\<rparr>) \<and>
       (openShape code pre q m \<longrightarrow>
          checkSyntax code languageId =
            \<lparr>hasError = True, errorMessage = Some (''SyntaxError: unterminated '' @ quoteName q @
               '' starting at line '' @ showNat (1 + countChar NEWLINE pre))\<rparr>)"
      by (intro conjI impI)
  qed
  show ?thesis
    by (intro conjI steps text_shape js_examples report)
qed

theorem checkSyntax_js_unterminated_witness:
  "trim unterminatedExample \<noteq> [] \<and>
   countChar CHR ''{'' (codeWithoutStrings unterminatedExample)
     \<le> countChar CHR ''}'' (codeWithoutStrings unterminatedExample) \<and>
   openShape unterminatedExample ''const s = '' DQUOTE (''unterminated'' @ [NEWLINE] @ ''string'') \<and>
   checkSyntax unterminatedExample ''javascript'' =
     \<lparr>hasError = True,
      errorMessage = Some ''SyntaxError: unterminated double quote starting at line 1''\<rparr> \<and>
   trim escapedQuoteExample \<noteq> [] \<and>
   countChar CHR ''{'' (codeWithoutStrings escapedQuoteExample)
     \<le> countChar CHR ''}'' (codeWithoutStrings escapedQuoteExample) \<and>
   closedShape escapedQuoteExample \<and>
   checkSyntax escapedQuoteExample ''typescript'' = \<lparr>hasError = False, errorMessage = None\<rparr>"
proof -
  have o: "checkSyntax unterminatedExample ''javascript'' =
      \<lparr>hasError = True, errorMessage = Some (''SyntaxError: unterminated '' @ quoteName DQUOTE @
         '' starting at line '' @ showNat (1 + countChar NEWLINE ''const s = ''))\<rparr>"
    by (rule checkSyntax_js_unterminated [where languageId = "''javascript''"
          and code = unterminatedExample, THEN conjunct2, THEN conjunct2, THEN conjunct2,
          THEN conjunct2, THEN conjunct1, THEN mp, THEN conjunct2, THEN mp,
          OF _ unterminatedExample_shape])
       (simp add: js_examples_pre(1,2))
  have c: "checkSyntax escapedQuoteExample ''typescript'' = \<lparr>hasError = False, errorMessage = None\<rparr>"
    by (rule checkSyntax_js_unterminated [where languageId = "''typescript''"
          and code = escapedQuoteExample, THEN conjunct2, THEN conjunct2, THEN conjunct2,
          THEN conjunct2, THEN conjunct1, THEN mp, THEN conjunct1, THEN mp,
          OF _ escapedQuoteExample_shape])
       (simp add: js_examples_pre(3,4))
  note o' = o [unfolded js_examples_pre(5)]
  show ?thesis
    by (intro conjI js_examples_pre(1,2,3,4) unterminatedExample_shape escapedQuoteExample_shape o' c)
qed

text \<open>
  C8, as stated, fails: in \<open>indent3\<close> the line with three leading spaces is neither
  blank nor a comment and its indent is not a multiple of 2 or 4, yet no error is
  reported, because it is the first indented line.
\<close>

theorem checkSyntax_python_counterexample:
  "''   y'' \<in> set (nonBlankLines indent3) \<and> \<not> startsWith (trim ''   y'') ''#'' \<and>
   indentOf ''   y'' = 3 \<and> (3::nat) mod 2 \<noteq> 0 \<and> (3::nat) mod 4 \<noteq> 0 \<and>
   trim indent3 \<noteq> [] \<and>
   checkSyntax indent3 ''python'' = \<lparr>hasError = False, errorMessage = None\<rparr>"
  by (simp add: nonBlankLines_examples trim_examples checkSyntax_python_examples
      positiveIndents_examples)

text \<open>
  C8, amended. For \<open>languageId\<close> \<open>python\<close> and code that is not blank, take the
  non-blank lines that are not comments and keep their indents that are positive, in
  order. The checker reports \<open>IndentationError: inconsistent indentation detected\<close>
  exactly when some indent after the first in that sequence is not a multiple of 2 or
  4, or is larger than its predecessor by a difference that is not a multiple of 2 or
  4; otherwise it reports no error. The first indented line is never checked. Lines
  indented 3 and then 7 spaces are flagged; lines indented uniformly by 4 are not.
\<close>

theorem checkSyntax_python:
  "(trim code \<noteq> [] \<longrightarrow>
      checkSyntax code ''python'' =
        (if \<exists>k. Suc k < length (positiveIndents (nonBlankLines code)) \<and>
               badIndentStep (positiveIndents (nonBlankLines code) ! k)
                 (positiveIndents (nonBlankLines code) ! Suc k)
         then \<lparr>hasError = True,
                errorMessage = Some ''IndentationError: inconsistent indentation detected''\<rparr>
         else \<lparr>hasError = False, errorMessage = None\<rparr>))
   \<and> checkSyntax indent37 ''python'' =
       \<lparr>hasError = True,
        errorMessage = Some ''IndentationError: inconsistent indentation detected''\<rparr>
   \<and> checkSyntax indent44 ''python'' = \<lparr>hasError = False, errorMessage = None\<rparr>"
proof (intro conjI impI)
  assume "trim code \<noteq> []"
  then have "checkSyntax code ''python'' =
      (if hasBadPair (positiveIndents (nonBlankLines code))
       then syntaxError ''IndentationError: inconsistent indentation detected''
       else noSyntaxError)"
    by (simp add: checkSyntax_def checkSyntaxPython_def indentLoop_pairs)
  then show "checkSyntax code ''python'' =
        (if \<exists>k. Suc k < length (positiveIndents (nonBlankLines code)) \<and>
               badIndentStep (positiveIndents (nonBlankLines code) ! k)
                 (positiveIndents (nonBlankLines code) ! Suc k)
         then \<lparr>hasError = True,
                errorMessage = Some ''IndentationError: inconsistent indentation detected''\<rparr>
         else \<lparr>hasError = False, errorMessage = None\<rparr>)"
    by (simp only: hasBadPair_def syntaxError_def noSyntaxError_def)
next
  show "checkSyntax indent37 ''python'' =
       \<lparr>hasError = True,
        errorMessage = Some ''IndentationError: inconsistent indentation detected''\<rparr>"
    by (rule checkSyntax_python_examples)
  show "checkSyntax indent44 ''python'' = \<lparr>hasError = False, errorMessage = None\<rparr>"
    by (rule checkSyntax_python_examples)
qed

theorem checkSyntax_python_witness:
  "trim indent37 \<noteq> [] \<and>
   positiveIndents (nonBlankLines indent37) = [3, 7] \<and> badIndentStep 3 7 \<and>
   checkSyntax indent37 ''python'' =
     \<lparr>hasError = True,
      errorMessage = Some ''IndentationError: inconsistent indentation detected''\<rparr>"
proof -
  have p: "positiveIndents (nonBlankLines indent37) = [3, 7]"
    by (rule positiveIndents_examples)
  have b: "badIndentStep 3 7"
    by (simp add: badIndentStep_def)
  have "\<exists>k. Suc k < length (positiveIndents (nonBlankLines indent37)) \<and>
      badIndentStep (positiveIndents (nonBlankLines indent37) ! k)
        (positiveIndents (nonBlankLines indent37) ! Suc k)"
    unfolding p using b by (intro exI [of _ 0]) simp
  with checkSyntax_python [of indent37] trim_examples(2) p b show ?thesis
    by simp
qed

section \<open>Claims about the output simulator\<close>

text \<open>
  C9, as stated, fails for python: the argument of \<open>print("it's")\<close> is a quoted
  literal, yet the output line is the raw text with its quotes, not the literal; and
  for \<open>print(str(x))\<close> the output line is \<open>str(x\<close>, not the argument text.
\<close>

theorem simulateExecution_literal_counterexample:
  "outputText (fst (simulateExecution failWorld printItsExample ''python'' initState)) =
     [DQUOTE] @ ''it's'' @ [DQUOTE, NEWLINE] \<and>
   [DQUOTE] @ ''it's'' @ [DQUOTE, NEWLINE] \<noteq> ''it's'' @ [NEWLINE] \<and>
   outputText (fst (simulateExecution failWorld printCallExample ''python'' initState)) =
     ''str(x'' @ [NEWLINE] \<and>
   ''str(x'' @ [NEWLINE] \<noteq> ''str(x)'' @ [NEWLINE]"
  by (simp add: simulateExecution_fst simulator_examples)

text \<open>
  C9, amended. \<open>simulateExecution\<close> never fails: for every code and \<open>languageId\<close> it
  returns a result with \<open>error = null\<close> and a non-empty output. For html and css the
  output is the fixed rendering message, for an identifier without extraction the fixed
  not-implemented message; for c, cpp, python, javascript and typescript it is one line
  per match of the language's print pattern, found left to right, each search starting
  where the previous match ended, and the fixed executed-successfully-with-no-output
  message when there is no match. For python a match is \<open>print\<close>, optional whitespace,
  an opening parenthesis and optional whitespace, followed either by an optional \<open>f\<close>,
  a quote of either kind, a text without any quote character, a quote of either kind
  and at once the closing parenthesis, which gives that text; or, when the input does
  not continue in that way, by the raw text up to the first closing parenthesis, which
  gives that raw text. So \<open>print("hello")\<close> followed on the next line by \<open>print(x)\<close>
  gives \<open>hello\nx\n\<close>, while \<open>print("it's")\<close> gives the raw \<open>"it's"\<close> and
  \<open>print(str(x))\<close> gives \<open>str(x\<close>. The patterns of the other languages are
  characterised in the same way.
\<close>

theorem simulateExecution_output:
  "error (fst (simulateExecution w code languageId s)) = None
   \<and> outputText (fst (simulateExecution w code languageId s)) \<noteq> []
   \<and> outputText (fst (simulateExecution w code languageId s)) =
     (if languageId = ''html'' \<or> languageId = ''css'' then
        ''Frontend code doesn't produce console output directly.'' @ [NEWLINE] @
        ''Rendering in the preview panel.''
      else if languageId \<notin> {''c'', ''cpp'', ''python'', ''javascript'', ''typescript''} then
        ''Language execution simulation not implemented yet.'' @ [NEWLINE] @
        ''Program executed successfully.''
      else if execAll (if languageId = ''c'' then PrintfRe else if languageId = ''cpp'' then CoutRe
                 else if languageId = ''python'' then PyPrintRe else ConsoleLogRe) code = []
      then ''Program executed successfully with no output.''
      else concat (map (\<lambda>g. g @ [NEWLINE])
             (execAll (if languageId = ''c'' then PrintfRe else if languageId = ''cpp'' then CoutRe
                 else if languageId = ''python'' then PyPrintRe else ConsoleLogRe) code)))
   \<and> execAll p [] = []
   \<and> execAll p (c # cs) =
       (case matchAt p (c # cs) of
          Some (g, rest) \<Rightarrow> g # execAll p rest
        | None \<Rightarrow> execAll p cs)
   \<and> (matchAt PyPrintRe t0 = Some (x, r)) =
       (\<exists>t. callPrefix ''print'' ''('' t0 t \<and>
          (quotedForm True t x r \<or>
           (\<not> (\<exists>g' r'. quotedForm True t g' r') \<and> rawForm t x r)))
   \<and> (matchAt ConsoleLogRe t0 = Some (x, r)) =
       (\<exists>t. callPrefix ''console.log'' ''('' t0 t \<and>
          (quotedForm False t x r \<or>
           (\<not> (\<exists>g' r'. quotedForm False t g' r') \<and> rawForm t x r)))
   \<and> (matchAt PrintfRe t0 = Some (x, r)) =
       (\<exists>t. callPrefix ''printf'' ''('' t0 t \<and> literalForm t x r)
   \<and> (matchAt CoutRe t0 = Some (x, r)) =
       (\<exists>t. callPrefix ''cout'' ''<<'' t0 t \<and> literalForm t x r)
   \<and> outputText (fst (simulateExecution w helloExample ''python'' s)) =
       ''hello'' @ [NEWLINE] @ ''x'' @ [NEWLINE]
   \<and> outputText (fst (simulateExecution w printItsExample ''python'' s)) =
       [DQUOTE] @ ''it's'' @ [DQUOTE, NEWLINE]
   \<and> outputText (fst (simulateExecution w printCallExample ''python'' s)) = ''str(x'' @ [NEWLINE]
   \<and> outputText (fst (simulateExecution w ''print(foo)'' ''python'' s)) = ''foo'' @ [NEWLINE]
   \<and> outputText (fst (simulateExecution w ''print  (  x + 1 )'' ''python'' s)) =
       ''x + 1 '' @ [NEWLINE]
   \<and> outputText (fst (simulateExecution w ''print(f'a') print('b' + c)'' ''python'' s)) =
       ''a'' @ [NEWLINE] @ [SQUOTE] @ ''b'' @ [SQUOTE] @ '' + c'' @ [NEWLINE]
   \<and> outputText (fst (simulateExecution w ''x = 1'' ''python'' s)) =
       ''Program executed successfully with no output.''"
proof (intro conjI)
  show "error (fst (simulateExecution w code languageId s)) = None"
    by (simp add: simulateExecution_fst)
  show "outputText (fst (simulateExecution w code languageId s)) \<noteq> []"
    by (simp add: simulateExecution_fst simulatedOutput_nonempty)
  show "outputText (fst (simulateExecution w code languageId s)) =
     (if languageId = ''html'' \<or> languageId = ''css'' then
        ''Frontend code doesn't produce console output directly.'' @ [NEWLINE] @
        ''Rendering in the preview panel.''
      else if languageId \<notin> {''c'', ''cpp'', ''python'', ''javascript'', ''typescript''} then
        ''Language execution simulation not implemented yet.'' @ [NEWLINE] @
        ''Program executed successfully.''
      else if execAll (if languageId = ''c'' then PrintfRe else if languageId = ''cpp'' then CoutRe
                 else if languageId = ''python'' then PyPrintRe else ConsoleLogRe) code = []
      then ''Program executed successfully with no output.''
      else concat (map (\<lambda>g. g @ [NEWLINE])
             (execAll (if languageId = ''c'' then PrintfRe else if languageId = ''cpp'' then CoutRe
                 else if languageId = ''python'' then PyPrintRe else ConsoleLogRe) code)))"
    unfolding simulateExecution_fst CompilerResult.simps by (rule simulatedOutput_extract)
  show "execAll p [] = []"
    by simp
  show "execAll p (c # cs) =
       (case matchAt p (c # cs) of
          Some (g, rest) \<Rightarrow> g # execAll p rest
        | None \<Rightarrow> execAll p cs)"
    by (rule execAll.simps)
  show "(matchAt PyPrintRe t0 = Some (x, r)) =
       (\<exists>t. callPrefix ''print'' ''('' t0 t \<and>
          (quotedForm True t x r \<or>
           (\<not> (\<exists>g' r'. quotedForm True t g' r') \<and> rawForm t x r)))"
    by (rule matchAt_print_iff)
  show "(matchAt ConsoleLogRe t0 = Some (x, r)) =
       (\<exists>t. callPrefix ''console.log'' ''('' t0 t \<and>
          (quotedForm False t x r \<or>
           (\<not> (\<exists>g' r'. quotedForm False t g' r') \<and> rawForm t x r)))"
    by (rule matchAt_consoleLog_iff)
  show "(matchAt PrintfRe t0 = Some (x, r)) =
       (\<exists>t. callPrefix ''printf'' ''('' t0 t \<and> literalForm t x r)"
    by (rule matchAt_printf_iff)
  show "(matchAt CoutRe t0 = Some (x, r)) =
       (\<exists>t. callPrefix ''cout'' ''<<'' t0 t \<and> literalForm t x r)"
    by (rule matchAt_cout_iff)
  show "outputText (fst (simulateExecution w helloExample ''python'' s)) =
       ''hello'' @ [NEWLINE] @ ''x'' @ [NEWLINE]"
    unfolding simulateExecution_fst CompilerResult.simps by (rule helloExample_eval)
  show "outputText (fst (simulateExecution w printItsExample ''python'' s)) =
       [DQUOTE] @ ''it's'' @ [DQUOTE, NEWLINE]"
    "outputText (fst (simulateExecution w printCallExample ''python'' s)) = ''str(x'' @ [NEWLINE]"
    "outputText (fst (simulateExecution w ''print(foo)'' ''python'' s)) = ''foo'' @ [NEWLINE]"
    "outputText (fst (simulateExecution w ''print  (  x + 1 )'' ''python'' s)) =
       ''x + 1 '' @ [NEWLINE]"
    "outputText (fst (simulateExecution w ''print(f'a') print('b' + c)'' ''python'' s)) =
       ''a'' @ [NEWLINE] @ [SQUOTE] @ ''b'' @ [SQUOTE] @ '' + c'' @ [NEWLINE]"
    "outputText (fst (simulateExecution w ''x = 1'' ''python'' s)) =
       ''Program executed successfully with no output.''"
    unfolding simulateExecution_fst CompilerResult.simps by (rule simulator_examples)+
qed

theorem simulateExecution_output_witness:
  "callPrefix ''print'' ''('' ''print  (  x + 1 ) # done'' ''x + 1 ) # done'' \<and>
   \<not> (\<exists>g' r'. quotedForm True ''x + 1 ) # done'' g' r') \<and>
   rawForm ''x + 1 ) # done'' ''x + 1 '' '' # done'' \<and>
   matchAt PyPrintRe ''print  (  x + 1 ) # done'' = Some (''x + 1 '', '' # done'') \<and>
   callPrefix ''print'' ''('' (''print(f'' @ [DQUOTE] @ ''hi'' @ [DQUOTE] @ '')'')
     (''f'' @ [DQUOTE] @ ''hi'' @ [DQUOTE] @ '')'') \<and>
   quotedForm True (''f'' @ [DQUOTE] @ ''hi'' @ [DQUOTE] @ '')'') ''hi'' [] \<and>
   matchAt PyPrintRe (''print(f'' @ [DQUOTE] @ ''hi'' @ [DQUOTE] @ '')'') = Some (''hi'', [])"
proof -
  note m = simulateExecution_output [THEN conjunct2, THEN conjunct2, THEN conjunct2,
      THEN conjunct2, THEN conjunct2, THEN conjunct1, THEN iffD2]
  have a: "matchAt PyPrintRe ''print  (  x + 1 ) # done'' = Some (''x + 1 '', '' # done'')"
    by (rule m, rule exI [of _ "''x + 1 ) # done''"], intro conjI disjI2 print_shapes(1,2,3))
  have b: "matchAt PyPrintRe (''print(f'' @ [DQUOTE] @ ''hi'' @ [DQUOTE] @ '')'') = Some (''hi'', [])"
    by (rule m, rule exI [of _ "''f'' @ [DQUOTE] @ ''hi'' @ [DQUOTE] @ '')''"],
        intro conjI disjI1 print_shapes(4,5))
  show ?thesis
    by (intro conjI print_shapes a b)
qed

section \<open>Claims about the dispatcher and the backends\<close>

text \<open>
  C3, as stated, fails in its last part: the execution time is the difference of two
  readings of the wall clock, and when the clock is set back between them the result
  carries a negative \<open>executionTime\<close>.
\<close>

theorem executeCode_time_counterexample:
  "executeCode backClockWorld ''<p>hi</p>'' ''html'' initState =
     (\<lparr>outputText = ''Frontend code doesn't produce console output directly.'' @ [NEWLINE] @
         ''Rendering in the preview panel.'',
       error = None, executionTime = - 1\<rparr>,
      initState\<lparr>clockReads := 3\<rparr>) \<and>
   executionTime (fst (executeCode backClockWorld ''int main(){}'' ''c'' initState)) = - 1"
  by (simp add: executeCode_def executeCodeTry_def compileAndRunC_def compileAndRun_def
      prepareWorkspace_def mkdirSync_def writeFile_def compilePhase_def runPhase_def
      execAsync_def now_def simulateExecution_def simulatedOutput_def
      backClockWorld_def initState_def Let_def)

text \<open>
  C3, amended. \<open>executeCode\<close> never propagates an exception. Its \<open>try\<close> block throws
  exactly when the selected backend's \<open>temp.mkdirSync\<close> or \<open>fs.writeFile\<close> throws; what
  is thrown becomes a result with empty output and the message of the thrown \<open>Error\<close>
  as error (\<open>Unknown execution error\<close> for a thrown value that is not an \<open>Error\<close>), and
  what the block returns is returned unchanged. Every result carries as
  \<open>executionTime\<close> the clock reading taken when the result is made minus the reading
  taken at the start of the backend or simulator (at the start of \<open>executeCode\<close> in the
  catch-all); it is not clamped, so it is \<open>\<ge> 0\<close> exactly when the later reading is not
  below the earlier one.
\<close>

theorem executeCode_catches_and_stamps:
  "(case executeCodeTry w code language (s\<lparr>clockReads := Suc (clockReads s)\<rparr>) of
      (Inl e, s1) \<Rightarrow>
        executeCode w code language s =
          (\<lparr>outputText = '''',
            error = Some (case e of ErrorObj m \<Rightarrow> m | NonError \<Rightarrow> ''Unknown execution error''),
            executionTime = clock w (clockReads s + 2) - clock w (clockReads s)\<rparr>,
           s1\<lparr>clockReads := clockReads s + 3\<rparr>)
    | (Inr r, s1) \<Rightarrow>
        executeCode w code language s = (r, s1) \<and>
        executionTime r = clock w (clockReads s + 2) - clock w (clockReads s + 1))
   \<and> thrownOf (fst (executeCodeTry w code language (s\<lparr>clockReads := Suc (clockReads s)\<rparr>))) =
       (case backendWorkspace language code of
          None \<Rightarrow> None
        | Some (affix, fileName) \<Rightarrow>
            (case mkdirResult w affix (length (tracked s)) of
               Inl e \<Rightarrow> Some e
             | Inr dir \<Rightarrow> writeFileResult w (pathJoin dir fileName) code))
   \<and> (0 \<le> executionTime (fst (executeCode w code language s))) =
       (clock w (clockReads s +
          (if thrownOf (fst (executeCodeTry w code language (s\<lparr>clockReads := Suc (clockReads s)\<rparr>)))
              = None then 1 else 0))
        \<le> clock w (clockReads s + 2))"
proof -
  define n where "n = clockReads s"
  define s0 where "s0 = s\<lparr>clockReads := Suc n\<rparr>"
  obtain res s1 where t: "executeCodeTry w code language s0 = (res, s1)"
    by (cases "executeCodeTry w code language s0")
  from executeCodeTry_timed [of w s0 code language] t
  have tf: "timedFrom w (Suc n) (res, s1)"
    by (simp add: s0_def)
  have th: "thrownOf (fst (executeCodeTry w code language s0)) =
       (case backendWorkspace language code of
          None \<Rightarrow> None
        | Some (affix, fileName) \<Rightarrow>
            (case mkdirResult w affix (length (tracked s)) of
               Inl e \<Rightarrow> Some e
             | Inr dir \<Rightarrow> writeFileResult w (pathJoin dir fileName) code))"
  proof -
    have "tracked s0 = tracked s"
      by (simp add: s0_def)
    then show ?thesis
      unfolding executeCodeTry_thrown by (simp only:)
  qed
  define T where "T = thrownOf (fst (executeCodeTry w code language s0))"
  define B where "B = (case backendWorkspace language code of
          None \<Rightarrow> None
        | Some (affix, fileName) \<Rightarrow>
            (case mkdirResult w affix (length (tracked s)) of
               Inl e \<Rightarrow> Some e
             | Inr dir \<Rightarrow> writeFileResult w (pathJoin dir fileName) code))"
  have c2: "T = B"
    using th by (simp only: T_def B_def)
  have c13: "(case executeCodeTry w code language s0 of
      (Inl e, s1) \<Rightarrow>
        executeCode w code language s =
          (\<lparr>outputText = '''',
            error = Some (case e of ErrorObj m \<Rightarrow> m | NonError \<Rightarrow> ''Unknown execution error''),
            executionTime = clock w (n + 2) - clock w n\<rparr>,
           s1\<lparr>clockReads := n + 3\<rparr>)
    | (Inr r, s1) \<Rightarrow>
        executeCode w code language s = (r, s1) \<and>
        executionTime r = clock w (n + 2) - clock w (n + 1))
   \<and> (0 \<le> executionTime (fst (executeCode w code language s))) =
       (clock w (n + (if T = None then 1 else 0)) \<le> clock w (n + 2))"
  proof (cases res)
    case (Inl e)
    with tf have c: "clockReads s1 = Suc (Suc n)"
      by (simp add: timedFrom_def)
    from Inl t c have e: "executeCode w code language s =
          (\<lparr>outputText = '''',
            error = Some (case e of ErrorObj m \<Rightarrow> m | NonError \<Rightarrow> ''Unknown execution error''),
            executionTime = clock w (n + 2) - clock w n\<rparr>,
           s1\<lparr>clockReads := n + 3\<rparr>)"
      by (simp add: executeCode_def now_def Let_def thrownMessage_def s0_def n_def)
    from Inl t have "T = Some e"
      by (simp add: thrownOf_def T_def)
    with e t Inl show ?thesis
      by simp
  next
    case (Inr r)
    with tf have c: "executionTime r = clock w (n + 2) - clock w (n + 1)"
      by (simp add: timedFrom_def)
    from Inr t have e: "executeCode w code language s = (r, s1)"
      by (simp add: executeCode_def now_def Let_def s0_def n_def)
    from Inr t have "T = None"
      by (simp add: thrownOf_def T_def)
    with e c t Inr show ?thesis
      by simp
  qed
  note r = c13 [unfolded T_def s0_def n_def] c2 [unfolded T_def B_def s0_def n_def]
  show ?thesis
    by (rule conjI [OF r(1) [THEN conjunct1] conjI [OF r(2) r(1) [THEN conjunct2]]])
qed

lemma fullDisk_try:
  "executeCodeTry fullDiskWorld ''int main(){}'' ''c'' (initState\<lparr>clockReads := Suc (clockReads initState)\<rparr>)
     = (Inl (ErrorObj ''ENOSPC''), initState\<lparr>clockReads := 2\<rparr>)"
  by (simp add: executeCodeTry_def compileAndRunC_def compileAndRun_def prepareWorkspace_def
      mkdirSync_def now_def fullDiskWorld_def initState_def Let_def)

theorem executeCode_catches_and_stamps_witness:
  "executeCodeTry fullDiskWorld ''int main(){}'' ''c''
      (initState\<lparr>clockReads := Suc (clockReads initState)\<rparr>)
     = (Inl (ErrorObj ''ENOSPC''), initState\<lparr>clockReads := 2\<rparr>) \<and>
   backendWorkspace ''c'' ''int main(){}'' = Some (''c-compiler'', ''main.c'') \<and>
   mkdirResult fullDiskWorld ''c-compiler'' (length (tracked initState)) = Inl (ErrorObj ''ENOSPC'') \<and>
   executeCode fullDiskWorld ''int main(){}'' ''c'' initState =
     (\<lparr>outputText = '''', error = Some ''ENOSPC'', executionTime = 2\<rparr>,
      initState\<lparr>clockReads := 3\<rparr>)"
proof -
  have b: "backendWorkspace ''c'' ''int main(){}'' = Some (''c-compiler'', ''main.c'')"
    by (simp add: backendWorkspace_def)
  have m: "mkdirResult fullDiskWorld ''c-compiler'' (length (tracked initState)) =
      Inl (ErrorObj ''ENOSPC'')"
    by (simp add: fullDiskWorld_def)
  have e: "executeCode fullDiskWorld ''int main(){}'' ''c'' initState =
     (\<lparr>outputText = '''', error = Some ''ENOSPC'', executionTime = 2\<rparr>,
      initState\<lparr>clockReads := 3\<rparr>)"
    using executeCode_catches_and_stamps [of fullDiskWorld "''int main(){}''" "''c''" initState,
        THEN conjunct1]
    unfolding fullDisk_try by (simp add: fullDiskWorld_def initState_def)
  from fullDisk_try b m e show ?thesis
    by (intro conjI)
qed

text \<open>
  C4. In the backends for C, C++ and Java, when the workspace was made and the compiler
  call fails, the backend returns at once with empty output and the compiler's
  diagnostic as error (\<open>Compilation error\<close> when none was captured or it is empty). The
  only command spawned is the compiler: the artifact is never run, so the result does not
  depend on what running it would give.
\<close>

theorem compile_error_returns_immediately:
  "(mkdirResult w ''c-compiler'' (length (tracked s)) = Inr tmpDir \<and>
    writeFileResult w (pathJoin tmpDir ''main.c'') code = None \<and>
    execResult w (''gcc '' @ pathJoin tmpDir ''main.c'' @ '' -o '' @ pathJoin tmpDir ''main.out''
       @ '' -lm'') = Rejected out err \<longrightarrow>
    compileAndRunC w code s =
      (Inr \<lparr>outputText = '''',
         error = Some (case err of None \<Rightarrow> ''Compilation error''
                       | Some d \<Rightarrow> if d = [] then ''Compilation error'' else d),
         executionTime = clock w (Suc (clockReads s)) - clock w (clockReads s)\<rparr>,
       s\<lparr>clockReads := clockReads s + 2, workspaces := tmpDir # workspaces s,
         tracked := tmpDir # tracked s, files := (pathJoin tmpDir ''main.c'', code) # files s,
         spawned := (''gcc '' @ pathJoin tmpDir ''main.c'' @ '' -o '' @ pathJoin tmpDir ''main.out''
            @ '' -lm'') # spawned s\<rparr>))
   \<and> (mkdirResult w ''cpp-compiler'' (length (tracked s)) = Inr tmpDir \<and>
    writeFileResult w (pathJoin tmpDir ''main.cpp'') code = None \<and>
    execResult w (''g++ '' @ pathJoin tmpDir ''main.cpp'' @ '' -o '' @ pathJoin tmpDir ''main.out''
       @ '' -std=c++17'') = Rejected out err \<longrightarrow>
    compileAndRunCpp w code s =
      (Inr \<lparr>outputText = '''',
         error = Some (case err of None \<Rightarrow> ''Compilation error''
                       | Some d \<Rightarrow> if d = [] then ''Compilation error'' else d),
         executionTime = clock w (Suc (clockReads s)) - clock w (clockReads s)\<rparr>,
       s\<lparr>clockReads := clockReads s + 2, workspaces := tmpDir # workspaces s,
         tracked := tmpDir # tracked s, files := (pathJoin tmpDir ''main.cpp'', code) # files s,
         spawned := (''g++ '' @ pathJoin tmpDir ''main.cpp'' @ '' -o '' @ pathJoin tmpDir ''main.out''
            @ '' -std=c++17'') # spawned s\<rparr>))
   \<and> (findPublicClass code = Some mainClassName \<and>
    mkdirResult w ''java-compiler'' (length (tracked s)) = Inr tmpDir \<and>
    writeFileResult w (pathJoin tmpDir (mainClassName @ ''.java'')) code = None \<and>
    execResult w (''javac '' @ pathJoin tmpDir (mainClassName @ ''.java'')) = Rejected out err \<longrightarrow>
    compileAndRunJava w code s =
      (Inr \<lparr>outputText = '''',
         error = Some (case err of None \<Rightarrow> ''Compilation error''
                       | Some d \<Rightarrow> if d = [] then ''Compilation error'' else d),
         executionTime = clock w (Suc (clockReads s)) - clock w (clockReads s)\<rparr>,
       s\<lparr>clockReads := clockReads s + 2, workspaces := tmpDir # workspaces s,
         tracked := tmpDir # tracked s,
         files := (pathJoin tmpDir (mainClassName @ ''.java''), code) # files s,
         spawned := (''javac '' @ pathJoin tmpDir (mainClassName @ ''.java'')) # spawned s\<rparr>))"
proof (intro conjI impI)
  assume a: "mkdirResult w ''c-compiler'' (length (tracked s)) = Inr tmpDir \<and>
    writeFileResult w (pathJoin tmpDir ''main.c'') code = None \<and>
    execResult w (''gcc '' @ pathJoin tmpDir ''main.c'' @ '' -o '' @ pathJoin tmpDir ''main.out''
       @ '' -lm'') = Rejected out err"
  note c = compile_failure [OF a [THEN conjunct1] a [THEN conjunct2, THEN conjunct1]
      a [THEN conjunct2, THEN conjunct2]]
  show "compileAndRunC w code s =
      (Inr \<lparr>outputText = '''',
         error = Some (case err of None \<Rightarrow> ''Compilation error''
                       | Some d \<Rightarrow> if d = [] then ''Compilation error'' else d),
         executionTime = clock w (Suc (clockReads s)) - clock w (clockReads s)\<rparr>,
       s\<lparr>clockReads := clockReads s + 2, workspaces := tmpDir # workspaces s,
         tracked := tmpDir # tracked s, files := (pathJoin tmpDir ''main.c'', code) # files s,
         spawned := (''gcc '' @ pathJoin tmpDir ''main.c'' @ '' -o '' @ pathJoin tmpDir ''main.out''
            @ '' -lm'') # spawned s\<rparr>)"
    by (simp only: compileAndRunC_def compileAndRun_def now_def Let_def prod.case sum.case
        option.case c)
next
  assume a: "mkdirResult w ''cpp-compiler'' (length (tracked s)) = Inr tmpDir \<and>
    writeFileResult w (pathJoin tmpDir ''main.cpp'') code = None \<and>
    execResult w (''g++ '' @ pathJoin tmpDir ''main.cpp'' @ '' -o '' @ pathJoin tmpDir ''main.out''
       @ '' -std=c++17'') = Rejected out err"
  note c = compile_failure [OF a [THEN conjunct1] a [THEN conjunct2, THEN conjunct1]
      a [THEN conjunct2, THEN conjunct2]]
  show "compileAndRunCpp w code s =
      (Inr \<lparr>outputText = '''',
         error = Some (case err of None \<Rightarrow> ''Compilation error''
                       | Some d \<Rightarrow> if d = [] then ''Compilation error'' else d),
         executionTime = clock w (Suc (clockReads s)) - clock w (clockReads s)\<rparr>,
       s\<lparr>clockReads := clockReads s + 2, workspaces := tmpDir # workspaces s,
         tracked := tmpDir # tracked s, files := (pathJoin tmpDir ''main.cpp'', code) # files s,
         spawned := (''g++ '' @ pathJoin tmpDir ''main.cpp'' @ '' -o '' @ pathJoin tmpDir ''main.out''
            @ '' -std=c++17'') # spawned s\<rparr>)"
    by (simp only: compileAndRunCpp_def compileAndRun_def now_def Let_def prod.case sum.case
        option.case c)
next
  assume a: "findPublicClass code = Some mainClassName \<and>
    mkdirResult w ''java-compiler'' (length (tracked s)) = Inr tmpDir \<and>
    writeFileResult w (pathJoin tmpDir (mainClassName @ ''.java'')) code = None \<and>
    execResult w (''javac '' @ pathJoin tmpDir (mainClassName @ ''.java'')) = Rejected out err"
  note c = compile_failure [OF a [THEN conjunct2, THEN conjunct1]
      a [THEN conjunct2, THEN conjunct2, THEN conjunct1]
      a [THEN conjunct2, THEN conjunct2, THEN conjunct2]]
  show "compileAndRunJava w code s =
      (Inr \<lparr>outputText = '''',
         error = Some (case err of None \<Rightarrow> ''Compilation error''
                       | Some d \<Rightarrow> if d = [] then ''Compilation error'' else d),
         executionTime = clock w (Suc (clockReads s)) - clock w (clockReads s)\<rparr>,
       s\<lparr>clockReads := clockReads s + 2, workspaces := tmpDir # workspaces s,
         tracked := tmpDir # tracked s,
         files := (pathJoin tmpDir (mainClassName @ ''.java''), code) # files s,
         spawned := (''javac '' @ pathJoin tmpDir (mainClassName @ ''.java'')) # spawned s\<rparr>)"
    by (simp only: compileAndRunJava_def now_def Let_def a [THEN conjunct1] prod.case sum.case
        option.case c)
qed

theorem compile_error_returns_immediately_witness:
  "mkdirResult failWorld ''c-compiler'' (length (tracked initState)) = Inr ''/tmp/c-compiler'' \<and>
   writeFileResult failWorld (pathJoin ''/tmp/c-compiler'' ''main.c'') ''int main(){ return x; }''
     = None \<and>
   execResult failWorld (''gcc '' @ pathJoin ''/tmp/c-compiler'' ''main.c'' @ '' -o '' @
      pathJoin ''/tmp/c-compiler'' ''main.out'' @ '' -lm'') = Rejected None (Some ''boom'') \<and>
   fst (compileAndRunC failWorld ''int main(){ return x; }'' initState) =
     Inr \<lparr>outputText = '''', error = Some ''boom'', executionTime = 1\<rparr> \<and>
   spawned (snd (compileAndRunC failWorld ''int main(){ return x; }'' initState)) =
     [''gcc /tmp/c-compiler/main.c -o /tmp/c-compiler/main.out -lm'']"
proof -
  have h: "mkdirResult failWorld ''c-compiler'' (length (tracked initState)) = Inr ''/tmp/c-compiler'' \<and>
    writeFileResult failWorld (pathJoin ''/tmp/c-compiler'' ''main.c'') ''int main(){ return x; }''
      = None \<and>
    execResult failWorld (''gcc '' @ pathJoin ''/tmp/c-compiler'' ''main.c'' @ '' -o '' @
      pathJoin ''/tmp/c-compiler'' ''main.out'' @ '' -lm'') = Rejected None (Some ''boom'')"
    by (simp add: failWorld_def)
  note r = compile_error_returns_immediately [THEN conjunct1, THEN mp, OF h]
  have a: "fst (compileAndRunC failWorld ''int main(){ return x; }'' initState) =
     Inr \<lparr>outputText = '''', error = Some ''boom'', executionTime = 1\<rparr>"
    unfolding r by (simp add: failWorld_def initState_def)
  have b: "spawned (snd (compileAndRunC failWorld ''int main(){ return x; }'' initState)) =
     [''gcc /tmp/c-compiler/main.c -o /tmp/c-compiler/main.out -lm'']"
    unfolding r by (simp add: initState_def pathJoin_def)
  from h a b show ?thesis
    by (intro conjI) (rule conjunct1, assumption, rule conjunct2 [THEN conjunct1], assumption,
      rule conjunct2 [THEN conjunct2], assumption+)
qed

text \<open>
  C2, as stated, fails: after a compile error the C backend has returned and its
  workspace still exists. No backend removes its workspace.
\<close>

theorem workspace_cleanup_counterexample:
  "fst (compileAndRunC failWorld ''int main(){ return x; }'' initState) =
     Inr \<lparr>outputText = '''', error = Some ''boom'', executionTime = 1\<rparr> \<and>
   workspaces initState = [] \<and>
   workspaces (snd (compileAndRunC failWorld ''int main(){ return x; }'' initState)) =
     [''/tmp/c-compiler''] \<and>
   workspaces (snd (executeCode failWorld ''int main(){ return x; }'' ''c'' initState)) =
     [''/tmp/c-compiler'']"
  by (simp add: executeCode_def executeCodeTry_def compileAndRunC_def compileAndRun_def
      prepareWorkspace_def mkdirSync_def writeFile_def compilePhase_def execAsync_def now_def
      orElse_def failWorld_def initState_def Let_def)

text \<open>
  C2, amended. No execution backend removes its workspace: the \<open>finally\<close> blocks are
  empty and removal is left to \<open>temp.track()\<close>, which acts when the process exits.
  Through \<open>executeCode\<close>, on every exit path (success, compile error, runtime error,
  timeout, exception thrown after the directory was made), the workspaces and tracked
  directories afterwards are those before plus the directory \<open>temp.mkdirSync\<close> returned
  to the backend, or just those before when \<open>temp.mkdirSync\<close> threw. The simulator and
  the Java backend without a public class make no workspace.
\<close>

theorem workspace_kept_until_exit:
  "madeWorkspace w ''c-compiler'' s (snd (executeCode w code ''c'' s))
   \<and> madeWorkspace w ''cpp-compiler'' s (snd (executeCode w code ''cpp'' s))
   \<and> madeWorkspace w ''python-runner'' s (snd (executeCode w code ''python'' s))
   \<and> madeWorkspace w ''javascript-runner'' s (snd (executeCode w code ''javascript'' s))
   \<and> madeWorkspace w ''typescript-runner'' s (snd (executeCode w code ''typescript'' s))
   \<and> madeWorkspace w ''php-runner'' s (snd (executeCode w code ''php'' s))
   \<and> madeWorkspace w ''go-compiler'' s (snd (executeCode w code ''go'' s))
   \<and> (case findPublicClass code of
        Some name \<Rightarrow> madeWorkspace w ''java-compiler'' s (snd (executeCode w code ''java'' s))
      | None \<Rightarrow> workspaces (snd (executeCode w code ''java'' s)) = workspaces s \<and>
          tracked (snd (executeCode w code ''java'' s)) = tracked s)
   \<and> (language \<notin> {''c'', ''cpp'', ''python'', ''javascript'', ''typescript'', ''java'',
        ''php'', ''go''} \<longrightarrow>
        workspaces (snd (executeCode w code language s)) = workspaces s \<and>
        tracked (snd (executeCode w code language s)) = tracked s)
   \<and> (mkdirResult w affix (length (tracked s)) = Inr dir \<and> madeWorkspace w affix s s' \<longrightarrow>
        workspaces s' = dir # workspaces s \<and> tracked s' = dir # tracked s \<and>
        dir \<in> set (workspaces s') \<and> set (workspaces s) \<subseteq> set (workspaces s'))"
proof (intro conjI impI)
  show "madeWorkspace w ''c-compiler'' s (snd (executeCode w code ''c'' s))"
    "madeWorkspace w ''cpp-compiler'' s (snd (executeCode w code ''cpp'' s))"
    "madeWorkspace w ''python-runner'' s (snd (executeCode w code ''python'' s))"
    "madeWorkspace w ''javascript-runner'' s (snd (executeCode w code ''javascript'' s))"
    "madeWorkspace w ''typescript-runner'' s (snd (executeCode w code ''typescript'' s))"
    "madeWorkspace w ''php-runner'' s (snd (executeCode w code ''php'' s))"
    "madeWorkspace w ''go-compiler'' s (snd (executeCode w code ''go'' s))"
    by (rule executeCode_keeps, rule executeCodeTry_workspaces)+
next
  show "case findPublicClass code of
        Some name \<Rightarrow> madeWorkspace w ''java-compiler'' s (snd (executeCode w code ''java'' s))
      | None \<Rightarrow> workspaces (snd (executeCode w code ''java'' s)) = workspaces s \<and>
          tracked (snd (executeCode w code ''java'' s)) = tracked s"
  proof (cases "findPublicClass code")
    case None
    then show ?thesis
      by (simp add: executeCode_snd executeCodeTry_routes compileAndRunJava_def now_def Let_def)
  next
    case (Some name)
    then have "findPublicClass code \<noteq> None" by simp
    then have "madeWorkspace w ''java-compiler'' s (snd (executeCode w code ''java'' s))"
      by (intro executeCode_keeps executeCodeTry_workspaces)
    with Some show ?thesis by simp
  qed
next
  assume "language \<notin> {''c'', ''cpp'', ''python'', ''javascript'', ''typescript'', ''java'',
        ''php'', ''go''}"
  then have "executeCodeTry w code language (s\<lparr>clockReads := Suc (clockReads s)\<rparr>) =
      (case simulateExecution w code language (s\<lparr>clockReads := Suc (clockReads s)\<rparr>) of
         (r, s1) \<Rightarrow> (Inr r, s1))"
    by (rule executeCodeTry_default)
  then show "workspaces (snd (executeCode w code language s)) = workspaces s"
    "tracked (snd (executeCode w code language s)) = tracked s"
    by (simp_all add: executeCode_snd simulateExecution_effect)
next
  assume a: "mkdirResult w affix (length (tracked s)) = Inr dir \<and> madeWorkspace w affix s s'"
  then show "workspaces s' = dir # workspaces s" "tracked s' = dir # tracked s"
    by (auto simp: madeWorkspace_def)
  then show "dir \<in> set (workspaces s')" "set (workspaces s) \<subseteq> set (workspaces s')"
    by auto
qed

theorem workspace_kept_until_exit_witness:
  "mkdirResult failWorld ''c-compiler'' (length (tracked initState)) = Inr ''/tmp/c-compiler'' \<and>
   madeWorkspace failWorld ''c-compiler'' initState
     (snd (executeCode failWorld ''int main(){ return x; }'' ''c'' initState)) \<and>
   ''/tmp/c-compiler'' \<in>
     set (workspaces (snd (executeCode failWorld ''int main(){ return x; }'' ''c'' initState))) \<and>
   tracked (snd (executeCode failWorld ''int main(){ return x; }'' ''c'' initState)) =
     [''/tmp/c-compiler'']"
proof -
  have m: "mkdirResult failWorld ''c-compiler'' (length (tracked initState)) = Inr ''/tmp/c-compiler''"
    by (simp add: failWorld_def)
  note t = workspace_kept_until_exit [where w = failWorld and s = initState
      and code = "''int main(){ return x; }''" and affix = "''c-compiler''"
      and dir = "''/tmp/c-compiler''"
      and s' = "snd (executeCode failWorld ''int main(){ return x; }'' ''c'' initState)"]
  have k: "madeWorkspace failWorld ''c-compiler'' initState
     (snd (executeCode failWorld ''int main(){ return x; }'' ''c'' initState))"
    by (rule t [THEN conjunct1])
  note u = t [THEN conjunct2, THEN conjunct2, THEN conjunct2, THEN conjunct2, THEN conjunct2,
      THEN conjunct2, THEN conjunct2, THEN conjunct2, THEN conjunct2, THEN mp, OF conjI, OF m k]
  have i: "''/tmp/c-compiler'' \<in>
     set (workspaces (snd (executeCode failWorld ''int main(){ return x; }'' ''c'' initState)))"
    by (rule u [THEN conjunct2, THEN conjunct2, THEN conjunct1])
  have r: "tracked (snd (executeCode failWorld ''int main(){ return x; }'' ''c'' initState)) =
     [''/tmp/c-compiler'']"
    using u [THEN conjunct2, THEN conjunct1] by (simp add: initState_def)
  from m k i r show ?thesis
    by (intro conjI)
qed

text \<open>
  C1. The controller accepts \<open>Python\<close> as a supported language, since the registry
  lowercases and trims; \<open>executeCode\<close> compares the identifier as it was passed, so
  \<open>Python\<close> is not routed to the Python backend that \<open>python\<close> reaches but to the
  simulator, whose own \<open>switch\<close> does not know it either: no process is spawned and
  the output is the not-implemented message.
\<close>

theorem executeCode_language_not_normalized:
  "isSupportedLanguage ''Python'' \<and> normalizeLanguageId ''Python'' = ''python''
   \<and> executeCodeTry w code ''python'' s = runPython w code s
   \<and> executeCodeTry w code ''Python'' s =
       (case simulateExecution w code ''Python'' s of (r, s1) \<Rightarrow> (Inr r, s1))
   \<and> executeCode w code ''Python'' s =
       (\<lparr>outputText = ''Language execution simulation not implemented yet.'' @ [NEWLINE] @
           ''Program executed successfully.'',
         error = None,
         executionTime = clock w (clockReads s + 2) - clock w (clockReads s + 1)\<rparr>,
        s\<lparr>clockReads := clockReads s + 3\<rparr>)
   \<and> spawned (snd (executeCode w code ''Python'' s)) = spawned s
   \<and> fst (compileCode w \<lparr>codeField = Some ''print(1)'', languageField = Some ''Python''\<rparr> s) =
       \<lparr>status = 200,
        body = Success (''Language execution simulation not implemented yet.'' @ [NEWLINE] @
            ''Program executed successfully.'') None
          (clock w (clockReads s + 2) - clock w (clockReads s + 1))\<rparr>"
proof (intro conjI)
  show sup: "isSupportedLanguage ''Python''"
    by code_simp
  show "normalizeLanguageId ''Python'' = ''python''"
    by code_simp
  show "executeCodeTry w code ''python'' s = runPython w code s"
    by (rule executeCodeTry_routes)
  show "executeCodeTry w code ''Python'' s =
       (case simulateExecution w code ''Python'' s of (r, s1) \<Rightarrow> (Inr r, s1))"
    by (simp add: executeCodeTry_def)
  have so: "simulatedOutput code ''Python'' =
      ''Language execution simulation not implemented yet.'' @ [NEWLINE] @
      ''Program executed successfully.''" for code
    by (simp add: simulatedOutput_def)
  show ex: "executeCode w code ''Python'' s =
       (\<lparr>outputText = ''Language execution simulation not implemented yet.'' @ [NEWLINE] @
           ''Program executed successfully.'',
         error = None,
         executionTime = clock w (clockReads s + 2) - clock w (clockReads s + 1)\<rparr>,
        s\<lparr>clockReads := clockReads s + 3\<rparr>)" for code
    by (simp add: executeCode_def executeCodeTry_def now_def Let_def simulateExecution_effect so)
  show "spawned (snd (executeCode w code ''Python'' s)) = spawned s"
    by (simp add: ex)
  have cs: "checkSyntax ''print(1)'' ''Python'' = noSyntaxError"
    by code_simp
  show "fst (compileCode w \<lparr>codeField = Some ''print(1)'', languageField = Some ''Python''\<rparr> s) =
       \<lparr>status = 200,
        body = Success (''Language execution simulation not implemented yet.'' @ [NEWLINE] @
            ''Program executed successfully.'') None
          (clock w (clockReads s + 2) - clock w (clockReads s + 1))\<rparr>"
    by (simp add: compileCode_def falsy_def sup cs noSyntaxError_def ex Let_def)
qed

section \<open>Claims about the HTTP controller\<close>

lemma checkSyntax_no_code:
  "errorMessage (checkSyntax c l) = Some ''No code to compile. Please enter some code.'' \<Longrightarrow>
   trim c = []"
  by (auto simp: checkSyntax_def checkSyntaxC_def checkSyntaxPython_def checkSyntaxJs_def
      syntaxError_def noSyntaxError_def Let_def split: if_splits)

text \<open>
  C10. A request whose \<open>code\<close> is the empty string is answered with status 400 and
  \<open>Code and language are required\<close>, whatever its language, as is a request without
  \<open>code\<close>. The answer 400 with \<open>No code to compile. Please enter some code.\<close> is given
  only to code that is not empty and consists of whitespace only, and such a request
  with a supported language does get it.
\<close>

theorem compileCode_empty_code:
  "compileCode w \<lparr>codeField = Some '''', languageField = l\<rparr> s =
     (\<lparr>status = 400, body = Failure (Some ''Code and language are required'')\<rparr>, s)
   \<and> compileCode w \<lparr>codeField = None, languageField = l\<rparr> s =
     (\<lparr>status = 400, body = Failure (Some ''Code and language are required'')\<rparr>, s)
   \<and> (fst (compileCode w req s) =
        \<lparr>status = 400, body = Failure (Some ''No code to compile. Please enter some code.'')\<rparr>
      \<longrightarrow> (\<exists>c. codeField req = Some c \<and> c \<noteq> [] \<and> trim c = []))
   \<and> (c \<noteq> [] \<and> trim c = [] \<and> lang \<noteq> [] \<and> isSupportedLanguage lang \<longrightarrow>
        compileCode w \<lparr>codeField = Some c, languageField = Some lang\<rparr> s =
          (\<lparr>status = 400,
            body = Failure (Some ''No code to compile. Please enter some code.'')\<rparr>, s))"
proof (intro conjI impI)
  show "compileCode w \<lparr>codeField = Some '''', languageField = l\<rparr> s =
     (\<lparr>status = 400, body = Failure (Some ''Code and language are required'')\<rparr>, s)"
    by (simp add: compileCode_def falsy_def)
  show "compileCode w \<lparr>codeField = None, languageField = l\<rparr> s =
     (\<lparr>status = 400, body = Failure (Some ''Code and language are required'')\<rparr>, s)"
    by (simp add: compileCode_def falsy_def)
next
  assume a: "fst (compileCode w req s) =
        \<lparr>status = 400, body = Failure (Some ''No code to compile. Please enter some code.'')\<rparr>"
  show "\<exists>c. codeField req = Some c \<and> c \<noteq> [] \<and> trim c = []"
  proof (cases "falsy (codeField req) \<or> falsy (languageField req)")
    case True
    with a show ?thesis
      by (simp add: compileCode_def)
  next
    case False
    then obtain c l where cl: "codeField req = Some c" "c \<noteq> []" "languageField req = Some l"
      by (auto simp: falsy_def split: option.splits)
    show ?thesis
    proof (cases "isSupportedLanguage l")
      case ns: False
      with a False cl show ?thesis
        by (simp add: compileCode_def Let_def)
    next
      case True
      show ?thesis
      proof (cases "hasError (checkSyntax c l)")
        case he: True
        with a False cl True
        have "errorMessage (checkSyntax c l) = Some ''No code to compile. Please enter some code.''"
          by (simp add: compileCode_def Let_def)
        then have "trim c = []"
          by (rule checkSyntax_no_code)
        with cl show ?thesis by simp
      next
        case ne: False
        with a False cl True show ?thesis
          by (simp add: compileCode_def Let_def split: prod.splits)
      qed
    qed
  qed
next
  assume "c \<noteq> [] \<and> trim c = [] \<and> lang \<noteq> [] \<and> isSupportedLanguage lang"
  then show "compileCode w \<lparr>codeField = Some c, languageField = Some lang\<rparr> s =
          (\<lparr>status = 400,
            body = Failure (Some ''No code to compile. Please enter some code.'')\<rparr>, s)"
    by (simp add: compileCode_def falsy_def checkSyntax_def syntaxError_def Let_def)
qed

theorem compileCode_empty_code_witness:
  "'' '' \<noteq> [] \<and> trim '' '' = [] \<and> ''c'' \<noteq> [] \<and> isSupportedLanguage ''c'' \<and>
   compileCode failWorld \<lparr>codeField = Some '' '', languageField = Some ''c''\<rparr> initState =
     (\<lparr>status = 400,
       body = Failure (Some ''No code to compile. Please enter some code.'')\<rparr>, initState) \<and>
   (\<exists>c. codeField \<lparr>codeField = Some '' '', languageField = Some ''c''\<rparr> = Some c \<and> c \<noteq> [] \<and>
      trim c = [])"
proof -
  have h: "'' '' \<noteq> [] \<and> trim '' '' = [] \<and> ''c'' \<noteq> [] \<and> isSupportedLanguage ''c''"
    by code_simp
  note t = compileCode_empty_code [where w = failWorld and s = initState and c = "'' ''"
      and lang = "''c''" and req = "\<lparr>codeField = Some '' '', languageField = Some ''c''\<rparr>"]
  note r = t [THEN conjunct2, THEN conjunct2, THEN conjunct2, THEN mp, OF h]
  have "fst (compileCode failWorld \<lparr>codeField = Some '' '', languageField = Some ''c''\<rparr> initState) =
      \<lparr>status = 400, body = Failure (Some ''No code to compile. Please enter some code.'')\<rparr>"
    by (simp only: r fst_conv)
  note e = t [THEN conjunct2, THEN conjunct2, THEN conjunct1, THEN mp, OF this]
  from h r e show ?thesis
    by (intro conjI) (simp_all only: simp_thms)
qed

end
